(* ===== verification/TiePrelude.thy ===== *)
theory TiePrelude
  imports Main "HOL-Library.Word" "HOL-Library.Multiset" "HOL-Library.Monad_Syntax"
begin

text \<open>
  Shared vocabulary of the development: the Go integer types, byte strings in big-endian order,
  and the generic facts on lists, options and words that the component theories rely on.

  Conventions. A Go \<open>uint64\<close> is a \<open>64 word\<close> (arithmetic wraps), a \<open>byte\<close> an \<open>8 word\<close>, a
  \<open>*big.Int\<close> an \<open>int\<close>, a fixed array \<open>[20]byte\<close> or \<open>[32]byte\<close> read big-endian a \<open>160 word\<close> or
  \<open>256 word\<close>. A Go \<open>map\<close> is a HOL map. An \<open>option\<close> result is \<open>None\<close> where the code returns
  \<open>nil\<close> or, for the operations whose text says so, where the Go runtime panics.
\<close>

type_synonym u8 = "8 word"
type_synonym u64 = "64 word"
type_synonym address = "160 word"
type_synonym hash = "256 word"
type_synonym bytes = "u8 list"

named_theorems inv_intros \<open>introduction rules that re-establish component invariants\<close>
named_theorems op_defs \<open>definitions of straight-line operations, unfolded by symbolic execution\<close>

section \<open>Lists\<close>

lemma nth_append_last [simp]: "(xs @ [x]) ! length xs = x"
  by simp

lemma sum_list_mset: "mset xs = mset ys \<Longrightarrow> sum_list (map f xs) = sum_list (map f ys)"
  for f :: "'a \<Rightarrow> 'b::comm_monoid_add"
proof -
  assume "mset xs = mset ys"
  then have "sum_mset (mset (map f xs)) = sum_mset (mset (map f ys))" by simp
  then show ?thesis by (simp only: sum_mset_sum_list)
qed

lemma set_eq_of_mset: "mset xs = mset ys \<Longrightarrow> set xs = set ys"
  by (rule mset_eq_setD)

lemma sorted_wrt_snoc:
  "sorted_wrt P (xs @ [x]) \<longleftrightarrow> sorted_wrt P xs \<and> (\<forall>y\<in>set xs. P y x)"
  by (simp add: sorted_wrt_append)

section \<open>64-bit words\<close>

text \<open>\<open>big.Int.Uint64\<close>: the low 64 bits of the absolute value.\<close>

definition big_Uint64 :: "int \<Rightarrow> u64" where
  "big_Uint64 x = word_of_int \<bar>x\<bar>"

lemma u64_add_unat:
  "unat (a + b :: u64) = unat a + unat b" if "unat a + unat b < 2 ^ 64"
  using that by (simp add: unat_word_ariths)

lemma u64_sub_unat: "unat (a - b :: u64) = unat a - unat b" if "b \<le> a"
  using that by (rule unat_sub)

lemma u64_le_unat: "a \<le> b \<longleftrightarrow> unat a \<le> unat b" for a b :: u64
  by (simp add: word_le_nat_alt)

lemma u64_less_unat: "a < b \<longleftrightarrow> unat a < unat b" for a b :: u64
  by (simp add: word_less_nat_alt)

lemma unat_u64_bound [simp]: "unat (a :: u64) < 18446744073709551616"
  using unsigned_less [of a, where ?'a = nat] by simp

lemma unat_u64_le [simp]: "unat (a :: u64) \<le> 18446744073709551615"
  using unat_u64_bound [of a] by linarith

lemma u64_uint_of_nat: "n < 2 ^ 64 \<Longrightarrow> uint (of_nat n :: u64) = int n"
  by (simp add: unsigned_of_nat take_bit_nat_eq_self)

lemma u64_unat_Suc: "(a :: u64) \<noteq> - 1 \<Longrightarrow> unat (a + 1) = unat a + 1"
  using unatSuc [of a] by (simp add: add.commute add_eq_0_iff)

section \<open>Big-endian byte strings\<close>

text \<open>The unsigned value of a byte string, most significant byte first: \<open>big.Int.SetBytes\<close>.\<close>

definition be_value :: "bytes \<Rightarrow> int" where
  "be_value bs = foldl (\<lambda>acc b. acc * 256 + uint b) 0 bs"

lemma foldl_be_value: "foldl (\<lambda>acc b. acc * 256 + uint b) a bs = a * 256 ^ length bs + be_value bs"
proof (induction bs arbitrary: a)
  case Nil
  then show ?case by (simp add: be_value_def)
next
  case (Cons b bs)
  have "be_value (b # bs) = uint b * 256 ^ length bs + be_value bs"
    using Cons [of "uint b"] by (simp add: be_value_def)
  moreover have "foldl (\<lambda>acc b. acc * 256 + uint b) a (b # bs)
      = (a * 256 + uint b) * 256 ^ length bs + be_value bs"
    using Cons [of "a * 256 + uint b"] by simp
  ultimately show ?case by (simp add: algebra_simps)
qed

lemma be_value_Nil [simp]: "be_value [] = 0"
  by (simp add: be_value_def)

lemma be_value_Cons: "be_value (b # bs) = uint b * 256 ^ length bs + be_value bs"
  using foldl_be_value [of "uint b" bs] by (simp add: be_value_def)

lemma be_value_append: "be_value (xs @ ys) = be_value xs * 256 ^ length ys + be_value ys"
  using foldl_be_value [of "be_value xs" ys] by (simp add: be_value_def)

lemma be_value_nonneg [simp]: "0 \<le> be_value bs"
  by (induction bs) (simp_all add: be_value_Cons)

lemma be_value_less: "be_value bs < 256 ^ length bs"
proof (induction bs)
  case Nil
  then show ?case by simp
next
  case (Cons b bs)
  define p :: int where "p = 256 ^ length bs"
  have "uint b \<le> 255"
    using uint_lt2p [of b] by simp
  then have "uint b * p \<le> 255 * p"
    by (intro mult_right_mono) (simp_all add: p_def)
  moreover have "be_value bs < p" using Cons by (simp add: p_def)
  ultimately have "uint b * p + be_value bs < 256 * p" by linarith
  then show ?case by (simp add: be_value_Cons p_def)
qed

text \<open>The big-endian bytes of a value in exactly \<open>k\<close> bytes.\<close>

fun be_bytes :: "nat \<Rightarrow> int \<Rightarrow> bytes" where
  "be_bytes 0 v = []"
| "be_bytes (Suc k) v = be_bytes k (v div 256) @ [word_of_int v]"

lemma length_be_bytes [simp]: "length (be_bytes k v) = k"
  by (induction k arbitrary: v) simp_all

lemma be_value_be_bytes: "be_value (be_bytes k v) = v mod 256 ^ k"
proof (induction k arbitrary: v)
  case 0
  then show ?case by simp
next
  case (Suc k)
  have "uint (word_of_int v :: u8) = v mod 256"
    by (simp add: uint_word_of_int)
  moreover have "v mod (256 * 256 ^ k) = 256 * (v div 256 mod 256 ^ k) + v mod 256"
    using mod_mult2_eq' [of v 256 "256 ^ k"] by simp
  ultimately show ?case
    by (simp add: be_value_append Suc be_value_Cons)
qed

end
