(* ===== verification/TxTypes.thy ===== *)
theory TxTypes
  imports TiePrelude
begin

text \<open>
  The transaction type of \<open>types/transaction.go\<close> and its predicates, with the byte-array
  conversions of \<open>types/types.go\<close>. The RLP encoder and Keccak-256 are third-party code: the RLP
  bytes of a transaction and the hash of a byte string are arguments (\<open>rlp\<close>, \<open>keccak\<close>) of the
  definitions that use them.
\<close>

section \<open>Hashes and addresses\<close>

definition HashLength :: nat where "HashLength = 32"
definition AddressLength :: nat where "AddressLength = 20"

definition ZeroAddress :: address where "ZeroAddress = 0"
definition ZeroHash :: hash where "ZeroHash = 0"

text \<open>The last \<open>min (len b) 32\<close> bytes of \<open>b\<close>, right-aligned in the array.\<close>

definition BytesToHash :: "bytes \<Rightarrow> hash" where
  "BytesToHash b =
     (let size = length b; m = min size HashLength
      in word_of_int (be_value (drop (size - m) b)))"

definition BytesToAddress :: "bytes \<Rightarrow> address" where
  "BytesToAddress b =
     (let size = length b; m = min size AddressLength
      in word_of_int (be_value (drop (size - m) b)))"

definition Hash_Bytes :: "hash \<Rightarrow> bytes" where
  "Hash_Bytes h = be_bytes HashLength (uint h)"

definition Address_Bytes :: "address \<Rightarrow> bytes" where
  "Address_Bytes a = be_bytes AddressLength (uint a)"

lemma BytesToHash_Bytes: "BytesToHash (Hash_Bytes h) = h"
proof -
  have "uint h < 256 ^ 32" using uint_lt2p [of h] by simp
  then show ?thesis
    by (simp add: BytesToHash_def Hash_Bytes_def HashLength_def Let_def be_value_be_bytes)
qed

lemma BytesToAddress_Bytes: "BytesToAddress (Address_Bytes a) = a"
proof -
  have "uint a < 256 ^ 20" using uint_lt2p [of a] by simp
  then show ?thesis
    by (simp add: BytesToAddress_def Address_Bytes_def AddressLength_def Let_def be_value_be_bytes)
qed

text \<open>Bytes beyond the last 32 (20) do not matter: they are the residue of the value.\<close>

lemma be_value_drop: "k \<le> length b \<Longrightarrow> be_value (drop (length b - k) b) = be_value b mod 256 ^ k"
proof -
  assume k: "k \<le> length b"
  let ?u = "take (length b - k) b" and ?v = "drop (length b - k) b"
  have "be_value b = be_value ?u * 256 ^ k + be_value ?v"
    using k be_value_append [of ?u ?v] by simp
  moreover have "be_value ?v < 256 ^ k" using be_value_less [of ?v] k by simp
  ultimately show ?thesis by simp
qed

lemma BytesToHash_value: "uint (BytesToHash b) = be_value b mod 2 ^ 256"
proof (cases "32 \<le> length b")
  case True
  then show ?thesis
    by (simp add: BytesToHash_def HashLength_def Let_def min_absorb2 be_value_drop uint_word_of_int)
next
  case False
  then show ?thesis
    by (simp add: BytesToHash_def HashLength_def Let_def uint_word_of_int)
qed

section \<open>Hexadecimal\<close>

definition hex_digit :: "nat \<Rightarrow> char" where
  "hex_digit n = (if n < 10 then char_of (48 + n) else char_of (87 + n))"

text \<open>\<open>hex.EncodeToString\<close>: two lower-case digits per byte.\<close>

definition hex_EncodeToString :: "bytes \<Rightarrow> string" where
  "hex_EncodeToString bs = concat (map (\<lambda>b. [hex_digit (unat b div 16), hex_digit (unat b mod 16)]) bs)"

text \<open>\<open>strings.Count\<close> for a non-empty pattern: non-overlapping occurrences, from the left.\<close>

function strings_Count :: "string \<Rightarrow> string \<Rightarrow> nat" where
  "strings_Count s sub =
     (if sub = [] \<or> length s < length sub then 0
      else if take (length sub) s = sub then Suc (strings_Count (drop (length sub) s) sub)
      else strings_Count (tl s) sub)"
  by pat_completeness auto
termination
  by (relation "measure (\<lambda>(s, sub). length s)") (auto simp: neq_Nil_conv)

declare strings_Count.simps [simp del]

section \<open>Transactions\<close>

record transaction =
  txNonce :: u64
  txGasPrice :: int
  txGas :: u64
  txTo :: "address option"
  txValue :: int
  txInput :: bytes
  txV :: "int option"
  txR :: "int option"
  txS :: "int option"
  txHash :: hash
  txFrom :: address

definition WithdrawFeeMethod :: string where "WithdrawFeeMethod = ''070f468d''"
definition FixedRewardMethod :: string where "FixedRewardMethod = ''57305920''"

definition IsContractCreation :: "transaction \<Rightarrow> bool" where
  "IsContractCreation t \<longleftrightarrow> txTo t = None"

definition IsWithdrawFee :: "transaction \<Rightarrow> bool" where
  "IsWithdrawFee t \<longleftrightarrow> strings_Count (hex_EncodeToString (txInput t)) WithdrawFeeMethod > 0"

definition IsFixedRewardTx :: "transaction \<Rightarrow> bool" where
  "IsFixedRewardTx t \<longleftrightarrow> strings_Count (hex_EncodeToString (txInput t)) FixedRewardMethod > 0"

definition tx_ComputeHash :: "(transaction \<Rightarrow> bytes) \<Rightarrow> (bytes \<Rightarrow> hash) \<Rightarrow> transaction \<Rightarrow> transaction" where
  "tx_ComputeHash rlp keccak t = t\<lparr>txHash := keccak (rlp t)\<rparr>"

text \<open>\<open>Copy\<close> duplicates the big integers; \<open>SetBits (x.Bits ())\<close> keeps the magnitude of \<open>R\<close> and \<open>S\<close>.\<close>

definition tx_Copy :: "transaction \<Rightarrow> transaction" where
  "tx_Copy t = t\<lparr>txR := map_option abs (txR t), txS := map_option abs (txS t)\<rparr>"

definition tx_Cost :: "transaction \<Rightarrow> int" where
  "tx_Cost t = txGasPrice t * uint (txGas t) + txValue t"

definition tx_Size :: "(transaction \<Rightarrow> bytes) \<Rightarrow> transaction \<Rightarrow> u64" where
  "tx_Size rlp t = word_of_nat (length (rlp t))"

definition ExceedsBlockGasLimit :: "transaction \<Rightarrow> u64 \<Rightarrow> bool" where
  "ExceedsBlockGasLimit t blockGasLimit \<longleftrightarrow> txGas t > blockGasLimit"

definition IsUnderpriced :: "transaction \<Rightarrow> u64 \<Rightarrow> bool" where
  "IsUnderpriced t priceLimit \<longleftrightarrow> txGasPrice t < uint priceLimit"

text \<open>A transaction with all fields zero, the starting point of the concrete examples.\<close>

definition tx0 :: transaction where
  "tx0 = \<lparr>txNonce = 0, txGasPrice = 0, txGas = 0, txTo = None, txValue = 0, txInput = [],
          txV = None, txR = None, txS = None, txHash = 0, txFrom = 0\<rparr>"

end
