(* ===== verification/GoHeap.thy ===== *)
theory GoHeap
  imports TiePrelude
begin

text \<open>
  The binary heap of Go's standard library package \<open>container/heap\<close>, on which the transaction
  queues and the consensus message queue are built: \<open>up\<close>, \<open>down\<close>, \<open>Push\<close>, \<open>Pop\<close> and \<open>Init\<close>
  over a slice, written for any comparison \<open>lt\<close>. The locale \<open>heap_order\<close> states what the
  algorithm needs of \<open>lt\<close> (a strict weak order) and proves that the heap property and the
  contents are kept and that \<open>Pop\<close> takes a least element.
\<close>

section \<open>The algorithm\<close>

definition heap_swap :: "'a list \<Rightarrow> nat \<Rightarrow> nat \<Rightarrow> 'a list" where
  "heap_swap xs i j = xs[i := xs ! j, j := xs ! i]"

function heap_up :: "('a \<Rightarrow> 'a \<Rightarrow> bool) \<Rightarrow> 'a list \<Rightarrow> nat \<Rightarrow> 'a list" where
  "heap_up lt xs j =
     (let i = (j - 1) div 2
      in if i = j \<or> \<not> lt (xs ! j) (xs ! i) then xs
         else heap_up lt (heap_swap xs i j) i)"
  by pat_completeness auto
termination
  by (relation "measure (\<lambda>(lt, xs, j). j)") auto

declare heap_up.simps [simp del]

definition heap_child :: "('a \<Rightarrow> 'a \<Rightarrow> bool) \<Rightarrow> 'a list \<Rightarrow> nat \<Rightarrow> nat \<Rightarrow> nat" where
  "heap_child lt xs i n =
     (let j1 = 2 * i + 1; j2 = j1 + 1
      in if j2 < n \<and> lt (xs ! j2) (xs ! j1) then j2 else j1)"

lemma heap_child_gt: "i < heap_child lt xs i n"
  by (simp add: heap_child_def Let_def)

function heap_down :: "('a \<Rightarrow> 'a \<Rightarrow> bool) \<Rightarrow> 'a list \<Rightarrow> nat \<Rightarrow> nat \<Rightarrow> 'a list" where
  "heap_down lt xs i n =
     (if 2 * i + 1 \<ge> n then xs
      else let j = heap_child lt xs i n
           in if \<not> lt (xs ! j) (xs ! i) then xs
              else heap_down lt (heap_swap xs i j) j n)"
  by pat_completeness auto
termination
  by (relation "measure (\<lambda>(lt, xs, i, n). n - i)") (auto simp: heap_child_def Let_def split: if_splits)

declare heap_down.simps [simp del]

definition heap_push :: "('a \<Rightarrow> 'a \<Rightarrow> bool) \<Rightarrow> 'a list \<Rightarrow> 'a \<Rightarrow> 'a list" where
  "heap_push lt xs x = heap_up lt (xs @ [x]) (length xs)"

text \<open>\<open>heap.Pop\<close> swaps first and last, sifts down and drops the last; on an empty slice it panics.\<close>

definition heap_pop :: "('a \<Rightarrow> 'a \<Rightarrow> bool) \<Rightarrow> 'a list \<Rightarrow> ('a \<times> 'a list) option" where
  "heap_pop lt xs =
     (if xs = [] then None
      else let n = length xs - 1;
               ys = heap_down lt (heap_swap xs 0 n) 0 n
           in Some (ys ! n, take n ys))"

definition heap_init :: "('a \<Rightarrow> 'a \<Rightarrow> bool) \<Rightarrow> 'a list \<Rightarrow> 'a list" where
  "heap_init lt xs =
     foldl (\<lambda>ys i. heap_down lt ys i (length xs)) xs (rev [0..<length xs div 2])"

section \<open>Contents\<close>

lemma length_heap_swap [simp]: "length (heap_swap xs i j) = length xs"
  by (simp add: heap_swap_def)

lemma nth_heap_swap:
  "i < length xs \<Longrightarrow> j < length xs \<Longrightarrow>
   heap_swap xs i j ! k = (if k = j then xs ! i else if k = i then xs ! j else xs ! k)"
  by (auto simp: heap_swap_def nth_list_update)

lemma mset_heap_swap:
  "i < length xs \<Longrightarrow> j < length xs \<Longrightarrow> mset (heap_swap xs i j) = mset xs"
  by (simp add: heap_swap_def mset_swap)

lemma heap_up_mset: "j < length xs \<Longrightarrow> mset (heap_up lt xs j) = mset xs"
proof (induction lt xs j rule: heap_up.induct)
  case (1 lt xs j)
  have "(j - 1) div 2 < length xs"
    using "1.prems" by simp
  with 1 show ?case
    by (auto simp: heap_up.simps [of lt xs j] Let_def mset_heap_swap)
qed

lemma length_heap_up [simp]: "length (heap_up lt xs j) = length xs"
  by (induction lt xs j rule: heap_up.induct) (subst heap_up.simps, simp add: Let_def)

lemma heap_child_less: "2 * i + 1 < n \<Longrightarrow> heap_child lt xs i n < n"
  by (simp add: heap_child_def Let_def)

lemma length_heap_down [simp]: "length (heap_down lt xs i n) = length xs"
  by (induction lt xs i n rule: heap_down.induct) (subst heap_down.simps, simp add: Let_def)

lemma heap_down_mset: "n \<le> length xs \<Longrightarrow> mset (heap_down lt xs i n) = mset xs"
proof (induction lt xs i n rule: heap_down.induct)
  case (1 lt xs i n)
  show ?case
  proof (cases "2 * i + 1 < n")
    case True
    then have "i < length xs" "heap_child lt xs i n < length xs"
      using "1.prems" heap_child_less [of i n lt xs] by auto
    with 1 True show ?thesis
      by (auto simp: heap_down.simps [of lt xs i n] Let_def mset_heap_swap)
  next
    case False
    then show ?thesis by (simp add: heap_down.simps [of lt xs i n])
  qed
qed

text \<open>Positions from \<open>n\<close> on are not touched by \<open>down\<close>.\<close>

lemma heap_down_beyond:
  "n \<le> length xs \<Longrightarrow> n \<le> k \<Longrightarrow> k < length xs \<Longrightarrow> heap_down lt xs i n ! k = xs ! k"
proof (induction lt xs i n rule: heap_down.induct)
  case (1 lt xs i n)
  show ?case
  proof (cases "2 * i + 1 < n")
    case True
    then have "i < n" "heap_child lt xs i n < n"
      using heap_child_less [of i n lt xs] by auto
    with 1 True show ?thesis
      by (auto simp: heap_down.simps [of lt xs i n] Let_def nth_heap_swap)
  next
    case False
    then show ?thesis by (simp add: heap_down.simps [of lt xs i n])
  qed
qed

lemma heap_push_mset: "mset (heap_push lt xs x) = add_mset x (mset xs)"
  by (simp add: heap_push_def heap_up_mset)

lemma length_heap_push [simp]: "length (heap_push lt xs x) = Suc (length xs)"
  by (simp add: heap_push_def)

lemma heap_pop_None [simp]: "heap_pop lt xs = None \<longleftrightarrow> xs = []"
  by (simp add: heap_pop_def Let_def)

lemma heap_pop_head:
  assumes "heap_pop lt xs = Some (x, ys)"
  shows "xs \<noteq> []" "x = hd xs"
proof -
  from assms show ne: "xs \<noteq> []" by (auto simp: heap_pop_def)
  define n where "n = length xs - 1"
  from ne have n: "n < length xs" "0 < length xs" by (auto simp: n_def)
  have "x = heap_down lt (heap_swap xs 0 n) 0 n ! n"
    using assms ne by (simp add: heap_pop_def n_def Let_def)
  also have "\<dots> = heap_swap xs 0 n ! n"
    using n by (intro heap_down_beyond) auto
  also have "\<dots> = xs ! 0"
    using n by (simp add: nth_heap_swap)
  finally show "x = hd xs" using ne by (simp add: hd_conv_nth)
qed

lemma heap_pop_mset:
  assumes "heap_pop lt xs = Some (x, ys)"
  shows "mset xs = add_mset x (mset ys)"
proof -
  define n where "n = length xs - 1"
  define zs where "zs = heap_down lt (heap_swap xs 0 n) 0 n"
  from assms have ne: "xs \<noteq> []" by (auto simp: heap_pop_def)
  then have n: "n < length xs" "0 < length xs" by (auto simp: n_def)
  have "x = zs ! n" "ys = take n zs"
    using assms ne by (simp_all add: heap_pop_def n_def zs_def Let_def)
  moreover have "length zs = Suc n" using n by (simp add: zs_def n_def)
  ultimately have "zs = ys @ [x]"
    by (metis lessI order_refl take_Suc_conv_app_nth take_all)
  moreover have "mset zs = mset xs"
    using n by (simp add: zs_def heap_down_mset mset_heap_swap)
  ultimately show ?thesis by (metis mset.simps(2) mset_append add_mset_add_single mset.simps(1) add.commute)
qed

section \<open>The heap property\<close>

definition heap_upto :: "('a \<Rightarrow> 'a \<Rightarrow> bool) \<Rightarrow> 'a list \<Rightarrow> nat \<Rightarrow> bool" where
  "heap_upto lt xs n \<longleftrightarrow> (\<forall>k<n. 0 < k \<longrightarrow> \<not> lt (xs ! k) (xs ! ((k - 1) div 2)))"

abbreviation is_heap :: "('a \<Rightarrow> 'a \<Rightarrow> bool) \<Rightarrow> 'a list \<Rightarrow> bool" where
  "is_heap lt xs \<equiv> heap_upto lt xs (length xs)"

text \<open>The property with one position out of order, on the way up or on the way down.\<close>

definition heap_but_up :: "('a \<Rightarrow> 'a \<Rightarrow> bool) \<Rightarrow> 'a list \<Rightarrow> nat \<Rightarrow> bool" where
  "heap_but_up lt xs j \<longleftrightarrow>
     (\<forall>k<length xs. 0 < k \<longrightarrow>
        (k \<noteq> j \<longrightarrow> \<not> lt (xs ! k) (xs ! ((k - 1) div 2))) \<and>
        (0 < j \<and> (k - 1) div 2 = j \<longrightarrow> \<not> lt (xs ! k) (xs ! ((j - 1) div 2))))"

definition heap_but_down :: "('a \<Rightarrow> 'a \<Rightarrow> bool) \<Rightarrow> 'a list \<Rightarrow> nat \<Rightarrow> nat \<Rightarrow> bool" where
  "heap_but_down lt xs i n \<longleftrightarrow>
     (\<forall>k<n. 0 < k \<longrightarrow>
        ((k - 1) div 2 \<noteq> i \<longrightarrow> \<not> lt (xs ! k) (xs ! ((k - 1) div 2))) \<and>
        (0 < i \<and> (k - 1) div 2 = i \<longrightarrow> \<not> lt (xs ! k) (xs ! ((i - 1) div 2))))"

locale heap_order =
  fixes lt :: "'a \<Rightarrow> 'a \<Rightarrow> bool"
  assumes less_asym: "lt a b \<Longrightarrow> \<not> lt b a"
    and not_less_trans: "\<not> lt b a \<Longrightarrow> \<not> lt c b \<Longrightarrow> \<not> lt c a"
begin

lemma heap_but_up_step:
  assumes j: "j < length xs" "i = (j - 1) div 2" "i \<noteq> j"
    and h: "heap_but_up lt xs j" and l: "lt (xs ! j) (xs ! i)"
  shows "heap_but_up lt (heap_swap xs i j) i"
  unfolding heap_but_up_def
proof (intro allI impI)
  fix k
  assume k: "k < length (heap_swap xs i j)" "0 < k"
  from j have ij: "i < j" "i < length xs" "0 < j" by auto
  let ?p = "(k - 1) div 2"
  from k have pk: "?p < k" by auto
  from h k have A: "k \<noteq> j \<Longrightarrow> \<not> lt (xs ! k) (xs ! ?p)"
    and B: "?p = j \<Longrightarrow> \<not> lt (xs ! k) (xs ! i)"
    using j(2) ij(3) by (auto simp: heap_but_up_def)
  have asym: "\<not> lt (xs ! i) (xs ! j)" using l by (rule less_asym)
  have top: "\<not> lt (xs ! k) (xs ! j)" if "?p = i" "k \<noteq> j"
    using A [OF that(2)] asym that(1) not_less_trans by metis
  have up: "\<not> lt (xs ! i) (xs ! ((i - 1) div 2))" if "0 < i"
    using h ij that by (auto simp: heap_but_up_def)
  show "(k \<noteq> i \<longrightarrow> \<not> lt (heap_swap xs i j ! k) (heap_swap xs i j ! ?p)) \<and>
        (0 < i \<and> ?p = i \<longrightarrow> \<not> lt (heap_swap xs i j ! k) (heap_swap xs i j ! ((i - 1) div 2)))"
  proof (intro conjI impI)
    assume ki: "k \<noteq> i"
    show "\<not> lt (heap_swap xs i j ! k) (heap_swap xs i j ! ?p)"
    proof (cases "k = j")
      case True
      then show ?thesis using asym j ij by (simp add: nth_heap_swap)
    next
      case False
      then show ?thesis using A B top ki j ij pk k by (auto simp: nth_heap_swap)
    qed
  next
    assume ip: "0 < i \<and> ?p = i"
    then have g: "(i - 1) div 2 \<noteq> i" "(i - 1) div 2 \<noteq> j" using ij by linarith+
    show "\<not> lt (heap_swap xs i j ! k) (heap_swap xs i j ! ((i - 1) div 2))"
    proof (cases "k = j")
      case True
      then show ?thesis using up ip g j ij by (simp add: nth_heap_swap)
    next
      case False
      have "\<not> lt (xs ! k) (xs ! i)" using A [OF False] ip by simp
      then have "\<not> lt (xs ! k) (xs ! ((i - 1) div 2))"
        using up ip not_less_trans by blast
      then show ?thesis using False ip g pk j ij by (auto simp: nth_heap_swap)
    qed
  qed
qed

lemma heap_up_heap:
  assumes "j < length xs" "heap_but_up lt xs j"
  shows "is_heap lt (heap_up lt xs j)"
  using assms
proof (induction j arbitrary: xs rule: less_induct)
  case (less j)
  let ?i = "(j - 1) div 2"
  show ?case
  proof (cases "?i = j \<or> \<not> lt (xs ! j) (xs ! ?i)")
    case True
    then have "is_heap lt xs"
      using less.prems by (force simp: heap_but_up_def heap_upto_def)
    with True show ?thesis by (auto simp: heap_up.simps [of lt xs j] Let_def)
  next
    case False
    then have "heap_but_up lt (heap_swap xs ?i j) ?i"
      using less.prems by (intro heap_but_up_step) auto
    moreover have "?i < j" using False by auto
    ultimately have "is_heap lt (heap_up lt (heap_swap xs ?i j) ?i)"
      using less.prems by (intro less.IH) auto
    with False show ?thesis by (auto simp: heap_up.simps [of lt xs j] Let_def)
  qed
qed

lemma heap_push_heap: "is_heap lt xs \<Longrightarrow> is_heap lt (heap_push lt xs x)"
  unfolding heap_push_def
  by (rule heap_up_heap) (auto simp: heap_but_up_def heap_upto_def nth_append)

lemma heap_but_down_step:
  assumes n: "n \<le> length xs" "2 * i + 1 < n" and j: "j = heap_child lt xs i n"
    and h: "heap_but_down lt xs i n" and l: "lt (xs ! j) (xs ! i)"
  shows "heap_but_down lt (heap_swap xs i j) j n"
  unfolding heap_but_down_def
proof (intro allI impI)
  fix k
  assume k: "k < n" "0 < k"
  let ?p = "(k - 1) div 2"
  from n j have ij: "i < j" "j < n" "j < length xs" "i < length xs" "(j - 1) div 2 = i"
    using heap_child_gt [of i lt xs n] heap_child_less [of i n lt xs]
    by (auto simp: heap_child_def Let_def)
  from h k have A: "?p \<noteq> i \<Longrightarrow> \<not> lt (xs ! k) (xs ! ?p)"
    and B: "0 < i \<Longrightarrow> ?p = i \<Longrightarrow> \<not> lt (xs ! k) (xs ! ((i - 1) div 2))"
    by (auto simp: heap_but_down_def)
  have asym: "\<not> lt (xs ! i) (xs ! j)" using l by (rule less_asym)
  have sib: "\<not> lt (xs ! k) (xs ! j)" if "?p = i" "k \<noteq> j"
  proof -
    from that k have "k = 2 * i + 1 \<or> k = 2 * i + 2" by auto
    then show ?thesis
      using j that k less_asym by (auto simp: heap_child_def Let_def split: if_splits)
  qed
  from k have pk: "?p < k" by auto
  show "(?p \<noteq> j \<longrightarrow> \<not> lt (heap_swap xs i j ! k) (heap_swap xs i j ! ?p)) \<and>
        (0 < j \<and> ?p = j \<longrightarrow> \<not> lt (heap_swap xs i j ! k) (heap_swap xs i j ! ((j - 1) div 2)))"
  proof (intro conjI impI)
    assume pj: "?p \<noteq> j"
    consider "k = j" | "k = i" "k \<noteq> j" | "k \<noteq> i" "k \<noteq> j" by blast
    then show "\<not> lt (heap_swap xs i j ! k) (heap_swap xs i j ! ?p)"
    proof cases
      case 1
      then show ?thesis using asym ij by (simp add: nth_heap_swap)
    next
      case 2
      then have "?p \<noteq> i" "?p \<noteq> j" using pk pj by auto
      moreover have "\<not> lt (xs ! j) (xs ! ?p)"
        using h ij 2 k by (auto simp: heap_but_down_def)
      ultimately show ?thesis using 2 ij by (simp add: nth_heap_swap)
    next
      case 3
      then show ?thesis using A sib pj ij by (auto simp: nth_heap_swap)
    qed
  next
    assume pj: "0 < j \<and> ?p = j"
    then have "k \<noteq> i" "k \<noteq> j" using pk ij by auto
    then show "\<not> lt (heap_swap xs i j ! k) (heap_swap xs i j ! ((j - 1) div 2))"
      using A pj ij by (auto simp: nth_heap_swap)
  qed
qed

lemma heap_down_heap:
  assumes "n \<le> length xs" "heap_but_down lt xs i n"
  shows "heap_upto lt (heap_down lt xs i n) n"
  using assms
proof (induction "n - i" arbitrary: xs i rule: less_induct)
  case (less i xs)
  let ?j = "heap_child lt xs i n"
  show ?case
  proof (cases "2 * i + 1 < n \<and> lt (xs ! ?j) (xs ! i)")
    case True
    then have "heap_but_down lt (heap_swap xs i ?j) ?j n"
      using less.prems by (intro heap_but_down_step) auto
    moreover have "n - ?j < n - i"
      using True heap_child_gt [of i lt xs n] by auto
    ultimately have "heap_upto lt (heap_down lt (heap_swap xs i ?j) ?j n) n"
      using less.prems by (intro less.hyps) auto
    with True show ?thesis by (auto simp: heap_down.simps [of lt xs i n] Let_def)
  next
    case False
    have "\<not> lt (xs ! k) (xs ! ((k - 1) div 2))" if k: "k < n" "0 < k" for k
    proof (cases "(k - 1) div 2 = i")
      case True
      with k have *: "2 * i + 1 < n" "k = 2 * i + 1 \<or> k = 2 * i + 2" by auto
      with False have "\<not> lt (xs ! ?j) (xs ! i)" by simp
      moreover have "\<not> lt (xs ! k) (xs ! ?j)"
        using * k less_asym [of "xs ! k" "xs ! k"] less_asym
        by (auto simp: heap_child_def Let_def)
      ultimately show ?thesis using True not_less_trans by blast
    next
      case False
      with k less.prems show ?thesis by (auto simp: heap_but_down_def)
    qed
    with False show ?thesis
      by (auto simp: heap_upto_def heap_down.simps [of lt xs i n] Let_def)
  qed
qed

lemma heap_pop_heap:
  assumes "is_heap lt xs" "heap_pop lt xs = Some (x, ys)"
  shows "is_heap lt ys"
proof -
  define n where "n = length xs - 1"
  define zs where "zs = heap_down lt (heap_swap xs 0 n) 0 n"
  from assms have ne: "xs \<noteq> []" by (auto simp: heap_pop_def)
  then have n: "n < length xs" "0 < length xs" by (auto simp: n_def)
  have "heap_but_down lt (heap_swap xs 0 n) 0 n"
    using assms(1) n by (auto simp: heap_but_down_def heap_upto_def nth_heap_swap)
  then have "heap_upto lt zs n"
    using n unfolding zs_def by (intro heap_down_heap) auto
  moreover have "ys = take n zs" "length ys = n"
    using assms(2) ne n by (auto simp: heap_pop_def n_def zs_def Let_def)
  ultimately show ?thesis by (auto simp: heap_upto_def)
qed

lemma heap_head_least:
  assumes "is_heap lt xs" "y \<in> set xs"
  shows "\<not> lt y (hd xs)"
proof -
  have "\<not> lt (xs ! k) (xs ! 0)" if "k < length xs" for k
    using that
  proof (induction k rule: less_induct)
    case (less k)
    show ?case
    proof (cases "k = 0")
      case True
      then show ?thesis using less_asym by blast
    next
      case False
      then have "(k - 1) div 2 < k" by auto
      moreover have "\<not> lt (xs ! k) (xs ! ((k - 1) div 2))"
        using assms(1) less.prems False by (auto simp: heap_upto_def)
      ultimately show ?thesis
        using less.IH less.prems not_less_trans by (meson less_trans)
    qed
  qed
  moreover obtain k where "k < length xs" "y = xs ! k"
    using assms(2) by (auto simp: in_set_conv_nth)
  ultimately show ?thesis by (cases xs) (auto simp: hd_conv_nth)
qed

lemma heap_pop_least:
  assumes "is_heap lt xs" "heap_pop lt xs = Some (x, ys)" "y \<in> set ys"
  shows "\<not> lt y x"
proof -
  from assms(2) have "x = hd xs" by (rule heap_pop_head)
  moreover have "y \<in> set xs"
    using heap_pop_mset [OF assms(2)] assms(3) by (metis insert_iff set_mset_add_mset_insert set_mset_mset)
  ultimately show ?thesis using heap_head_least [OF assms(1)] by simp
qed

end

section \<open>The contract of a priority queue\<close>

text \<open>
  What the users of a queue rely on, for any representation: the contents as a multiset, and that
  \<open>pop\<close> removes an element no other element precedes. The heap is one implementation of it.
\<close>

locale prio_queue =
  fixes lt :: "'a \<Rightarrow> 'a \<Rightarrow> bool"
    and push :: "'q \<Rightarrow> 'a \<Rightarrow> 'q"
    and pop :: "'q \<Rightarrow> ('a \<times> 'q) option"
    and elems :: "'q \<Rightarrow> 'a multiset"
    and invar :: "'q \<Rightarrow> bool"
  assumes invar_push: "invar q \<Longrightarrow> invar (push q x)"
    and elems_push: "elems (push q x) = add_mset x (elems q)"
    and pop_None_iff: "pop q = None \<longleftrightarrow> elems q = {#}"
    and invar_pop: "invar q \<Longrightarrow> pop q = Some (x, q') \<Longrightarrow> invar q'"
    and elems_pop: "pop q = Some (x, q') \<Longrightarrow> elems q = add_mset x (elems q')"
    and pop_first: "invar q \<Longrightarrow> pop q = Some (x, q') \<Longrightarrow> y \<in># elems q' \<Longrightarrow> \<not> lt y x"
begin

lemma pop_size: "pop q = Some (x, q') \<Longrightarrow> size (elems q) = Suc (size (elems q'))"
  by (simp add: elems_pop)

lemma pop_pop_ordered:
  assumes "invar q" "pop q = Some (x, q')" "pop q' = Some (y, q'')"
  shows "\<not> lt y x"
  using pop_first [OF assms(1,2)] elems_pop [OF assms(3)] by simp

lemma push_pop_keeps:
  assumes "pop (push q x) = Some (y, q')"
  shows "add_mset y (elems q') = add_mset x (elems q)"
  using elems_pop [OF assms] by (simp add: elems_push)

end

sublocale heap_order \<subseteq> pq: prio_queue lt "heap_push lt" "heap_pop lt" mset "is_heap lt"
proof unfold_locales
  show "is_heap lt (heap_push lt q x)" if "is_heap lt q" for q x
    using that by (rule heap_push_heap)
  show "is_heap lt q'" if "is_heap lt q" "heap_pop lt q = Some (x, q')" for q x q'
    using that by (rule heap_pop_heap)
  show "mset q = add_mset x (mset q')" if "heap_pop lt q = Some (x, q')" for q x q'
    using that by (rule heap_pop_mset)
  show "\<not> lt y x" if "is_heap lt q" "heap_pop lt q = Some (x, q')" "y \<in># mset q'" for q x q' y
    using heap_pop_least [OF that(1,2)] that(3) by simp
qed (simp_all add: heap_push_mset)

lemma heap_pop_shorter: "heap_pop lt q = Some (x, q') \<Longrightarrow> length q' < length q"
  using arg_cong [OF heap_pop_mset, of _ _ _ _ size] by fastforce

lemma is_heap_Nil [simp]: "is_heap lt []"
  by (simp add: heap_upto_def)

lemma heap_init_Nil [simp]: "heap_init lt [] = []"
  by (simp add: heap_init_def)

end
