(* ===== verification/TxQueue.thy ===== *)
theory TxQueue
  imports TxTypes GoHeap
begin

text \<open>
  The queues of \<open>txpool/queue.go\<close>: \<open>accountQueue\<close> (a heap ordered by ascending nonce) and
  \<open>pricedQueue\<close> (a heap ordered by descending gas price). A queue is the slice of its heap. The
  read-write lock around an \<open>accountQueue\<close> is not represented: each operation below runs with the
  lock held, as its comment in the source requires, so operations on one queue do not interleave.
\<close>

section \<open>Account queues: ascending nonce\<close>

type_synonym accountQueue = "transaction list"

definition minNonce_Less :: "transaction \<Rightarrow> transaction \<Rightarrow> bool" where
  "minNonce_Less a b \<longleftrightarrow> txNonce a < txNonce b"

definition newAccountQueue :: accountQueue where
  "newAccountQueue = heap_init minNonce_Less []"

definition aq_length :: "accountQueue \<Rightarrow> u64" where
  "aq_length q = word_of_nat (length q)"

definition aq_peek :: "accountQueue \<Rightarrow> transaction option" where
  "aq_peek q = (if length q = 0 then None else Some (q ! 0))"

definition aq_push :: "accountQueue \<Rightarrow> transaction \<Rightarrow> accountQueue" where
  "aq_push q tx = heap_push minNonce_Less q tx"

definition aq_pop :: "accountQueue \<Rightarrow> (transaction \<times> accountQueue) option" where
  "aq_pop q = (if length q = 0 then None else heap_pop minNonce_Less q)"

definition aq_clear :: "accountQueue \<Rightarrow> transaction list \<times> accountQueue" where
  "aq_clear q = (q, [])"

lemma aq_pop_shorter: "aq_pop q = Some (x, q') \<Longrightarrow> length q' < length q"
  by (auto simp: aq_pop_def dest!: heap_pop_mset split: if_splits)
     (metis lessI size_add_mset size_mset)

text \<open>The loop of \<open>prune\<close>: the removed transactions, in order, and the queue left.\<close>

function aq_prune :: "u64 \<Rightarrow> accountQueue \<Rightarrow> transaction list \<times> accountQueue" where
  "aq_prune nonce q =
     (case aq_peek q of
        None \<Rightarrow> ([], q)
      | Some tx \<Rightarrow>
          if txNonce tx \<ge> nonce then ([], q)
          else case aq_pop q of
                 None \<Rightarrow> ([], q)
               | Some (tx, q') \<Rightarrow>
                   let (pruned, rest) = aq_prune nonce q' in (tx # pruned, rest))"
  by pat_completeness auto
termination
  by (relation "measure (\<lambda>(nonce, q). length q)") (auto dest: aq_pop_shorter)

declare aq_prune.simps [simp del]

section \<open>Priced queue: descending gas price\<close>

type_synonym pricedQueue = "transaction list"

definition maxPrice_Less :: "transaction \<Rightarrow> transaction \<Rightarrow> bool" where
  "maxPrice_Less a b \<longleftrightarrow> big_Uint64 (txGasPrice a) > big_Uint64 (txGasPrice b)"

definition newPricedQueue :: pricedQueue where
  "newPricedQueue = heap_init maxPrice_Less []"

definition pq_clear :: "pricedQueue \<Rightarrow> pricedQueue" where
  "pq_clear q = []"

definition pq_push :: "pricedQueue \<Rightarrow> transaction \<Rightarrow> pricedQueue" where
  "pq_push q tx = heap_push maxPrice_Less q tx"

definition pq_pop :: "pricedQueue \<Rightarrow> (transaction \<times> pricedQueue) option" where
  "pq_pop q = (if length q = 0 then None else heap_pop maxPrice_Less q)"

definition pq_length :: "pricedQueue \<Rightarrow> u64" where
  "pq_length q = word_of_nat (length q)"

section \<open>Both orders are strict weak orders\<close>

interpretation nonceHeap: heap_order minNonce_Less
  by unfold_locales (auto simp: minNonce_Less_def)

interpretation priceHeap: heap_order maxPrice_Less
  by unfold_locales (auto simp: maxPrice_Less_def)

abbreviation aq_inv :: "accountQueue \<Rightarrow> bool" where
  "aq_inv q \<equiv> is_heap minNonce_Less q"

abbreviation pq_inv :: "pricedQueue \<Rightarrow> bool" where
  "pq_inv q \<equiv> is_heap maxPrice_Less q"

lemma aq_pop_heap_pop: "aq_pop q = heap_pop minNonce_Less q"
  by (simp add: aq_pop_def heap_pop_def)

lemma pq_pop_heap_pop: "pq_pop q = heap_pop maxPrice_Less q"
  by (simp add: pq_pop_def heap_pop_def)

text \<open>The account queue fulfils the priority-queue contract for ascending nonces.\<close>

interpretation aq: prio_queue minNonce_Less aq_push aq_pop mset "is_heap minNonce_Less"
  unfolding aq_pop_heap_pop aq_push_def [abs_def]
  using nonceHeap.pq.prio_queue_axioms by simp

interpretation pq: prio_queue maxPrice_Less pq_push pq_pop mset "is_heap maxPrice_Less"
  unfolding pq_pop_heap_pop pq_push_def [abs_def]
  using priceHeap.pq.prio_queue_axioms by simp

lemma newAccountQueue_Nil [simp]: "newAccountQueue = []"
  by (simp add: newAccountQueue_def)

lemma newPricedQueue_Nil [simp]: "newPricedQueue = []"
  by (simp add: newPricedQueue_def)

lemma aq_peek_pop: "aq_pop q = Some (x, q') \<Longrightarrow> aq_peek q = Some x"
  using heap_pop_head [of minNonce_Less q x q']
  by (auto simp: aq_pop_heap_pop aq_peek_def hd_conv_nth)

lemma aq_peek_None [simp]: "aq_peek q = None \<longleftrightarrow> q = []"
  by (simp add: aq_peek_def)

lemma aq_pop_None [simp]: "aq_pop q = None \<longleftrightarrow> q = []"
  by (simp add: aq_pop_heap_pop)

lemma aq_peek_in: "aq_peek q = Some x \<Longrightarrow> x \<in> set q"
  by (auto simp: aq_peek_def split: if_splits)

lemma aq_peek_least:
  assumes "aq_inv q" "aq_peek q = Some x" "y \<in> set q"
  shows "txNonce x \<le> txNonce y"
  using nonceHeap.heap_head_least [OF assms(1,3)] assms(2)
  by (auto simp: aq_peek_def minNonce_Less_def hd_conv_nth split: if_splits)

section \<open>Pruning\<close>

lemma aq_prune_Nil [simp]: "aq_prune nonce [] = ([], [])"
  by (subst aq_prune.simps) (simp add: aq_peek_def)

lemma aq_prune_correct:
  assumes "aq_inv q" "aq_prune nonce q = (pruned, rest)"
  shows "aq_inv rest \<and> mset q = mset pruned + mset rest \<and>
    (\<forall>t\<in>set pruned. txNonce t < nonce) \<and> (\<forall>t\<in>set rest. nonce \<le> txNonce t) \<and>
    sorted (map txNonce pruned)"
  using assms
proof (induction nonce q arbitrary: pruned rest rule: aq_prune.induct)
  case (1 nonce q)
  {
    assume stop: "aq_prune nonce q = ([], q)"
      and "\<And>tx. aq_peek q = Some tx \<Longrightarrow> nonce \<le> txNonce tx"
    then have "\<forall>t\<in>set q. nonce \<le> txNonce t"
      using aq_peek_least [OF "1.prems"(1)] aq_peek_None [of q]
      by (metis empty_iff empty_set not_None_eq order_trans)
    with stop "1.prems" have ?case by simp
  }
  note stop = this
  show ?case
  proof (cases "aq_peek q")
    case None
    then show ?thesis by (intro stop) (simp_all add: aq_prune.simps [of nonce q])
  next
    case (Some tx)
    show ?thesis
    proof (cases "nonce \<le> txNonce tx")
      case True
      with Some show ?thesis by (intro stop) (simp_all add: aq_prune.simps [of nonce q])
    next
      case False
      from Some obtain x q' where pop: "aq_pop q = Some (x, q')"
        by (metis aq_pop_None aq_peek_None not_None_eq surj_pair option.distinct(1))
      obtain p' r' where rec: "aq_prune nonce q' = (p', r')" by (metis surj_pair)
      have x: "x = tx" using aq_peek_pop [OF pop] Some by simp
      have res: "pruned = x # p'" "rest = r'"
        using "1.prems"(2) Some False pop rec by (simp_all add: aq_prune.simps [of nonce q])
      have inv': "aq_inv q'" using aq.invar_pop [OF "1.prems"(1) pop] .
      have m: "mset q = add_mset x (mset q')" using aq.elems_pop [OF pop] .
      note IH = "1.IH" [OF Some False pop refl inv' rec]
      have "\<forall>y\<in>set p'. txNonce x \<le> txNonce y"
      proof
        fix y
        assume "y \<in> set p'"
        then have "y \<in># mset q'" using IH by simp
        then have "\<not> minNonce_Less y x" using aq.pop_first [OF "1.prems"(1) pop] by blast
        then show "txNonce x \<le> txNonce y" by (simp add: minNonce_Less_def)
      qed
      with IH m res x False show ?thesis by auto
    qed
  qed
qed

end
