(* ===== verification/TxAccount.thy ===== *)
theory TxAccount
  imports TxQueue
begin

text \<open>
  The per-account state of \<open>txpool/account.go\<close> (two nonce-ordered queues and the next expected
  nonce), the capacity gauge of \<open>txpool/slot_gauge.go\<close> and the lookup map of
  \<open>txpool/lookup_map.go\<close>. \<open>promote\<close> is the operation that moves a run of consecutive nonces
  from the enqueued to the promoted queue. The \<open>sync.Once\<close> of an account is not represented: an
  account exists only initialised.
\<close>

datatype pool_error =
    ErrIntrinsicGas | ErrBlockLimitExceeded | ErrNegativeValue | ErrNonEncryptedTx
  | ErrInvalidSender | ErrTxPoolOverflow | ErrUnderpriced | ErrNonceTooLow
  | ErrInsufficientFunds | ErrInvalidAccountState | ErrAlreadyKnown | ErrOversizedData
  | ErrInvalidTransaction | ErrGasOverflow

section \<open>Accounts\<close>

record account =
  enqueued :: accountQueue
  promoted :: accountQueue
  nextNonce :: u64

definition getNonce :: "account \<Rightarrow> u64" where
  "getNonce a = nextNonce a"

definition setNonce :: "u64 \<Rightarrow> account \<Rightarrow> account" where
  "setNonce nonce a = a\<lparr>nextNonce := nonce\<rparr>"

definition account_enqueue :: "account \<Rightarrow> transaction \<Rightarrow> pool_error + account" where
  "account_enqueue a tx =
     (if txNonce tx < getNonce a then Inl ErrNonceTooLow
      else Inr (a\<lparr>enqueued := aq_push (enqueued a) tx\<rparr>))"

text \<open>
  The loop of \<open>promote\<close>. Its state: both queues, the nonce that is expected next, the number of
  promoted transactions and their hashes.
\<close>

function promote_loop ::
  "accountQueue \<Rightarrow> accountQueue \<Rightarrow> u64 \<Rightarrow> u64 \<Rightarrow> hash list
   \<Rightarrow> accountQueue \<times> accountQueue \<times> u64 \<times> u64 \<times> hash list" where
  "promote_loop enq prom nonce num hashes =
     (case aq_peek enq of
        None \<Rightarrow> (enq, prom, nonce, num, hashes)
      | Some tx \<Rightarrow>
          if txNonce tx \<noteq> nonce then (enq, prom, nonce, num, hashes)
          else case aq_pop enq of
                 None \<Rightarrow> (enq, prom, nonce, num, hashes)
               | Some (tx, enq') \<Rightarrow>
                   promote_loop enq' (aq_push prom tx) (nonce + 1) (num + 1) (hashes @ [txHash tx]))"
  by pat_completeness auto
termination
  by (relation "measure (\<lambda>(enq, _). length enq)") (auto dest: aq_pop_shorter)

declare promote_loop.simps [simp del]

definition account_promote :: "account \<Rightarrow> (u64 \<times> hash list) \<times> account" where
  "account_promote a =
     (let currentNonce = getNonce a
      in case aq_peek (enqueued a) of
           None \<Rightarrow> ((0, []), a)
         | Some first \<Rightarrow>
             if txNonce first > currentNonce then ((0, []), a)
             else let (enq, prom, nonce, num, hashes) =
                        promote_loop (enqueued a) (promoted a) (txNonce first) 0 [];
                      a' = a\<lparr>enqueued := enq, promoted := prom\<rparr>
                  in ((num, hashes), if nonce > currentNonce then setNonce nonce a' else a'))"

section \<open>The gauge\<close>

record slotGauge =
  height :: u64
  max :: u64

definition txSlotSize :: u64 where "txSlotSize = 32768"
definition txMaxSize :: u64 where "txMaxSize = 131072"

definition gauge_read :: "slotGauge \<Rightarrow> u64" where
  "gauge_read g = height g"

definition gauge_increase :: "u64 \<Rightarrow> slotGauge \<Rightarrow> slotGauge" where
  "gauge_increase slots g = g\<lparr>height := height g + slots\<rparr>"

text \<open>\<open>atomic.AddUint64 (&g.height, ^(slots - 1))\<close>.\<close>

definition gauge_decrease :: "u64 \<Rightarrow> slotGauge \<Rightarrow> slotGauge" where
  "gauge_decrease slots g = g\<lparr>height := height g + not (slots - 1)\<rparr>"

definition slotsRequired :: "(transaction \<Rightarrow> bytes) \<Rightarrow> transaction list \<Rightarrow> u64" where
  "slotsRequired rlp txs = foldl (\<lambda>slots tx. slots + (tx_Size rlp tx + txSlotSize - 1) div txSlotSize) 0 txs"

section \<open>The lookup map\<close>

type_synonym lookupMap = "hash \<rightharpoonup> transaction"

definition lookup_add :: "transaction list \<Rightarrow> lookupMap \<Rightarrow> lookupMap" where
  "lookup_add txs m = foldl (\<lambda>m tx. m(txHash tx \<mapsto> tx)) m txs"

definition lookup_remove :: "transaction list \<Rightarrow> lookupMap \<Rightarrow> lookupMap" where
  "lookup_remove txs m = foldl (\<lambda>m tx. m(txHash tx := None)) m txs"

definition lookup_get :: "hash \<Rightarrow> lookupMap \<Rightarrow> transaction option" where
  "lookup_get h m = m h"

section \<open>Facts on the gauge and the lookup map\<close>

lemma gauge_decrease_sub: "height (gauge_decrease slots g) = height g - slots"
  by (simp add: gauge_decrease_def not_eq_complement)

lemma gauge_increase_add [simp]: "height (gauge_increase slots g) = height g + slots"
  by (simp add: gauge_increase_def)

lemma gauge_max [simp]:
  "max (gauge_increase slots g) = max g" "max (gauge_decrease slots g) = max g"
  by (simp_all add: gauge_increase_def gauge_decrease_def)

abbreviation tx_slots :: "(transaction \<Rightarrow> bytes) \<Rightarrow> transaction \<Rightarrow> u64" where
  "tx_slots rlp tx \<equiv> (tx_Size rlp tx + txSlotSize - 1) div txSlotSize"

lemma slotsRequired_sum: "slotsRequired rlp txs = sum_list (map (tx_slots rlp) txs)"
proof -
  have "foldl (\<lambda>slots tx. slots + tx_slots rlp tx) a txs = a + sum_list (map (tx_slots rlp) txs)" for a
    by (induction txs arbitrary: a) (simp_all add: add.assoc)
  from this [of 0] show ?thesis by (simp add: slotsRequired_def)
qed

lemma slotsRequired_mset: "mset xs = mset ys \<Longrightarrow> slotsRequired rlp xs = slotsRequired rlp ys"
  unfolding slotsRequired_sum by (rule sum_list_mset)

lemma slotsRequired_append: "slotsRequired rlp (xs @ ys) = slotsRequired rlp xs + slotsRequired rlp ys"
  by (simp add: slotsRequired_sum)

lemma slotsRequired_simps [simp]:
  "slotsRequired rlp [] = 0"
  "slotsRequired rlp (x # xs) = tx_slots rlp x + slotsRequired rlp xs"
  by (simp_all add: slotsRequired_sum)

lemma slotsRequired_mset_split:
  assumes "mset q = mset xs + mset ys"
  shows "slotsRequired rlp q = slotsRequired rlp xs + slotsRequired rlp ys"
  using slotsRequired_mset [of q "xs @ ys" rlp] assms by (simp add: slotsRequired_append)

lemma lookup_remove_apply:
  "lookup_remove txs m h = (if h \<in> txHash ` set txs then None else m h)"
  unfolding lookup_remove_def by (induction txs arbitrary: m) auto

section \<open>Promotion\<close>

definition nonce_run :: "u64 \<Rightarrow> nat \<Rightarrow> u64 list" where
  "nonce_run n k = map (\<lambda>i. n + of_nat i) [0..<k]"

lemma nonce_run_0 [simp]: "nonce_run n 0 = []"
  by (simp add: nonce_run_def)

lemma nonce_run_Suc: "nonce_run n (Suc k) = n # nonce_run (n + 1) k"
proof -
  have "map (\<lambda>i. n + of_nat i) [0..<Suc k] = n # map (\<lambda>i. n + of_nat (Suc i)) [0..<k]"
    by (subst upt_conv_Cons) (simp_all add: map_Suc_upt [symmetric] o_def del: upt_Suc)
  then show ?thesis by (simp add: nonce_run_def add.assoc add.commute del: upt_Suc)
qed

lemma aq_peek_pop_ex: "aq_peek q = Some tx \<Longrightarrow> \<exists>x q'. aq_pop q = Some (x, q')"
  using aq_peek_None [of q] aq_pop_None [of q] by (cases "aq_pop q") auto

text \<open>
  What the loop moves: a run of consecutive nonces, in order, from one queue to the other; it stops
  at the first gap.
\<close>

definition promoted_run :: "accountQueue \<Rightarrow> accountQueue \<Rightarrow> u64 \<Rightarrow> transaction list
    \<Rightarrow> accountQueue \<Rightarrow> accountQueue \<Rightarrow> u64 \<Rightarrow> bool" where
  "promoted_run enq prom nonce moved enq' prom' nonce' \<longleftrightarrow>
     mset enq = mset moved + mset enq' \<and> mset prom' = mset prom + mset moved \<and>
     map txNonce moved = nonce_run nonce (length moved) \<and>
     nonce' = nonce + of_nat (length moved) \<and>
     (moved = [] \<longleftrightarrow> map_option txNonce (aq_peek enq) \<noteq> Some nonce) \<and>
     (moved \<noteq> [] \<longrightarrow> aq_peek enq = Some (hd moved)) \<and>
     (\<forall>tx. aq_peek enq' = Some tx \<longrightarrow> txNonce tx \<noteq> nonce')"

lemma promote_loop_run:
  assumes "promote_loop enq prom nonce num hashes = (enq', prom', nonce', num', hashes')"
  shows "\<exists>moved. promoted_run enq prom nonce moved enq' prom' nonce' \<and>
           num' = num + of_nat (length moved) \<and> hashes' = hashes @ map txHash moved"
  using assms
proof (induction enq prom nonce num hashes arbitrary: enq' prom' nonce' num' hashes'
    rule: promote_loop.induct)
  case (1 enq prom nonce num hashes)
  show ?case
  proof (cases "\<exists>tx. aq_peek enq = Some tx \<and> txNonce tx = nonce")
    case False
    then have "promote_loop enq prom nonce num hashes = (enq, prom, nonce, num, hashes)"
      by (auto simp: promote_loop.simps [of enq prom nonce num hashes] split: option.split)
    with "1.prems" False show ?thesis
      by (intro exI [of _ "[]"]) (auto simp: promoted_run_def)
  next
    case True
    then obtain tx where tx: "aq_peek enq = Some tx" "txNonce tx = nonce" by blast
    then obtain x q where pop: "aq_pop enq = Some (x, q)"
      using aq_peek_pop_ex by blast
    have x: "x = tx" using aq_peek_pop [OF pop] tx by simp
    have "promote_loop q (aq_push prom x) (nonce + 1) (num + 1) (hashes @ [txHash x])
        = (enq', prom', nonce', num', hashes')"
      using "1.prems" tx pop by (simp add: promote_loop.simps [of enq prom nonce num hashes])
    from "1.IH" [OF tx(1) _ pop refl this] tx(2) obtain moved where
      run: "promoted_run q (aq_push prom x) (nonce + 1) moved enq' prom' nonce'"
      and "num' = num + 1 + of_nat (length moved)"
      and "hashes' = (hashes @ [txHash x]) @ map txHash moved" by auto
    moreover have "mset enq = add_mset x (mset q)" using aq.elems_pop [OF pop] .
    moreover have "mset (aq_push prom x) = add_mset x (mset prom)" by (rule aq.elems_push)
    ultimately show ?thesis
      using tx x
      by (intro exI [of _ "x # moved"]) (auto simp: promoted_run_def nonce_run_Suc add.assoc)
  qed
qed

lemma promote_loop_inv:
  assumes "aq_inv enq" "aq_inv prom"
    and "promote_loop enq prom nonce num hashes = (enq', prom', nonce', num', hashes')"
  shows "aq_inv enq' \<and> aq_inv prom'"
  using assms
proof (induction enq prom nonce num hashes arbitrary: enq' prom' nonce' num' hashes'
    rule: promote_loop.induct)
  case (1 enq prom nonce num hashes)
  show ?case
  proof (cases "\<exists>tx. aq_peek enq = Some tx \<and> txNonce tx = nonce")
    case False
    then have "promote_loop enq prom nonce num hashes = (enq, prom, nonce, num, hashes)"
      by (auto simp: promote_loop.simps [of enq prom nonce num hashes] split: option.split)
    with 1 show ?thesis by simp
  next
    case True
    then obtain tx where tx: "aq_peek enq = Some tx" "txNonce tx = nonce" by blast
    then obtain x q where pop: "aq_pop enq = Some (x, q)"
      using aq_peek_pop_ex by blast
    have "promote_loop q (aq_push prom x) (nonce + 1) (num + 1) (hashes @ [txHash x])
        = (enq', prom', nonce', num', hashes')"
      using "1.prems" tx pop by (simp add: promote_loop.simps [of enq prom nonce num hashes])
    from "1.IH" [OF tx(1) _ pop refl _ _ this] tx(2) "1.prems" pop show ?thesis
      by (simp add: aq.invar_pop aq.invar_push)
  qed
qed

section \<open>The account invariant\<close>

text \<open>
  Both queues are heaps and every promoted nonce lies below \<open>nextNonce\<close>. The nonce \<open>2\<^sup>6\<^sup>4 - 1\<close>
  has no successor in a \<open>uint64\<close>; the invariant is about accounts that hold no such transaction.
\<close>

abbreviation maxNonce :: u64 where
  "maxNonce \<equiv> - 1"

definition account_txs :: "account \<Rightarrow> transaction list" where
  "account_txs a = promoted a @ enqueued a"

definition account_inv :: "account \<Rightarrow> bool" where
  "account_inv a \<longleftrightarrow>
     aq_inv (enqueued a) \<and> aq_inv (promoted a) \<and>
     (\<forall>t\<in>set (account_txs a). txNonce t \<noteq> maxNonce) \<and>
     (\<forall>t\<in>set (promoted a). txNonce t < nextNonce a)"

lemma nonce_run_no_wrap:
  assumes "\<forall>n\<in>set (nonce_run s k). n \<noteq> maxNonce" "i \<le> k"
  shows "unat (s + of_nat i) = unat s + i"
  using assms(2)
proof (induction i)
  case 0
  then show ?case by simp
next
  case (Suc i)
  then have "s + of_nat i \<noteq> maxNonce"
    using assms(1) by (auto simp: nonce_run_def)
  then have "unat (s + of_nat i + 1) = unat (s + of_nat i) + 1"
    by (rule u64_unat_Suc)
  with Suc show ?case by (simp add: algebra_simps)
qed

lemma nonce_run_bound:
  assumes "\<forall>n\<in>set (nonce_run s k). n \<noteq> maxNonce" "n \<in> set (nonce_run s k)"
  shows "n < s + of_nat k"
proof -
  from assms(2) obtain i where "i < k" "n = s + of_nat i" by (auto simp: nonce_run_def)
  then show ?thesis
    using nonce_run_no_wrap [OF assms(1), of i] nonce_run_no_wrap [OF assms(1), of k]
    by (simp add: word_less_nat_alt)
qed

lemma account_enqueue_inv [inv_intros]:
  assumes "account_inv a" "txNonce tx \<noteq> maxNonce" "account_enqueue a tx = Inr a'"
  shows "account_inv a'"
  using assms set_eq_of_mset [OF trans [OF aq.elems_push mset.simps(2) [symmetric]]]
  by (auto simp: account_inv_def account_enqueue_def account_txs_def aq.invar_push split: if_splits)

text \<open>The whole contract of \<open>promote\<close>.\<close>

lemma account_promote_spec:
  assumes "account_promote a = ((num, hashes), a')"
  obtains moved where
    "mset (enqueued a) = mset moved + mset (enqueued a')"
    "mset (promoted a') = mset (promoted a) + mset moved"
    "num = of_nat (length moved)" "hashes = map txHash moved"
    "moved \<noteq> [] \<longrightarrow> map txNonce moved = nonce_run (txNonce (hd moved)) (length moved)"
    "moved \<noteq> [] \<longrightarrow> aq_peek (enqueued a) = Some (hd moved) \<and> txNonce (hd moved) \<le> nextNonce a"
    "moved = [] \<longrightarrow> a' = a \<and> (\<forall>first. aq_peek (enqueued a) = Some first \<longrightarrow> nextNonce a < txNonce first)"
    "nextNonce a' = (if moved = [] then nextNonce a
        else Orderings.max (nextNonce a) (txNonce (hd moved) + of_nat (length moved)))"
proof (cases "\<exists>first. aq_peek (enqueued a) = Some first \<and> txNonce first \<le> nextNonce a")
  case False
  then have "a' = a" "num = 0" "hashes = []"
    using assms by (auto simp: account_promote_def getNonce_def Let_def not_le split: option.splits)
  then show ?thesis using False by (intro that [of "[]"]) (simp_all add: not_le)
next
  case True
  then obtain first where f: "aq_peek (enqueued a) = Some first" "txNonce first \<le> nextNonce a"
    by blast
  obtain enq prom nonce num' hs where
    loop: "promote_loop (enqueued a) (promoted a) (txNonce first) 0 [] = (enq, prom, nonce, num', hs)"
    by (metis surj_pair)
  obtain moved where
    run: "promoted_run (enqueued a) (promoted a) (txNonce first) moved enq prom nonce"
    and nh: "num' = of_nat (length moved)" "hs = map txHash moved"
    using promote_loop_run [OF loop] by auto
  have a': "num = num'" "hashes = hs"
    "a' = (if nonce > nextNonce a then setNonce nonce (a\<lparr>enqueued := enq, promoted := prom\<rparr>)
           else a\<lparr>enqueued := enq, promoted := prom\<rparr>)"
    using assms f loop by (simp_all add: account_promote_def getNonce_def Let_def f(2) [THEN leD])
  have "moved \<noteq> []" "hd moved = first"
    using run f by (auto simp: promoted_run_def)
  then show ?thesis
    using run f nh a' by (intro that [of moved])
      (auto simp: promoted_run_def setNonce_def max_def not_less split: if_splits)
qed

lemma account_promote_inv [inv_intros]:
  assumes inv: "account_inv a" and p: "account_promote a = ((num, hashes), a')"
  shows "account_inv a'"
proof -
  obtain moved where
    enq: "mset (enqueued a) = mset moved + mset (enqueued a')"
    and prom: "mset (promoted a') = mset (promoted a) + mset moved"
    and "num = of_nat (length moved)" "hashes = map txHash moved"
    and run: "moved \<noteq> [] \<longrightarrow> map txNonce moved = nonce_run (txNonce (hd moved)) (length moved)"
    and "moved \<noteq> [] \<longrightarrow> aq_peek (enqueued a) = Some (hd moved) \<and> txNonce (hd moved) \<le> nextNonce a"
    and same: "moved = [] \<longrightarrow> a' = a \<and> (\<forall>first. aq_peek (enqueued a) = Some first \<longrightarrow> nextNonce a < txNonce first)"
    and nn: "nextNonce a' = (if moved = [] then nextNonce a
        else Orderings.max (nextNonce a) (txNonce (hd moved) + of_nat (length moved)))"
    by (rule account_promote_spec [OF p])
  have sets: "set (enqueued a) = set moved \<union> set (enqueued a')"
    "set (promoted a') = set (promoted a) \<union> set moved"
    using arg_cong [OF enq, of set_mset] arg_cong [OF prom, of set_mset] by simp_all
  have heaps: "aq_inv (enqueued a') \<and> aq_inv (promoted a')"
    using p inv by (auto simp: account_promote_def account_inv_def setNonce_def Let_def
        dest: promote_loop_inv split: option.splits if_splits prod.splits)
  have "txNonce t < nextNonce a'" if "t \<in> set moved" for t
  proof -
    from that have ne: "moved \<noteq> []" by auto
    have "\<forall>n\<in>set (map txNonce moved). n \<noteq> maxNonce"
      using inv sets by (auto simp: account_inv_def account_txs_def)
    moreover have "txNonce t \<in> set (map txNonce moved)" using that by simp
    ultimately have "txNonce t < txNonce (hd moved) + of_nat (length moved)"
      unfolding run [rule_format, OF ne] by (rule nonce_run_bound)
    then show ?thesis using ne by (simp add: nn less_max_iff_disj)
  qed
  moreover have "txNonce t < nextNonce a'" if "t \<in> set (promoted a)" for t
    using that inv by (auto simp: nn account_inv_def less_max_iff_disj)
  ultimately show ?thesis
    using heaps inv sets by (auto simp: account_inv_def account_txs_def)
qed

end
