(* ===== verification/HexText.thy ===== *)
theory HexText
  imports TxTypes "HOL-Library.Char_ord"
begin

text \<open>
  Hexadecimal text: \<open>common/hex/hex.go\<close> and the textual forms of hashes and addresses in
  \<open>types/types.go\<close>, with the EIP-55 checksum. Go's \<open>encoding/hex\<close> is modelled with its behaviour on
  malformed input: the bytes decoded so far and an error.
\<close>

section \<open>Decoding\<close>

definition hex_value :: "char \<Rightarrow> nat option" where
  "hex_value c =
     (let n = (of_char c :: nat)
      in if 48 \<le> n \<and> n \<le> 57 then Some (n - 48)
         else if 97 \<le> n \<and> n \<le> 102 then Some (n - 87)
         else if 65 \<le> n \<and> n \<le> 70 then Some (n - 55)
         else None)"

text \<open>The decoded bytes and whether the whole input was well formed.\<close>

fun hex_Decode :: "string \<Rightarrow> bytes \<times> bool" where
  "hex_Decode (p # q # rest) =
     (case (hex_value p, hex_value q) of
        (Some a, Some b) \<Rightarrow> let (bs, ok) = hex_Decode rest in (word_of_nat (16 * a + b) # bs, ok)
      | _ \<Rightarrow> ([], False))"
| "hex_Decode [] = ([], True)"
| "hex_Decode [p] = ([], False)"

definition hex_DecodeString :: "string \<Rightarrow> bytes \<times> bool" where
  "hex_DecodeString str = hex_Decode str"

definition TrimPrefix :: "string \<Rightarrow> string \<Rightarrow> string" where
  "TrimPrefix s pre = (if take (length pre) s = pre then drop (length pre) s else s)"

definition hex_DecodeHex :: "string \<Rightarrow> bytes \<times> bool" where
  "hex_DecodeHex str = hex_DecodeString (TrimPrefix str ''0x'')"

text \<open>\<open>None\<close> is the panic.\<close>

definition MustDecodeHex :: "string \<Rightarrow> bytes option" where
  "MustDecodeHex str = (let (buf, ok) = hex_DecodeHex str in if ok then Some buf else None)"

definition BadNibble :: u64 where
  "BadNibble = not 0"

definition DecodeNibble :: "u8 \<Rightarrow> u64" where
  "DecodeNibble i =
     (if 48 \<le> i \<and> i \<le> 57 then ucast (i - 48)
      else if 65 \<le> i \<and> i \<le> 70 then ucast (i - 65 + 10)
      else if 97 \<le> i \<and> i \<le> 102 then ucast (i - 97 + 10)
      else BadNibble)"

section \<open>Encoding\<close>

definition hex_EncodeToHex :: "bytes \<Rightarrow> string" where
  "hex_EncodeToHex str = ''0x'' @ hex_EncodeToString str"

text \<open>The digits of a number in base 16, most significant first, without leading zeros.\<close>

function hex_digits :: "nat \<Rightarrow> string" where
  "hex_digits n = (if n < 16 then [hex_digit n] else hex_digits (n div 16) @ [hex_digit (n mod 16)])"
  by pat_completeness auto
termination
  by (relation "measure id") auto

declare hex_digits.simps [simp del]

definition EncodeUint64 :: "u64 \<Rightarrow> string" where
  "EncodeUint64 i = ''0x'' @ hex_digits (unat i)"

text \<open>\<open>fmt.Sprintf ("%#x", x)\<close> prints a sign before the prefix.\<close>

definition EncodeBig :: "int \<Rightarrow> string" where
  "EncodeBig x =
     (if x = 0 then ''0x0''
      else (if x < 0 then ''-'' else '''') @ ''0x'' @ hex_digits (nat \<bar>x\<bar>))"

section \<open>Hashes and addresses as text\<close>

definition Hash_String :: "hash \<Rightarrow> string" where
  "Hash_String h = hex_EncodeToHex (Hash_Bytes h)"

definition to_upper :: "char \<Rightarrow> char" where
  "to_upper c = (let n = (of_char c :: nat) in if 97 \<le> n \<and> n \<le> 122 then char_of (n - 32) else c)"

text \<open>One character of the checksummed form, beside the character of the hashed address.\<close>

definition checksum_char :: "char \<Rightarrow> char \<Rightarrow> char" where
  "checksum_char ch hashed =
     (if CHR ''0'' \<le> ch \<and> ch \<le> CHR ''9'' \<or> CHR ''0'' \<le> hashed \<and> hashed \<le> CHR ''7'' then ch
      else to_upper ch)"

definition checksumEncode :: "(bytes \<Rightarrow> hash) \<Rightarrow> address \<Rightarrow> string" where
  "checksumEncode keccak a =
     (let addrBytes = Address_Bytes a;
          lowercaseHex = drop 2 (hex_EncodeToHex addrBytes);
          hashedAddress = drop 2 (hex_EncodeToHex (Hash_Bytes (keccak (map of_char lowercaseHex))))
      in ''0x'' @ map2 checksum_char lowercaseHex hashedAddress)"

definition Address_String :: "(bytes \<Rightarrow> hash) \<Rightarrow> address \<Rightarrow> string" where
  "Address_String keccak a = checksumEncode keccak a"

definition stringToBytes :: "string \<Rightarrow> bytes" where
  "stringToBytes str =
     (let str = TrimPrefix str ''0x'';
          str = (if length str mod 2 = 1 then CHR ''0'' # str else str)
      in fst (hex_DecodeString str))"

definition StringToHash :: "string \<Rightarrow> hash" where
  "StringToHash str = BytesToHash (stringToBytes str)"

definition StringToAddress :: "string \<Rightarrow> address" where
  "StringToAddress str = BytesToAddress (stringToBytes str)"

definition Hash_UnmarshalText :: "string \<Rightarrow> hash" where
  "Hash_UnmarshalText inp = BytesToHash (stringToBytes inp)"

text \<open>\<open>None\<close> is the error \<open>incorrect length\<close>.\<close>

definition Address_UnmarshalText :: "string \<Rightarrow> address option" where
  "Address_UnmarshalText inp =
     (let buf = stringToBytes inp
      in if length buf \<noteq> AddressLength then None else Some (BytesToAddress buf))"

section \<open>Round trips\<close>

lemma hex_value_digit: "n < 16 \<Longrightarrow> hex_value (hex_digit n) = Some n"
  by (auto simp: hex_value_def hex_digit_def Let_def)

lemma to_upper_digit: "n < 16 \<Longrightarrow> hex_value (to_upper (hex_digit n)) = Some n"
  by (auto simp: hex_value_def hex_digit_def to_upper_def Let_def)

lemma checksum_char_value: "n < 16 \<Longrightarrow> hex_value (checksum_char (hex_digit n) c) = Some n"
  by (simp add: checksum_char_def hex_value_digit to_upper_digit)

text \<open>Decoding only looks at the values of the digits.\<close>

lemma hex_Decode_values:
  assumes "map hex_value s = concat (map (\<lambda>b. [Some (unat b div 16), Some (unat b mod 16)]) bs)"
  shows "hex_Decode s = (bs, True)"
  using assms
proof (induction bs arbitrary: s)
  case (Cons b bs)
  then obtain p q rest where s: "s = p # q # rest"
    and v: "hex_value p = Some (unat b div 16)" "hex_value q = Some (unat b mod 16)"
      "map hex_value rest = concat (map (\<lambda>b. [Some (unat b div 16), Some (unat b mod 16)]) bs)"
    by (cases s; cases "tl s") auto
  have "hex_Decode rest = (bs, True)" using Cons.IH v(3) by simp
  moreover have "word_of_nat (16 * (unat b div 16) + unat b mod 16) = b" by simp
  ultimately show ?case using v by (simp add: s)
qed simp

lemma unat_u8_digits: "unat (b :: u8) div 16 < 16" "unat (b :: u8) mod 16 < 16"
  using unsigned_less [of b, where ?'a = nat] by simp_all

lemma map_hex_value_encode:
  "map hex_value (hex_EncodeToString bs) = concat (map (\<lambda>b. [Some (unat b div 16), Some (unat b mod 16)]) bs)"
  by (induction bs) (simp_all add: hex_EncodeToString_def hex_value_digit unat_u8_digits)

lemma hex_Decode_encode: "hex_Decode (hex_EncodeToString bs) = (bs, True)"
  by (rule hex_Decode_values [OF map_hex_value_encode])

lemma length_hex_encode [simp]: "length (hex_EncodeToString bs) = 2 * length bs"
  by (induction bs) (simp_all add: hex_EncodeToString_def)

lemma set_hex_encode: "c \<in> set (hex_EncodeToString bs) \<Longrightarrow> \<exists>n<16. c = hex_digit n"
proof (induction bs)
  case (Cons b bs)
  then consider "c = hex_digit (unat b div 16)" | "c = hex_digit (unat b mod 16)"
    | "c \<in> set (hex_EncodeToString bs)"
    by (auto simp: hex_EncodeToString_def)
  then show ?case using unat_u8_digits [of b] Cons.IH by cases blast+
qed (simp add: hex_EncodeToString_def)

lemma stringToBytes_0x:
  "length s mod 2 = 0 \<Longrightarrow> stringToBytes (''0x'' @ s) = fst (hex_Decode s)"
  by (simp add: stringToBytes_def TrimPrefix_def hex_DecodeString_def Let_def)

lemma stringToBytes_encode: "stringToBytes (hex_EncodeToHex bs) = bs"
  by (simp add: hex_EncodeToHex_def stringToBytes_0x [simplified] hex_Decode_encode)

lemma map_checksum_value:
  assumes "\<forall>c\<in>set s. \<exists>n<16. c = hex_digit n" "length s \<le> length h"
  shows "map hex_value (map2 checksum_char s h) = map hex_value s"
  using assms
proof (induction s arbitrary: h)
  case (Cons c s)
  then obtain d h' where "h = d # h'" by (cases h) auto
  with Cons show ?case by (auto simp: checksum_char_value hex_value_digit)
qed simp

lemma stringToBytes_checksum: "stringToBytes (Address_String keccak a) = Address_Bytes a"
proof -
  let ?s = "hex_EncodeToString (Address_Bytes a)"
  let ?h = "hex_EncodeToString (Hash_Bytes (keccak (map of_char ?s)))"
  have len: "length ?s = 40" "length ?h = 64"
    by (simp_all add: Address_Bytes_def Hash_Bytes_def AddressLength_def HashLength_def)
  have e: "Address_String keccak a = ''0x'' @ map2 checksum_char ?s ?h"
    by (simp add: Address_String_def checksumEncode_def hex_EncodeToHex_def Let_def)
  have "map hex_value (map2 checksum_char ?s ?h) = map hex_value ?s"
    by (rule map_checksum_value) (use set_hex_encode len in auto)
  then have "hex_Decode (map2 checksum_char ?s ?h) = (Address_Bytes a, True)"
    by (intro hex_Decode_values) (simp add: map_hex_value_encode)
  moreover have "length (map2 checksum_char ?s ?h) = 40" using len by (simp del: length_hex_encode)
  ultimately show ?thesis unfolding e by (subst stringToBytes_0x) simp_all
qed

text \<open>C18. Hashes and addresses survive printing and parsing: for every hash function the checksummed
  text of an address parses back to it, both leniently (\<open>StringToAddress\<close>) and with the length check
  (\<open>UnmarshalText\<close>), and the text of a hash parses back to the hash.\<close>

theorem text_round_trip:
  "StringToHash (Hash_String h) = h \<and> StringToAddress (Address_String keccak a) = a \<and>
   Address_UnmarshalText (Address_String keccak a) = Some a"
proof -
  have "length (Address_Bytes a) = AddressLength" by (simp add: Address_Bytes_def)
  then show ?thesis
    by (simp add: StringToHash_def Hash_String_def stringToBytes_encode BytesToHash_Bytes
        StringToAddress_def Address_UnmarshalText_def stringToBytes_checksum BytesToAddress_Bytes Let_def)
qed

text \<open>The sign of a negative number is printed, before the prefix.\<close>

lemma EncodeBig_negative: "EncodeBig (- 31) = ''-0x1f''"
  by code_simp

end
