(* ===== verification/TxEvents.thy ===== *)
theory TxEvents
  imports HexText "HOL-Library.AList"
begin

text \<open>
  The event feed of the pool: \<open>txpool/event_queue.go\<close>, \<open>txpool/event_subscription.go\<close> and
  \<open>txpool/event_manager.go\<close>. A subscription is an unbounded queue of events, a notification
  channel with one slot and a worker goroutine that hands the events to the subscriber. The worker
  runs concurrently with the producers, so it is a step relation; \<open>close\<close> and \<open>pushEvent\<close> return
  \<open>None\<close> where Go panics (closing a closed channel, sending on a closed channel).
\<close>

section \<open>Subscriptions\<close>

datatype EventType = ADDED | ENQUEUED | PROMOTED | DROPPED | DEMOTED

record TxPoolEvent =
  evType :: EventType
  evTxHash :: string

text \<open>The event queue: \<open>push\<close> appends, \<open>pop\<close> takes the oldest event (\<open>None\<close> is \<open>nil\<close>).\<close>

type_synonym eventQueue = "TxPoolEvent list"

definition eq_push :: "TxPoolEvent \<Rightarrow> eventQueue \<Rightarrow> eventQueue" where
  "eq_push event es = es @ [event]"

fun eq_pop :: "eventQueue \<Rightarrow> TxPoolEvent option \<times> eventQueue" where
  "eq_pop [] = (None, [])"
| "eq_pop (event # es) = (Some event, es)"

text \<open>
  Where the worker of \<open>runLoop\<close> stands: in the outer \<open>select\<close>, about to pop, in the inner \<open>select\<close>
  with an event in hand, returned, or dead from a send on the closed output channel.
\<close>

datatype worker = Waiting | Draining | Sending TxPoolEvent | Returned | Panicked

text \<open>
  \<open>notifyCh\<close> says whether the one-slot channel holds a token. \<open>closed\<close> says that the three
  channels have been closed, which \<open>close\<close> does together. \<open>notifying\<close> counts the producers that
  have appended their event and not yet offered the token. \<open>outputCh\<close> records what the subscriber
  has received.
\<close>

record eventSubscription =
  eventTypes :: "EventType list"
  outputCh :: "TxPoolEvent list"
  closed :: bool
  notifyCh :: bool
  eventStore :: eventQueue
  notifying :: nat
  runLoop_pc :: worker

definition new_subscription :: "EventType list \<Rightarrow> eventSubscription" where
  "new_subscription types =
     \<lparr>eventTypes = types, outputCh = [], closed = False, notifyCh = False, eventStore = [],
      notifying = 0, runLoop_pc = Waiting\<rparr>"

fun type_listed :: "EventType list \<Rightarrow> EventType \<Rightarrow> bool" where
  "type_listed [] eventType = False"
| "type_listed (supportedType # rest) eventType =
     (if supportedType = eventType then True else type_listed rest eventType)"

definition eventSupported :: "eventSubscription \<Rightarrow> EventType \<Rightarrow> bool" where
  "eventSupported es eventType = type_listed (eventTypes es) eventType"

definition es_close :: "eventSubscription \<Rightarrow> eventSubscription option" where
  "es_close es = (if closed es then None else Some (es\<lparr>closed := True\<rparr>))"

text \<open>\<open>pushEvent\<close> in its two steps: append, then the non-blocking send of the token.\<close>

definition push_store :: "TxPoolEvent \<Rightarrow> eventSubscription \<Rightarrow> eventSubscription" where
  "push_store event es = es\<lparr>eventStore := eq_push event (eventStore es), notifying := notifying es + 1\<rparr>"

definition push_notify :: "eventSubscription \<Rightarrow> eventSubscription option" where
  "push_notify es =
     (if closed es then None else Some (es\<lparr>notifyCh := True, notifying := notifying es - 1\<rparr>))"

definition pushEvent :: "TxPoolEvent \<Rightarrow> eventSubscription \<Rightarrow> eventSubscription option" where
  "pushEvent event es =
     (if eventSupported es (evType event) then push_notify (push_store event es) else Some es)"

text \<open>
  The worker. A receive from a closed channel succeeds at once; a send on a closed channel panics,
  and both branches of the inner \<open>select\<close> are ready once the subscription is closed.
\<close>

inductive runLoop :: "eventSubscription \<Rightarrow> eventSubscription \<Rightarrow> bool" where
  stop: "runLoop_pc es = Waiting \<Longrightarrow> closed es \<Longrightarrow> runLoop es (es\<lparr>runLoop_pc := Returned\<rparr>)"
| notified: "runLoop_pc es = Waiting \<Longrightarrow> notifyCh es \<Longrightarrow>
    runLoop es (es\<lparr>runLoop_pc := Draining, notifyCh := False\<rparr>)"
| notify_closed: "runLoop_pc es = Waiting \<Longrightarrow> closed es \<Longrightarrow>
    runLoop es (es\<lparr>runLoop_pc := Draining\<rparr>)"
| drained: "runLoop_pc es = Draining \<Longrightarrow> eq_pop (eventStore es) = (None, q) \<Longrightarrow>
    runLoop es (es\<lparr>runLoop_pc := Waiting, eventStore := q\<rparr>)"
| popped: "runLoop_pc es = Draining \<Longrightarrow> eq_pop (eventStore es) = (Some event, q) \<Longrightarrow>
    runLoop es (es\<lparr>runLoop_pc := Sending event, eventStore := q\<rparr>)"
| send_done: "runLoop_pc es = Sending event \<Longrightarrow> closed es \<Longrightarrow>
    runLoop es (es\<lparr>runLoop_pc := Returned\<rparr>)"
| sent: "runLoop_pc es = Sending event \<Longrightarrow> \<not> closed es \<Longrightarrow>
    runLoop es (es\<lparr>runLoop_pc := Draining, outputCh := outputCh es @ [event]\<rparr>)"
| send_closed: "runLoop_pc es = Sending event \<Longrightarrow> closed es \<Longrightarrow>
    runLoop es (es\<lparr>runLoop_pc := Panicked\<rparr>)"

text \<open>
  A subscription with its worker and its producers. The producers hold the manager's read lock
  between the two steps of \<open>pushEvent\<close> and \<open>close\<close> holds the write lock, so \<open>close\<close> waits for them
  and nothing is pushed through the manager after it. The list is the log of pushed events.
\<close>

inductive sub_step :: "eventSubscription \<times> TxPoolEvent list \<Rightarrow> eventSubscription \<times> TxPoolEvent list \<Rightarrow> bool" where
  worker: "runLoop es es' \<Longrightarrow> sub_step (es, log) (es', log)"
| push: "\<not> closed es \<Longrightarrow> eventSupported es (evType event) \<Longrightarrow>
    sub_step (es, log) (push_store event es, log @ [event])"
| skip: "\<not> eventSupported es (evType event) \<Longrightarrow> sub_step (es, log) (es, log @ [event])"
| notify: "notifying es > 0 \<Longrightarrow> push_notify es = Some es' \<Longrightarrow> sub_step (es, log) (es', log)"
| close: "notifying es = 0 \<Longrightarrow> es_close es = Some es' \<Longrightarrow> sub_step (es, log) (es', log)"

inductive_cases runLoopE: "runLoop es es'"
inductive_cases sub_stepE: "sub_step (es, log) s'"

inductive sub_reachable :: "EventType list \<Rightarrow> eventSubscription \<Rightarrow> TxPoolEvent list \<Rightarrow> bool"
  for types where
  init: "sub_reachable types (new_subscription types) []"
| step: "sub_reachable types es log \<Longrightarrow> sub_step (es, log) (es', log') \<Longrightarrow> sub_reachable types es' log'"

section \<open>The event manager\<close>

text \<open>
  The subscriptions are a Go map; the association list fixes an iteration order. The identifier of a
  new subscription comes from a random UUID and is an argument.
\<close>

type_synonym subscriptionID = "32 word"

record eventManager =
  subscriptions :: "(subscriptionID \<times> eventSubscription) list"
  numSubscriptions :: int

definition newEventManager :: eventManager where
  "newEventManager = \<lparr>subscriptions = [], numSubscriptions = 0\<rparr>"

definition em_subscribe :: "subscriptionID \<Rightarrow> EventType list \<Rightarrow> eventManager \<Rightarrow> eventManager" where
  "em_subscribe uuid types em =
     em\<lparr>subscriptions := AList.update uuid (new_subscription types) (subscriptions em),
        numSubscriptions := numSubscriptions em + 1\<rparr>"

definition cancelSubscription :: "subscriptionID \<Rightarrow> eventManager \<Rightarrow> eventManager option" where
  "cancelSubscription sid em =
     (case map_of (subscriptions em) sid of
        None \<Rightarrow> Some em
      | Some subscription \<Rightarrow>
          (case es_close subscription of
             None \<Rightarrow> None
           | Some _ \<Rightarrow> Some (em\<lparr>subscriptions := AList.delete sid (subscriptions em),
                              numSubscriptions := numSubscriptions em - 1\<rparr>)))"

text \<open>A loop over the values of the map whose body may panic.\<close>

fun for_values :: "('v \<Rightarrow> 'v option) \<Rightarrow> ('k \<times> 'v) list \<Rightarrow> ('k \<times> 'v) list option" where
  "for_values f [] = Some []"
| "for_values f ((k, v) # rest) =
     (case f v of
        None \<Rightarrow> None
      | Some v' \<Rightarrow> (case for_values f rest of None \<Rightarrow> None | Some rest' \<Rightarrow> Some ((k, v') # rest')))"

definition em_Close :: "eventManager \<Rightarrow> eventManager option" where
  "em_Close em =
     (case for_values es_close (subscriptions em) of
        None \<Rightarrow> None
      | Some subs \<Rightarrow> Some (em\<lparr>subscriptions := subs, numSubscriptions := 0\<rparr>))"

fun signal_hashes :: "EventType \<Rightarrow> hash list \<Rightarrow> (subscriptionID \<times> eventSubscription) list
    \<Rightarrow> (subscriptionID \<times> eventSubscription) list option" where
  "signal_hashes eventType [] subs = Some subs"
| "signal_hashes eventType (h # txHashes) subs =
     (case for_values (pushEvent \<lparr>evType = eventType, evTxHash = Hash_String h\<rparr>) subs of
        None \<Rightarrow> None
      | Some subs' \<Rightarrow> signal_hashes eventType txHashes subs')"

definition signalEvent :: "EventType \<Rightarrow> hash list \<Rightarrow> eventManager \<Rightarrow> eventManager option" where
  "signalEvent eventType txHashes em =
     (if numSubscriptions em < 1 then Some em
      else case signal_hashes eventType txHashes (subscriptions em) of
             None \<Rightarrow> None
           | Some subs \<Rightarrow> Some (em\<lparr>subscriptions := subs\<rparr>))"

section \<open>Order and wake-up\<close>

lemma type_listed_set [simp]: "type_listed ts t \<longleftrightarrow> t \<in> set ts"
  by (induction ts) auto

definition wanted :: "EventType list \<Rightarrow> TxPoolEvent list \<Rightarrow> TxPoolEvent list" where
  "wanted types log = filter (\<lambda>e. evType e \<in> set types) log"

lemma wanted_snoc [simp]:
  "wanted types (log @ [e]) = wanted types log @ (if evType e \<in> set types then [e] else [])"
  by (simp add: wanted_def)

lemma wanted_Nil [simp]: "wanted types [] = []"
  by (simp add: wanted_def)

fun in_hand :: "worker \<Rightarrow> TxPoolEvent list" where
  "in_hand (Sending event) = [event]"
| "in_hand _ = []"

abbreviation running :: "worker \<Rightarrow> bool" where
  "running w \<equiv> w \<noteq> Returned \<and> w \<noteq> Panicked"

abbreviation awake :: "worker \<Rightarrow> bool" where
  "awake w \<equiv> w = Draining \<or> (\<exists>event. w = Sending event)"

text \<open>
  What a subscription keeps: the worker stops only after \<open>close\<close>; what was received, what the worker
  holds and what is stored are the wanted events in order; and a non-empty store always has a token,
  a producer about to offer one, or an awake worker.
\<close>

definition sub_inv :: "EventType list \<Rightarrow> eventSubscription \<Rightarrow> TxPoolEvent list \<Rightarrow> bool" where
  "sub_inv types es log \<longleftrightarrow>
     eventTypes es = types \<and>
     (\<not> running (runLoop_pc es) \<longrightarrow> closed es) \<and>
     (\<exists>rest. wanted types log = outputCh es @ rest \<and>
        (running (runLoop_pc es) \<longrightarrow> rest = in_hand (runLoop_pc es) @ eventStore es)) \<and>
     (\<not> closed es \<and> eventStore es \<noteq> [] \<longrightarrow>
        notifyCh es \<or> notifying es > 0 \<or> awake (runLoop_pc es))"

lemma eq_pop_None: "eq_pop q = (None, q') \<longleftrightarrow> q = [] \<and> q' = []"
  by (cases q) auto

lemma eq_pop_Some: "eq_pop q = (Some e, q') \<longleftrightarrow> q = e # q'"
  by (cases q) auto

lemma runLoop_inv:
  assumes "runLoop es es'" "sub_inv types es log"
  shows "sub_inv types es' log"
  using assms
  by (cases rule: runLoop.cases) (auto simp: sub_inv_def eq_pop_None eq_pop_Some)

lemma sub_step_inv:
  assumes "sub_step (es, log) (es', log')" "sub_inv types es log"
  shows "sub_inv types es' log'"
  using assms(1)
proof (cases rule: sub_step.cases)
  case worker
  then show ?thesis using runLoop_inv assms(2) by simp
qed (use assms(2) in \<open>auto simp: sub_inv_def push_store_def push_notify_def es_close_def eq_push_def
      eventSupported_def split: if_splits\<close>)

lemma sub_reachable_inv: "sub_reachable types es log \<Longrightarrow> sub_inv types es log"
proof (induction rule: sub_reachable.induct)
  case init
  then show ?case by (simp add: sub_inv_def new_subscription_def)
qed (rule sub_step_inv)

text \<open>On an open subscription every step of the worker decreases this measure.\<close>

fun pc_rank :: "worker \<Rightarrow> nat" where
  "pc_rank (Sending _) = 2"
| "pc_rank Draining = 1"
| "pc_rank _ = 0"

definition worker_rank :: "eventSubscription \<Rightarrow> nat" where
  "worker_rank es = 3 * length (eventStore es) + pc_rank (runLoop_pc es) + (if notifyCh es then 2 else 0)"

lemma runLoop_rank:
  assumes "runLoop es es'" "\<not> closed es"
  shows "worker_rank es' < worker_rank es" "closed es' = closed es" "notifying es' = notifying es"
  using assms by (cases rule: runLoop.cases; simp add: worker_rank_def eq_pop_None eq_pop_Some)+

lemma runLoop_progress:
  assumes "sub_inv types es log" "\<not> closed es" "notifying es = 0" "outputCh es \<noteq> wanted types log"
  shows "\<exists>es'. runLoop es es'"
proof (cases "runLoop_pc es")
  case Waiting
  with assms have "notifyCh es" by (auto simp: sub_inv_def)
  with Waiting show ?thesis by (blast intro: runLoop.notified)
next
  case Draining
  then show ?thesis
    by (cases "eq_pop (eventStore es)") (metis not_None_eq runLoop.drained runLoop.popped)
next
  case (Sending event)
  with assms show ?thesis by (blast intro: runLoop.sent)
qed (use assms in \<open>auto simp: sub_inv_def\<close>)

lemma runLoop_drains:
  assumes "sub_inv types es log" "\<not> closed es" "notifying es = 0"
  shows "\<exists>es'. runLoop\<^sup>*\<^sup>* es es' \<and> outputCh es' = wanted types log"
  using assms
proof (induction "worker_rank es" arbitrary: es rule: less_induct)
  case less
  show ?case
  proof (cases "outputCh es = wanted types log")
    case False
    then obtain es1 where s: "runLoop es es1" using runLoop_progress less.prems by blast
    then obtain es' where "runLoop\<^sup>*\<^sup>* es1 es'" "outputCh es' = wanted types log"
      using less.hyps [of es1] runLoop_rank [OF s less.prems(2)] runLoop_inv [OF s less.prems(1)]
        less.prems by auto
    with s show ?thesis by (blast intro: converse_rtranclp_into_rtranclp)
  qed auto
qed

section \<open>Signalling\<close>

text \<open>No subscription of the manager has been closed: \<open>signalEvent\<close> cannot panic.\<close>

definition em_open :: "eventManager \<Rightarrow> bool" where
  "em_open em \<longleftrightarrow> (\<forall>(k, es)\<in>set (subscriptions em). \<not> closed es)"

text \<open>What one subscription sees of a signal: the events it supports, appended in order.\<close>

definition received :: "EventType \<Rightarrow> hash list \<Rightarrow> eventSubscription \<Rightarrow> eventSubscription" where
  "received t hs es =
     (if hs \<noteq> [] \<and> eventSupported es t
      then es\<lparr>eventStore := eventStore es @ map (\<lambda>h. \<lparr>evType = t, evTxHash = Hash_String h\<rparr>) hs,
              notifyCh := True\<rparr>
      else es)"

lemma pushEvent_received:
  "\<not> closed es \<Longrightarrow>
   pushEvent \<lparr>evType = t, evTxHash = Hash_String h\<rparr> es = Some (received t [h] es)"
  by (simp add: pushEvent_def push_notify_def push_store_def received_def eq_push_def)

lemma received_Cons: "received t hs (received t [h] es) = received t (h # hs) es"
  by (simp add: received_def eventSupported_def)

lemma received_closed [simp]: "closed (received t hs es) = closed es"
  by (simp add: received_def)

lemma for_values_map:
  assumes "\<forall>(k, v)\<in>set kvs. f v = Some (g v)"
  shows "for_values f kvs = Some (map (apsnd g) kvs)"
  using assms by (induction f kvs rule: for_values.induct) auto

lemma signal_hashes_received:
  assumes "\<forall>(k, es)\<in>set subs. \<not> closed es"
  shows "signal_hashes t hs subs = Some (map (apsnd (received t hs)) subs)"
  using assms
proof (induction hs arbitrary: subs)
  case Nil
  then show ?case by (simp add: received_def apsnd_def map_prod_def)
next
  case (Cons h hs)
  have "for_values (pushEvent \<lparr>evType = t, evTxHash = Hash_String h\<rparr>) subs
      = Some (map (apsnd (received t [h])) subs)"
    by (rule for_values_map) (use Cons.prems in \<open>auto simp: pushEvent_received\<close>)
  moreover have "signal_hashes t hs (map (apsnd (received t [h])) subs)
      = Some (map (apsnd (received t hs)) (map (apsnd (received t [h])) subs))"
    by (rule Cons.IH) (use Cons.prems in auto)
  ultimately show ?case by (simp add: received_Cons o_def apsnd_compose)
qed

lemma signalEvent_received:
  assumes "em_open em"
  shows "signalEvent t hs em = Some (if numSubscriptions em < 1 then em
           else em\<lparr>subscriptions := map (apsnd (received t hs)) (subscriptions em)\<rparr>)"
  using assms by (simp add: signalEvent_def em_open_def signal_hashes_received)

lemma signalEvent_open [inv_intros]:
  "em_open em \<Longrightarrow> \<exists>em'. signalEvent t hs em = Some em' \<and> em_open em'"
  by (auto simp: signalEvent_received em_open_def)

lemma map_of_apsnd: "map_of (map (apsnd f) kvs) k = map_option f (map_of kvs k)"
  by (induction kvs) auto

section \<open>Properties\<close>

text \<open>C17. A subscriber receives the events of its types in the order in which they were pushed, whatever
  the interleaving of producers and worker; and while the subscription is open and no producer is
  between its two steps, the worker can run until everything pushed has been received (no wake-up is
  lost).\<close>

theorem subscription_delivers:
  assumes "sub_reachable types es log"
  shows "(\<exists>rest. filter (\<lambda>e. evType e \<in> set types) log = outputCh es @ rest) \<and>
         (\<not> closed es \<and> notifying es = 0 \<longrightarrow>
            (\<exists>es'. runLoop\<^sup>*\<^sup>* es es' \<and> outputCh es' = filter (\<lambda>e. evType e \<in> set types) log))"
  using sub_reachable_inv [OF assms] runLoop_drains [of types es log]
  by (auto simp: sub_inv_def wanted_def)

definition ex_event :: TxPoolEvent where
  "ex_event = \<lparr>evType = ADDED, evTxHash = ''0x07''\<rparr>"

definition ex_sub :: eventSubscription where
  "ex_sub = the (push_notify (push_store ex_event (new_subscription [ADDED])))"

lemma ex_sub_fields:
  "eventTypes ex_sub = [ADDED]" "outputCh ex_sub = []" "\<not> closed ex_sub" "notifyCh ex_sub"
  "eventStore ex_sub = [ex_event]" "notifying ex_sub = 0" "runLoop_pc ex_sub = Waiting"
  by code_simp+

lemma ex_sub_reachable: "sub_reachable [ADDED] ex_sub [ex_event]"
proof -
  let ?n = "new_subscription [ADDED]"
  have "sub_step (?n, []) (push_store ex_event ?n, [] @ [ex_event])"
    by (rule sub_step.push) code_simp+
  then have 1: "sub_reachable [ADDED] (push_store ex_event ?n) [ex_event]"
    using sub_reachable.step [OF sub_reachable.init] by simp
  have "notifying (push_store ex_event ?n) > 0" "push_notify (push_store ex_event ?n) = Some ex_sub"
    by (simp_all add: push_store_def push_notify_def ex_sub_def new_subscription_def)
  then show ?thesis using sub_reachable.step [OF 1 sub_step.notify] by blast
qed

theorem subscription_delivers_witness:
  "\<exists>es'. runLoop\<^sup>*\<^sup>* ex_sub es' \<and> outputCh es' = [ex_event]"
  using subscription_delivers [OF ex_sub_reachable] by (simp add: ex_sub_fields ex_event_def)

text \<open>
  Closing a subscription while its worker holds an event: both branches of the inner \<open>select\<close> are
  ready, and the one that sends on the closed channel panics.
\<close>

lemma close_can_panic: "\<exists>es log. sub_reachable [ADDED] es log \<and> runLoop_pc es = Panicked"
proof -
  let ?d = "ex_sub\<lparr>runLoop_pc := Draining, notifyCh := False\<rparr>"
  let ?s = "?d\<lparr>runLoop_pc := Sending ex_event, eventStore := []\<rparr>"
  let ?c = "?s\<lparr>closed := True\<rparr>"
  have "runLoop ex_sub ?d" by (rule runLoop.notified) (simp_all add: ex_sub_fields)
  then have 1: "sub_reachable [ADDED] ?d [ex_event]"
    by (rule sub_reachable.step [OF ex_sub_reachable sub_step.worker])
  have "runLoop ?d ?s" by (rule runLoop.popped) (simp_all add: ex_sub_fields)
  then have 2: "sub_reachable [ADDED] ?s [ex_event]"
    by (rule sub_reachable.step [OF 1 sub_step.worker])
  have 3: "sub_reachable [ADDED] ?c [ex_event]"
    by (rule sub_reachable.step [OF 2 sub_step.close]) (simp_all add: ex_sub_fields es_close_def)
  have "runLoop ?c (?c\<lparr>runLoop_pc := Panicked\<rparr>)" by (rule runLoop.send_closed) simp_all
  then have "sub_reachable [ADDED] (?c\<lparr>runLoop_pc := Panicked\<rparr>) [ex_event]"
    by (rule sub_reachable.step [OF 3 sub_step.worker])
  then show ?thesis by (intro exI) (auto intro: exI)
qed

text \<open>After \<open>Close\<close> the closed subscriptions stay in the map: cancelling one of them closes it twice.\<close>

lemma cancel_after_close_panics:
  "(case em_Close (em_subscribe 1 [ADDED] newEventManager) of
      Some em \<Rightarrow> Option.is_none (cancelSubscription 1 em) \<and>
                 Option.is_none (signalEvent ADDED [7] (em_subscribe 2 [DROPPED] em))
    | None \<Rightarrow> False)"
  by code_simp

end
