(* ===== verification/StateGas.thy ===== *)
theory StateGas
  imports TxTypes
begin

text \<open>
  The intrinsic gas of a transaction, \<open>TransactionGasCost\<close> of \<open>state/executor.go\<close>, used both by
  the pool's admission check and by the executor. The arithmetic is on \<open>uint64\<close>; the two guards
  against overflow are part of the model.
\<close>

datatype gas_error = ErrIntrinsicGasOverflow

definition TxGas :: u64 where "TxGas = 21000"
definition TxGasContractCreation :: u64 where "TxGasContractCreation = 53000"
definition MaxUint64 :: u64 where "MaxUint64 = 18446744073709551615"

definition TransactionGasCost :: "transaction \<Rightarrow> bool \<Rightarrow> bool \<Rightarrow> gas_error + u64" where
  "TransactionGasCost msg isHomestead isIstanbul =
     (let cost = (if IsContractCreation msg \<and> isHomestead then TxGasContractCreation else TxGas);
          payload = txInput msg
      in if length payload > 0
         then let zeros = (word_of_nat (length (filter (\<lambda>b. b = 0) payload)) :: u64);
                  nonZeros = word_of_nat (length payload) - zeros;
                  nonZeroCost = (if isIstanbul then 16 else 68)
              in if (MaxUint64 - cost) div nonZeroCost < nonZeros then Inl ErrIntrinsicGasOverflow
                 else let cost = cost + nonZeros * nonZeroCost
                      in if (MaxUint64 - cost) div 4 < zeros then Inl ErrIntrinsicGasOverflow
                         else Inr (cost + zeros * 4)
         else Inr cost)"

text \<open>The exact cost, over the natural numbers.\<close>

definition intrinsic_gas :: "transaction \<Rightarrow> bool \<Rightarrow> bool \<Rightarrow> nat" where
  "intrinsic_gas msg isHomestead isIstanbul =
     (if IsContractCreation msg \<and> isHomestead then 53000 else 21000)
     + (if isIstanbul then 16 else 68) * length (filter (\<lambda>b. b \<noteq> 0) (txInput msg))
     + 4 * length (filter (\<lambda>b. b = 0) (txInput msg))"

lemma nat_headroom: "c < N \<Longrightarrow> N - 1 - c < m \<longleftrightarrow> N \<le> c + m" for c N m :: nat
  by arith

lemma u64_guarded_mul_add:
  fixes c k n :: u64
  assumes "0 < k"
  shows "(MaxUint64 - c) div k < n \<longleftrightarrow> 2 ^ 64 \<le> unat c + unat n * unat k"
    and "\<not> (MaxUint64 - c) div k < n \<Longrightarrow> unat (c + n * k) = unat c + unat n * unat k"
proof -
  have k: "0 < unat k" using assms by (simp add: unat_gt_0 word_neq_0_conv)
  have c: "unat (MaxUint64 - c) = 2 ^ 64 - 1 - unat c"
    by (subst unat_sub) (simp_all add: MaxUint64_def word_le_nat_alt)
  have "(MaxUint64 - c) div k < n \<longleftrightarrow> (2 ^ 64 - 1 - unat c) div unat k < unat n"
    by (simp add: word_less_nat_alt unat_div c)
  also have "\<dots> \<longleftrightarrow> 2 ^ 64 - 1 - unat c < unat n * unat k"
    using k by (simp add: div_less_iff_less_mult)
  also have "\<dots> \<longleftrightarrow> 2 ^ 64 \<le> unat c + unat n * unat k"
    by (rule nat_headroom) simp
  finally show 1: "(MaxUint64 - c) div k < n \<longleftrightarrow> 2 ^ 64 \<le> unat c + unat n * unat k" .
  assume "\<not> (MaxUint64 - c) div k < n"
  with 1 have "unat c + unat n * unat k < 2 ^ 64" by simp
  then show "unat (c + n * k) = unat c + unat n * unat k"
    by (simp add: unat_word_ariths mod_simps)
qed

lemma length_filter_compl: "length (filter P xs) + length (filter (\<lambda>x. \<not> P x) xs) = length xs"
  by (rule sum_length_filter_compl)

text \<open>Counting bytes in a \<open>uint64\<close> is exact for every payload a 64-bit machine can hold.\<close>

lemma payload_counts:
  assumes "length p < 2 ^ 64"
  shows "unat (word_of_nat (length (filter P p)) :: u64) = length (filter P p)"
    and "unat (word_of_nat (length p) - word_of_nat (length (filter P p)) :: u64)
         = length (filter (\<lambda>b. \<not> P b) p)"
proof -
  have f: "length (filter P p) \<le> length p" by simp
  with assms have l: "length (filter P p) < 2 ^ 64" by linarith
  then show 1: "unat (word_of_nat (length (filter P p)) :: u64) = length (filter P p)"
    by (simp add: unat_of_nat)
  have "(word_of_nat (length (filter P p)) :: u64) \<le> word_of_nat (length p)"
    using f l assms by (simp add: word_le_nat_alt unat_of_nat)
  then have "unat (word_of_nat (length p) - word_of_nat (length (filter P p)) :: u64)
      = length p - length (filter P p)"
    using f l assms by (simp add: unat_sub unat_of_nat)
  then show "unat (word_of_nat (length p) - word_of_nat (length (filter P p)) :: u64)
      = length (filter (\<lambda>b. \<not> P b) p)"
    using length_filter_compl [of P p] by simp
qed

lemma TransactionGasCost_exact:
  assumes "length (txInput msg) < 2 ^ 64"
  shows "TransactionGasCost msg hs ist = Inr c \<Longrightarrow> unat c = intrinsic_gas msg hs ist"
    and "TransactionGasCost msg hs ist = Inl ErrIntrinsicGasOverflow \<longleftrightarrow>
         2 ^ 64 \<le> intrinsic_gas msg hs ist"
proof -
  define base where "base = (if IsContractCreation msg \<and> hs then TxGasContractCreation else TxGas)"
  define z where "z = (word_of_nat (length (filter (\<lambda>b. b = 0) (txInput msg))) :: u64)"
  define nz where "nz = word_of_nat (length (txInput msg)) - z"
  define k where "k = (if ist then 16 else 68 :: u64)"
  have k: "0 < k" "unat k = (if ist then 16 else 68)" by (simp_all add: k_def)
  have b: "unat base = (if IsContractCreation msg \<and> hs then 53000 else 21000)"
    by (simp add: base_def TxGas_def TxGasContractCreation_def)
  have z: "unat z = length (filter (\<lambda>b. b = 0) (txInput msg))"
    and nz: "unat nz = length (filter (\<lambda>b. b \<noteq> 0) (txInput msg))"
    using payload_counts [OF assms, of "\<lambda>b. b = 0"] by (simp_all add: z_def nz_def)
  have ig: "intrinsic_gas msg hs ist = unat base + unat nz * unat k + unat z * unat (4 :: u64)"
    by (simp add: intrinsic_gas_def b z nz k)
  have gc: "TransactionGasCost msg hs ist =
      (if length (txInput msg) > 0
       then if (MaxUint64 - base) div k < nz then Inl ErrIntrinsicGasOverflow
            else if (MaxUint64 - (base + nz * k)) div 4 < z then Inl ErrIntrinsicGasOverflow
            else Inr (base + nz * k + z * 4)
       else Inr base)"
    by (simp add: TransactionGasCost_def base_def z_def nz_def k_def Let_def)
  note g1 = u64_guarded_mul_add [OF k(1), of base nz]
  have four: "(0 :: u64) < 4" by simp
  note g2 = u64_guarded_mul_add [OF four, of "base + nz * k" z]
  have empty: "length (txInput msg) = 0 \<Longrightarrow> nz = 0 \<and> z = 0"
    by (simp add: nz_def z_def)
  have small: "unat base < 2 ^ 64" by (simp add: b)
  show "unat c = intrinsic_gas msg hs ist" if "TransactionGasCost msg hs ist = Inr c"
    using that g1 g2 ig empty unfolding gc by (auto split: if_splits)
  show "TransactionGasCost msg hs ist = Inl ErrIntrinsicGasOverflow \<longleftrightarrow>
      2 ^ 64 \<le> intrinsic_gas msg hs ist"
    using g1 g2 ig empty small unfolding gc by (auto split: if_splits)
qed

lemma TransactionGasCost_covers:
  assumes "length (txInput msg) < 2 ^ 64"
  shows "(\<exists>c. TransactionGasCost msg hs ist = Inr c \<and> c \<le> gas) \<longleftrightarrow> intrinsic_gas msg hs ist \<le> unat gas"
proof (cases "TransactionGasCost msg hs ist")
  case (Inl e)
  then have "2 ^ 64 \<le> intrinsic_gas msg hs ist"
    using TransactionGasCost_exact(2) [OF assms, of hs ist] by (cases e) simp
  moreover have "unat gas < 2 ^ 64" by simp
  ultimately have "\<not> intrinsic_gas msg hs ist \<le> unat gas" by linarith
  with Inl show ?thesis by simp
next
  case (Inr c)
  then show ?thesis
    using TransactionGasCost_exact(1) [OF assms, of hs ist c] by (simp add: word_le_nat_alt)
qed

end
