(* ===== verification/TxPool.thy ===== *)
theory TxPool
  imports TxAccount TxEvents StateGas "HOL-Library.Monad_Syntax"
begin

text \<open>
  The transaction pool of \<open>txpool/txpool.go\<close>, \<open>txpool/query.go\<close> and the \<open>accountsMap\<close> of
  \<open>txpool/account.go\<close>. The state is one record; every handler is a function that returns the new
  pool, \<open>None\<close> where Go panics (a missing account, a closed event channel). The main loop of
  \<open>Start\<close> runs each request in a goroutine of its own: the requests that have been received and not
  yet handled are the two lists \<open>enqueueReqCh\<close> and \<open>promoteReqCh\<close>, and \<open>pool_step\<close> lets them run
  in any order, one handler at a time.
\<close>

section \<open>The pool and its environment\<close>

datatype txOrigin = local_tx | gossip | reorg

fun txOrigin_String :: "txOrigin \<Rightarrow> string" where
  "txOrigin_String local_tx = ''local''"
| "txOrigin_String gossip = ''gossip''"
| "txOrigin_String reorg = ''reorg''"

text \<open>
  The chain store, the signer and the encoders behind the pool. \<open>headerStateRoot\<close> and
  \<open>headerGasLimit\<close> are the two fields the pool reads of \<open>store.Header ()\<close>; a block is the list of
  its transactions.
\<close>

record store =
  headerStateRoot :: hash
  headerGasLimit :: u64
  store_GetNonce :: "hash \<Rightarrow> address \<Rightarrow> u64"
  store_GetBalance :: "hash \<Rightarrow> address \<Rightarrow> int option"
  store_GetBlockByHash :: "hash \<Rightarrow> transaction list option"
  signer_Sender :: "transaction \<Rightarrow> address option"
  forks_Homestead :: bool
  forks_Istanbul :: bool

record codec =
  MarshalRLP :: "transaction \<Rightarrow> bytes"
  UnmarshalRLP :: "bytes \<Rightarrow> transaction option"
  keccak :: "bytes \<Rightarrow> hash"

text \<open>
  \<open>topic\<close> is \<open>None\<close> without a network and otherwise the messages handed to \<open>Publish\<close>;
  \<open>PendingTxs\<close> is the metric of that name.
\<close>

record TxPool =
  accounts :: "address \<rightharpoonup> account"
  accounts_count :: u64
  executables :: pricedQueue
  index :: lookupMap
  topic :: "bytes list option"
  gauge :: slotGauge
  priceLimit :: u64
  enqueueReqCh :: "transaction list"
  promoteReqCh :: "address list"
  sealing :: bool
  dev :: bool
  PendingTxs :: int
  events :: eventManager

record Config =
  cfgPriceLimit :: u64
  cfgMaxSlots :: u64
  cfgSealing :: bool

definition NewTxPool :: "bool \<Rightarrow> Config \<Rightarrow> TxPool" where
  "NewTxPool network config =
     \<lparr>accounts = Map.empty, accounts_count = 0, executables = newPricedQueue, index = Map.empty,
      topic = (if network then Some [] else None),
      gauge = \<lparr>height = 0, max = cfgMaxSlots config\<rparr>, priceLimit = cfgPriceLimit config,
      enqueueReqCh = [], promoteReqCh = [], sealing = cfgSealing config, dev = False,
      PendingTxs = 0, events = newEventManager\<rparr>"

definition EnableDev :: "TxPool \<Rightarrow> TxPool" where
  "EnableDev p = p\<lparr>dev := True\<rparr>"

definition signal :: "EventType \<Rightarrow> hash list \<Rightarrow> TxPool \<Rightarrow> TxPool option" where
  "signal t hs p = do { em \<leftarrow> signalEvent t hs (events p); Some (p\<lparr>events := em\<rparr>) }"

section \<open>The accounts map\<close>

definition initOnce :: "address \<Rightarrow> u64 \<Rightarrow> TxPool \<Rightarrow> TxPool" where
  "initOnce addr nonce p =
     (case accounts p addr of
        Some _ \<Rightarrow> p
      | None \<Rightarrow>
          p\<lparr>accounts := (accounts p)(addr \<mapsto>
               \<lparr>enqueued = newAccountQueue, promoted = newAccountQueue, nextNonce = nonce\<rparr>),
            accounts_count := accounts_count p + 1\<rparr>)"

definition account_exists :: "TxPool \<Rightarrow> address \<Rightarrow> bool" where
  "account_exists p addr \<longleftrightarrow> accounts p addr \<noteq> None"

text \<open>\<open>sync.Map.Range\<close> visits the keys in an order that is an argument.\<close>

fun getPrimaries :: "address list \<Rightarrow> TxPool \<Rightarrow> transaction list" where
  "getPrimaries [] p = []"
| "getPrimaries (key # keys) p =
     (case accounts p key of
        None \<Rightarrow> getPrimaries keys p
      | Some a \<Rightarrow>
          (case aq_peek (promoted a) of
             None \<Rightarrow> getPrimaries keys p
           | Some tx \<Rightarrow> tx # getPrimaries keys p))"

fun accounts_promoted :: "address list \<Rightarrow> TxPool \<Rightarrow> u64" where
  "accounts_promoted [] p = 0"
| "accounts_promoted (key # keys) p =
     (case accounts p key of None \<Rightarrow> 0 | Some a \<Rightarrow> aq_length (promoted a)) + accounts_promoted keys p"

definition allTxs :: "bool \<Rightarrow> TxPool \<Rightarrow> (address \<rightharpoonup> transaction list) \<times> (address \<rightharpoonup> transaction list)" where
  "allTxs includeEnqueued p =
     ((\<lambda>addr. case accounts p addr of
          None \<Rightarrow> None
        | Some a \<Rightarrow> if aq_length (promoted a) \<noteq> 0 then Some (promoted a) else None),
      (\<lambda>addr. case accounts p addr of
          None \<Rightarrow> None
        | Some a \<Rightarrow> if includeEnqueued \<and> aq_length (enqueued a) \<noteq> 0 then Some (enqueued a) else None))"

section \<open>Queries\<close>

definition pool_GetNonce :: "store \<Rightarrow> address \<Rightarrow> TxPool \<Rightarrow> u64" where
  "pool_GetNonce st addr p =
     (case accounts p addr of
        None \<Rightarrow> store_GetNonce st (headerStateRoot st) addr
      | Some a \<Rightarrow> getNonce a)"

definition GetCapacity :: "TxPool \<Rightarrow> u64 \<times> u64" where
  "GetCapacity p = (gauge_read (gauge p), max (gauge p))"

definition GetPendingTx :: "hash \<Rightarrow> TxPool \<Rightarrow> transaction option" where
  "GetPendingTx h p = lookup_get h (index p)"

definition Length :: "address list \<Rightarrow> TxPool \<Rightarrow> u64" where
  "Length keys p = accounts_promoted keys p"

section \<open>Admission\<close>

text \<open>The error, if any, and the transaction with the sender that the check may have filled in.\<close>

definition validateTx :: "store \<Rightarrow> codec \<Rightarrow> TxPool \<Rightarrow> transaction \<Rightarrow> pool_error option \<times> transaction" where
  "validateTx st cd p tx =
     (if (word_of_nat (length (MarshalRLP cd tx)) :: u64) > txMaxSize then (Some ErrOversizedData, tx)
      else if sgn (txValue tx) < 0 then (Some ErrNegativeValue, tx)
      else if \<not> dev p \<and> txFrom tx \<noteq> ZeroAddress then (Some ErrNonEncryptedTx, tx)
      else case (if txFrom tx = ZeroAddress then signer_Sender st tx else Some (txFrom tx)) of
             None \<Rightarrow> (Some ErrInvalidSender, tx)
           | Some from \<Rightarrow>
               let tx = tx\<lparr>txFrom := from\<rparr> in
               if IsUnderpriced tx (priceLimit p) then (Some ErrUnderpriced, tx)
               else if IsFixedRewardTx tx then (Some ErrInvalidTransaction, tx)
               else let stateRoot = headerStateRoot st in
               if store_GetNonce st stateRoot (txFrom tx) > txNonce tx then (Some ErrNonceTooLow, tx)
               else case store_GetBalance st stateRoot (txFrom tx) of
                      None \<Rightarrow> (Some ErrInvalidAccountState, tx)
                    | Some accountBalance \<Rightarrow>
                        if accountBalance < tx_Cost tx then (Some ErrInsufficientFunds, tx)
                        else case TransactionGasCost tx (forks_Homestead st) (forks_Istanbul st) of
                               Inl _ \<Rightarrow> (Some ErrGasOverflow, tx)
                             | Inr intrinsicGas \<Rightarrow>
                                 if txGas tx < intrinsicGas then (Some ErrIntrinsicGas, tx)
                                 else if txGas tx > headerGasLimit st then (Some ErrBlockLimitExceeded, tx)
                                 else (None, tx))"

definition createAccountOnce :: "store \<Rightarrow> address \<Rightarrow> TxPool \<Rightarrow> TxPool" where
  "createAccountOnce st newAddr p =
     (let stateRoot = headerStateRoot st; stateNonce = store_GetNonce st stateRoot newAddr
      in initOnce newAddr stateNonce p)"

definition addTx :: "store \<Rightarrow> codec \<Rightarrow> txOrigin \<Rightarrow> transaction \<Rightarrow> TxPool
    \<Rightarrow> ((pool_error option \<times> transaction) \<times> TxPool) option" where
  "addTx st cd origin tx p =
     (case validateTx st cd p tx of
        (Some err, tx) \<Rightarrow> Some ((Some err, tx), p)
      | (None, tx) \<Rightarrow>
          if gauge_read (gauge p) + slotsRequired (MarshalRLP cd) [tx] > max (gauge p)
          then Some ((Some ErrTxPoolOverflow, tx), p)
          else let tx = tx_ComputeHash (MarshalRLP cd) (keccak cd) tx in
          if lookup_get (txHash tx) (index p) \<noteq> None
          then Some ((if origin = gossip then None else Some ErrAlreadyKnown, tx), p)
          else let p = (if account_exists p (txFrom tx) then p else createAccountOnce st (txFrom tx) p);
                   p = p\<lparr>enqueueReqCh := enqueueReqCh p @ [tx]\<rparr>
               in do { p \<leftarrow> signal ADDED [txHash tx] p; Some ((None, tx), p) })"

definition AddTx :: "store \<Rightarrow> codec \<Rightarrow> transaction \<Rightarrow> TxPool
    \<Rightarrow> ((pool_error option \<times> transaction) \<times> TxPool) option" where
  "AddTx st cd tx p = do {
     ((err, tx), p) \<leftarrow> addTx st cd local_tx tx p;
     case err of
       Some e \<Rightarrow> Some ((Some e, tx), p)
     | None \<Rightarrow>
         (case topic p of
            Some msgs \<Rightarrow>
              if \<not> dev p then Some ((None, tx), p\<lparr>topic := Some (msgs @ [MarshalRLP cd tx])\<rparr>)
              else Some ((None, tx), p)
          | None \<Rightarrow> Some ((None, tx), p))
   }"

definition addGossipTx :: "store \<Rightarrow> codec \<Rightarrow> bytes \<Rightarrow> TxPool \<Rightarrow> TxPool option" where
  "addGossipTx st cd raw p =
     (if \<not> sealing p then Some p
      else case UnmarshalRLP cd raw of
             None \<Rightarrow> Some p
           | Some tx \<Rightarrow> do { (_, p) \<leftarrow> addTx st cd gossip tx p; Some p })"

section \<open>The request handlers\<close>

definition handleEnqueueRequest :: "codec \<Rightarrow> transaction \<Rightarrow> TxPool \<Rightarrow> TxPool option" where
  "handleEnqueueRequest cd tx p = do {
     account \<leftarrow> accounts p (txFrom tx);
     case account_enqueue account tx of
       Inl err \<Rightarrow> Some p
     | Inr account \<Rightarrow> do {
         let p = p\<lparr>accounts := (accounts p)(txFrom tx \<mapsto> account)\<rparr>;
         p \<leftarrow> signal ENQUEUED [txHash tx] p;
         let p = p\<lparr>index := lookup_add [tx] (index p),
                   gauge := gauge_increase (slotsRequired (MarshalRLP cd) [tx]) (gauge p)\<rparr>;
         if txNonce tx > getNonce account then Some p
         else Some (p\<lparr>promoteReqCh := promoteReqCh p @ [txFrom tx]\<rparr>)
       }
   }"

definition handlePromoteRequest :: "address \<Rightarrow> TxPool \<Rightarrow> TxPool option" where
  "handlePromoteRequest addr p = do {
     account \<leftarrow> accounts p addr;
     let ((promoted, promotedHashes), account) = account_promote account;
     let p = p\<lparr>accounts := (accounts p)(addr \<mapsto> account), PendingTxs := PendingTxs p + uint promoted\<rparr>;
     signal PROMOTED promotedHashes p
   }"

section \<open>Block building\<close>

definition Prepare :: "address list \<Rightarrow> TxPool \<Rightarrow> TxPool" where
  "Prepare keys p =
     (let p = (if pq_length (executables p) \<noteq> 0 then p\<lparr>executables := pq_clear (executables p)\<rparr> else p);
          primaries = getPrimaries keys p
      in p\<lparr>executables := foldl pq_push (executables p) primaries\<rparr>)"

definition Peek :: "TxPool \<Rightarrow> transaction option \<times> TxPool" where
  "Peek p =
     (case pq_pop (executables p) of
        None \<Rightarrow> (None, p)
      | Some (tx, q) \<Rightarrow> (Some tx, p\<lparr>executables := q\<rparr>))"

definition Pop :: "codec \<Rightarrow> transaction \<Rightarrow> TxPool \<Rightarrow> TxPool option" where
  "Pop cd tx p = do {
     account \<leftarrow> accounts p (txFrom tx);
     let prom = (case aq_pop (promoted account) of None \<Rightarrow> promoted account | Some (_, q) \<Rightarrow> q);
     let p = p\<lparr>accounts := (accounts p)(txFrom tx \<mapsto> account\<lparr>promoted := prom\<rparr>),
               gauge := gauge_decrease (slotsRequired (MarshalRLP cd) [tx]) (gauge p),
               PendingTxs := PendingTxs p - 1\<rparr>;
     case aq_peek prom of
       None \<Rightarrow> Some p
     | Some tx \<Rightarrow> Some (p\<lparr>executables := pq_push (executables p) tx\<rparr>)
   }"

definition clearAccountQueue :: "codec \<Rightarrow> transaction list \<Rightarrow> TxPool \<Rightarrow> TxPool" where
  "clearAccountQueue cd txs p =
     p\<lparr>index := lookup_remove txs (index p),
       gauge := gauge_decrease (slotsRequired (MarshalRLP cd) txs) (gauge p)\<rparr>"

definition Drop :: "codec \<Rightarrow> transaction \<Rightarrow> TxPool \<Rightarrow> TxPool option" where
  "Drop cd tx p = do {
     account \<leftarrow> accounts p (txFrom tx);
     let account = setNonce (txNonce tx) account;
     let (dropped, prom) = aq_clear (promoted account);
     let p = clearAccountQueue cd dropped p;
     let p = p\<lparr>PendingTxs := PendingTxs p - int (length dropped)\<rparr>;
     let (dropped, enq) = aq_clear (enqueued account);
     let p = clearAccountQueue cd dropped p;
     let p = p\<lparr>accounts := (accounts p)(txFrom tx \<mapsto> account\<lparr>promoted := prom, enqueued := enq\<rparr>)\<rparr>;
     signal DROPPED [txHash tx] p
   }"

definition Demote :: "transaction \<Rightarrow> TxPool \<Rightarrow> TxPool option" where
  "Demote tx p = signal DEMOTED [txHash tx] p"

section \<open>Following the chain\<close>

definition resetAccount :: "codec \<Rightarrow> address \<Rightarrow> u64 \<Rightarrow> TxPool \<Rightarrow> TxPool option" where
  "resetAccount cd addr nonce p = do {
     account \<leftarrow> accounts p addr;
     let (pruned, prom) = aq_prune nonce (promoted account);
     let account = account\<lparr>promoted := prom\<rparr>;
     let p = p\<lparr>accounts := (accounts p)(addr \<mapsto> account),
               index := lookup_remove pruned (index p),
               gauge := gauge_decrease (slotsRequired (MarshalRLP cd) pruned) (gauge p),
               PendingTxs := PendingTxs p - int (length pruned)\<rparr>;
     if nonce \<le> getNonce account then Some p
     else do {
       let (pruned, enq) = aq_prune nonce (enqueued account);
       let account = setNonce nonce (account\<lparr>enqueued := enq\<rparr>);
       let p = p\<lparr>accounts := (accounts p)(addr \<mapsto> account),
                 index := lookup_remove pruned (index p),
                 gauge := gauge_decrease (slotsRequired (MarshalRLP cd) pruned) (gauge p)\<rparr>;
       case aq_peek enq of
         None \<Rightarrow> Some p
       | Some first \<Rightarrow>
           if txNonce first = nonce then Some (p\<lparr>promoteReqCh := promoteReqCh p @ [addr]\<rparr>) else Some p
     }
   }"

text \<open>\<open>range\<close> over the collected nonces, in a given order.\<close>

fun resetAccounts :: "codec \<Rightarrow> (address \<times> u64) list \<Rightarrow> TxPool \<Rightarrow> TxPool option" where
  "resetAccounts cd [] p = Some p"
| "resetAccounts cd ((addr, nonce) # rest) p =
     (if \<not> account_exists p addr then resetAccounts cd rest p
      else do { p \<leftarrow> resetAccount cd addr nonce p; resetAccounts cd rest p })"

text \<open>
  \<open>processEvent\<close>. The chains are lists of header hashes. \<open>oldTxs\<close> and \<open>stateNonces\<close> are Go maps, here
  association lists in insertion order; \<open>rangeTxs\<close> and \<open>rangeNonces\<close> permute them into the order in
  which \<open>range\<close> visits them.
\<close>

record Event =
  OldChain :: "hash list"
  NewChain :: "hash list"

fun collectOld :: "store \<Rightarrow> hash list \<Rightarrow> (hash \<times> transaction) list \<Rightarrow> (hash \<times> transaction) list" where
  "collectOld st [] oldTxs = oldTxs"
| "collectOld st (header # rest) oldTxs =
     (case store_GetBlockByHash st header of
        None \<Rightarrow> collectOld st rest oldTxs
      | Some txs \<Rightarrow> collectOld st rest (foldl (\<lambda>m tx. AList.update (txHash tx) tx m) oldTxs txs))"

fun latestNonces :: "store \<Rightarrow> hash \<Rightarrow> transaction list \<Rightarrow> (address \<times> u64) list \<times> (hash \<times> transaction) list
    \<Rightarrow> (address \<times> u64) list \<times> (hash \<times> transaction) list" where
  "latestNonces st stateRoot [] s = s"
| "latestNonces st stateRoot (tx # txs) (stateNonces, oldTxs) =
     (let addr = txFrom tx in
      if map_of stateNonces addr \<noteq> None then latestNonces st stateRoot txs (stateNonces, oldTxs)
      else latestNonces st stateRoot txs
             (stateNonces @ [(addr, store_GetNonce st stateRoot addr)], AList.delete (txHash tx) oldTxs))"

fun collectNew :: "store \<Rightarrow> hash \<Rightarrow> hash list \<Rightarrow> (address \<times> u64) list \<times> (hash \<times> transaction) list
    \<Rightarrow> TxPool \<Rightarrow> ((address \<times> u64) list \<times> (hash \<times> transaction) list) \<times> TxPool" where
  "collectNew st stateRoot [] s p = (s, p)"
| "collectNew st stateRoot (header # rest) s p =
     (case store_GetBlockByHash st header of
        None \<Rightarrow> collectNew st stateRoot rest s p
      | Some txs \<Rightarrow>
          collectNew st stateRoot rest (latestNonces st stateRoot txs s)
            (p\<lparr>index := lookup_remove txs (index p)\<rparr>))"

fun readdTxs :: "store \<Rightarrow> codec \<Rightarrow> transaction list \<Rightarrow> TxPool \<Rightarrow> TxPool option" where
  "readdTxs st cd [] p = Some p"
| "readdTxs st cd (tx # txs) p = do { (_, p) \<leftarrow> addTx st cd reorg tx p; readdTxs st cd txs p }"

definition processEvent :: "store \<Rightarrow> codec
    \<Rightarrow> (transaction list \<Rightarrow> transaction list) \<Rightarrow> ((address \<times> u64) list \<Rightarrow> (address \<times> u64) list)
    \<Rightarrow> Event \<Rightarrow> TxPool \<Rightarrow> TxPool option" where
  "processEvent st cd rangeTxs rangeNonces event p =
     (let oldTxs = collectOld st (OldChain event) [];
          stateRoot = headerStateRoot st;
          ((stateNonces, oldTxs), p) = collectNew st stateRoot (NewChain event) ([], oldTxs) p
      in do {
        p \<leftarrow> readdTxs st cd (rangeTxs (map snd oldTxs)) p;
        if length stateNonces = 0 then Some p
        else resetAccounts cd (rangeNonces stateNonces) p
      })"

definition ResetWithHeaders :: "store \<Rightarrow> codec
    \<Rightarrow> (transaction list \<Rightarrow> transaction list) \<Rightarrow> ((address \<times> u64) list \<Rightarrow> (address \<times> u64) list)
    \<Rightarrow> hash list \<Rightarrow> TxPool \<Rightarrow> TxPool option" where
  "ResetWithHeaders st cd rangeTxs rangeNonces headers p =
     processEvent st cd rangeTxs rangeNonces \<lparr>OldChain = [], NewChain = headers\<rparr> p"

definition pool_Close :: "TxPool \<Rightarrow> TxPool option" where
  "pool_Close p = do { em \<leftarrow> em_Close (events p); Some (p\<lparr>events := em\<rparr>) }"

end
