(* ===== verification/TxPoolInv.thy ===== *)
theory TxPoolInv
  imports TxPool
begin

text \<open>
  The invariant of the transaction pool and its reachable states. \<open>pool_step\<close> interleaves the calls
  of the clients (RPC, gossip, block building, chain events) with the handlers of the pending
  requests; \<open>pool_reachable_inv\<close> shows that the accounts stay well formed, that the gauge is the sum
  of the slots held and that no handler panics.
\<close>

section \<open>Sums over the accounts\<close>

definition total :: "('v \<Rightarrow> 'b::ab_group_add) \<Rightarrow> ('k \<rightharpoonup> 'v) \<Rightarrow> 'b" where
  "total f m = (\<Sum>k\<in>dom m. f (the (m k)))"

lemma total_empty [simp]: "total f Map.empty = 0"
  by (simp add: total_def)

lemma total_insert:
  assumes "finite (dom m)" "m k = None"
  shows "total f (m(k \<mapsto> v)) = total f m + f v"
proof -
  have "k \<notin> dom m" using assms by auto
  moreover have "(\<Sum>j\<in>dom m. f (the ((m(k \<mapsto> v)) j))) = total f m"
    unfolding total_def by (rule sum.cong) (use \<open>k \<notin> dom m\<close> in auto)
  ultimately show ?thesis
    using assms by (simp add: total_def add.commute)
qed

lemma total_update:
  assumes "finite (dom m)" "m k = Some u"
  shows "total f (m(k \<mapsto> v)) = total f m + f v - f u"
proof -
  have k: "k \<in> dom m" and d: "dom (m(k \<mapsto> v)) = dom m" using assms by auto
  have "(\<Sum>j\<in>dom m - {k}. f (the ((m(k \<mapsto> v)) j))) = (\<Sum>j\<in>dom m - {k}. f (the (m j)))"
    by (rule sum.cong) auto
  then show ?thesis
    using assms sum.remove [OF assms(1) k, of "\<lambda>j. f (the (m j))"]
      sum.remove [OF assms(1) k, of "\<lambda>j. f (the ((m(k \<mapsto> v)) j))"]
    unfolding total_def d by simp
qed

section \<open>The invariant\<close>

definition account_ok :: "address \<Rightarrow> account \<Rightarrow> bool" where
  "account_ok addr a \<longleftrightarrow> account_inv a \<and> (\<forall>t\<in>set (account_txs a). txFrom t = addr)"

abbreviation account_slots :: "codec \<Rightarrow> account \<Rightarrow> u64" where
  "account_slots cd a \<equiv> slotsRequired (MarshalRLP cd) (account_txs a)"

abbreviation account_pending :: "account \<Rightarrow> int" where
  "account_pending a \<equiv> int (length (promoted a))"

definition pool_inv :: "codec \<Rightarrow> TxPool \<Rightarrow> bool" where
  "pool_inv cd p \<longleftrightarrow>
     finite (dom (accounts p)) \<and>
     (\<forall>addr a. accounts p addr = Some a \<longrightarrow> account_ok addr a) \<and>
     height (gauge p) = total (account_slots cd) (accounts p) \<and>
     PendingTxs p = total account_pending (accounts p) \<and>
     (\<forall>tx\<in>set (enqueueReqCh p). txFrom tx \<in> dom (accounts p) \<and> txNonce tx \<noteq> maxNonce) \<and>
     set (promoteReqCh p) \<subseteq> dom (accounts p) \<and>
     pq_inv (executables p) \<and> em_open (events p)"

lemma pool_invD:
  assumes "pool_inv cd p" "accounts p addr = Some a"
  shows "account_ok addr a" "account_inv a"
  using assms by (auto simp: pool_inv_def account_ok_def)

text \<open>Every handler replaces one account and moves the gauge and the metric by the difference.\<close>

lemma pool_inv_update:
  assumes inv: "pool_inv cd p" and a: "accounts p addr = Some a" and ok: "account_ok addr a'"
    and p': "accounts p' = (accounts p)(addr \<mapsto> a')"
      "height (gauge p') = height (gauge p) + account_slots cd a' - account_slots cd a"
      "PendingTxs p' = PendingTxs p + account_pending a' - account_pending a"
      "set (enqueueReqCh p') \<subseteq> set (enqueueReqCh p)"
      "set (promoteReqCh p') \<subseteq> insert addr (set (promoteReqCh p))"
      "pq_inv (executables p')" "em_open (events p')"
  shows "pool_inv cd p'"
proof -
  have fin: "finite (dom (accounts p))" using inv by (simp add: pool_inv_def)
  have "dom (accounts p') = dom (accounts p)" using a p'(1) by auto
  moreover have "\<forall>k b. accounts p' k = Some b \<longrightarrow> account_ok k b"
    using inv ok p'(1) by (auto simp: pool_inv_def)
  moreover have "set (promoteReqCh p') \<subseteq> dom (accounts p)"
    using inv p'(5) a by (auto simp: pool_inv_def)
  ultimately show ?thesis
    using inv p' unfolding pool_inv_def by (auto simp: total_update [OF fin a])
qed

lemma signal_open:
  assumes "em_open (events p)" "signal t hs p = r"
  obtains em where "r = Some (p\<lparr>events := em\<rparr>)" "em_open em"
proof -
  from signalEvent_open [OF assms(1), of t hs] obtain em
    where "signalEvent t hs (events p) = Some em" "em_open em" by blast
  then show ?thesis using that [of em] assms(2) by (simp add: signal_def)
qed

section \<open>The handlers keep it\<close>

lemma initOnce_inv:
  assumes "pool_inv cd p"
  shows "pool_inv cd (initOnce addr nonce p)"
proof (cases "accounts p addr")
  case None
  let ?a = "\<lparr>enqueued = newAccountQueue, promoted = newAccountQueue, nextNonce = nonce\<rparr>"
  have fin: "finite (dom (accounts p))" using assms by (simp add: pool_inv_def)
  have "account_txs ?a = []" "promoted ?a = []"
    by (simp_all add: account_txs_def newAccountQueue_def heap_init_Nil)
  moreover have "account_ok addr ?a"
    by (simp add: account_ok_def account_inv_def account_txs_def newAccountQueue_def heap_init_Nil is_heap_Nil [simplified])
  ultimately show ?thesis
    using assms None by (auto simp: pool_inv_def initOnce_def total_insert [OF fin None])
next
  case (Some a)
  then show ?thesis using assms by (simp add: initOnce_def)
qed

lemma initOnce_dom: "dom (accounts (initOnce addr nonce p)) = insert addr (dom (accounts p))"
  by (auto simp: initOnce_def split: option.splits)

lemma initOnce_fields [simp]:
  "enqueueReqCh (initOnce addr nonce p) = enqueueReqCh p"
  "events (initOnce addr nonce p) = events p"
  by (simp_all add: initOnce_def split: option.splits)

lemma validateTx_nonce: "validateTx st cd p tx = (e, tx') \<Longrightarrow> txNonce tx' = txNonce tx"
  by (auto simp: validateTx_def Let_def split: if_splits option.splits sum.splits)

lemma pool_inv_request:
  assumes "pool_inv cd p" "txFrom tx \<in> dom (accounts p)" "txNonce tx \<noteq> maxNonce" "em_open em"
  shows "pool_inv cd (p\<lparr>enqueueReqCh := enqueueReqCh p @ [tx], events := em\<rparr>)"
  using assms unfolding pool_inv_def by auto

lemma addTx_inv [inv_intros]:
  assumes inv: "pool_inv cd p" and n: "txNonce tx \<noteq> maxNonce"
  shows "\<exists>r p'. addTx st cd origin tx p = Some (r, p') \<and> pool_inv cd p'"
proof -
  obtain e tx1 where v: "validateTx st cd p tx = (e, tx1)" by (cases "validateTx st cd p tx")
  let ?tx = "tx_ComputeHash (MarshalRLP cd) (keccak cd) tx1"
  let ?p = "if account_exists p (txFrom ?tx) then p else createAccountOnce st (txFrom ?tx) p"
  let ?q = "?p\<lparr>enqueueReqCh := enqueueReqCh ?p @ [?tx]\<rparr>"
  have p: "pool_inv cd ?p" "txFrom ?tx \<in> dom (accounts ?p)"
    using inv initOnce_inv [OF inv] initOnce_dom
    by (auto simp: createAccountOnce_def account_exists_def Let_def)
  have n': "txNonce ?tx \<noteq> maxNonce" using n validateTx_nonce [OF v] by (simp add: tx_ComputeHash_def)
  have "em_open (events ?q)" using p(1) by (simp add: pool_inv_def)
  then obtain em where "signal ADDED [txHash ?tx] ?q = Some (?q\<lparr>events := em\<rparr>)" "em_open em"
    by (metis signal_open)
  moreover have "pool_inv cd (?p\<lparr>enqueueReqCh := enqueueReqCh ?p @ [?tx], events := em\<rparr>)" if "em_open em" for em
    by (rule pool_inv_request [OF p n' that])
  ultimately show ?thesis
    using inv v by (cases e) (auto simp: addTx_def Let_def)
qed

lemma account_enqueue_ok:
  assumes "account_ok addr a" "txNonce tx \<noteq> maxNonce" "txFrom tx = addr" "account_enqueue a tx = Inr a'"
  shows "account_ok addr a'" "promoted a' = promoted a"
    "account_slots cd a' = account_slots cd a + slotsRequired (MarshalRLP cd) [tx]"
proof -
  have a': "a' = a\<lparr>enqueued := aq_push (enqueued a) tx\<rparr>"
    using assms(4) by (auto simp: account_enqueue_def split: if_splits)
  have m: "mset (aq_push (enqueued a) tx) = add_mset tx (mset (enqueued a))" by (rule aq.elems_push)
  have s: "set (aq_push (enqueued a) tx) = insert tx (set (enqueued a))"
    using arg_cong [OF m, of set_mset] by simp
  show "account_ok addr a'"
    using assms account_enqueue_inv [of a tx a'] s
    by (auto simp: account_ok_def account_txs_def a')
  show "promoted a' = promoted a" by (simp add: a')
  have "mset (account_txs a') = mset (account_txs a @ [tx])"
    using m by (simp add: account_txs_def a')
  from slotsRequired_mset [OF this]
  show "account_slots cd a' = account_slots cd a + slotsRequired (MarshalRLP cd) [tx]"
    by (simp add: slotsRequired_append)
qed

lemma handleEnqueueRequest_inv [inv_intros]:
  assumes inv: "pool_inv cd p" and n: "txNonce tx \<noteq> maxNonce" and d: "txFrom tx \<in> dom (accounts p)"
  shows "\<exists>p'. handleEnqueueRequest cd tx p = Some p' \<and> pool_inv cd p'"
proof -
  obtain a where a: "accounts p (txFrom tx) = Some a" using d by auto
  show ?thesis
  proof (cases "account_enqueue a tx")
    case (Inl e)
    then show ?thesis using inv a by (simp add: handleEnqueueRequest_def)
  next
    case (Inr a')
    let ?p = "p\<lparr>accounts := (accounts p)(txFrom tx \<mapsto> a')\<rparr>"
    note ok = account_enqueue_ok [OF pool_invD(1) [OF inv a] n refl Inr]
    have "em_open (events ?p)" using inv by (simp add: pool_inv_def)
    then obtain em where em: "signal ENQUEUED [txHash tx] ?p = Some (?p\<lparr>events := em\<rparr>)" "em_open em"
      by (metis signal_open)
    let ?q = "?p\<lparr>events := em, index := lookup_add [tx] (index p),
        gauge := gauge_increase (slotsRequired (MarshalRLP cd) [tx]) (gauge p)\<rparr>"
    have "pool_inv cd (?q\<lparr>promoteReqCh := promoteReqCh p @ as\<rparr>)" if "set as \<subseteq> {txFrom tx}" for as
      by (rule pool_inv_update [OF inv a ok(1)]) (use inv ok em that in \<open>auto simp: pool_inv_def\<close>)
    from this [of "[]"] this [of "[txFrom tx]"] show ?thesis
      using a em Inr by (auto simp: handleEnqueueRequest_def Let_def)
  qed
qed

lemma account_promote_ok:
  assumes ok: "account_ok addr a" and p: "account_promote a = ((num, hashes), a')"
  shows "account_ok addr a'" "account_slots cd a' = account_slots cd a"
    "account_pending a' = account_pending a + uint num"
proof -
  obtain moved where
    enq: "mset (enqueued a) = mset moved + mset (enqueued a')"
    and prom: "mset (promoted a') = mset (promoted a) + mset moved"
    and num: "num = of_nat (length moved)" and "hashes = map txHash moved"
    and run: "moved \<noteq> [] \<longrightarrow> map txNonce moved = nonce_run (txNonce (hd moved)) (length moved)"
    and "moved \<noteq> [] \<longrightarrow> aq_peek (enqueued a) = Some (hd moved) \<and> txNonce (hd moved) \<le> nextNonce a"
    and same: "moved = [] \<longrightarrow> a' = a \<and> (\<forall>first. aq_peek (enqueued a) = Some first \<longrightarrow> nextNonce a < txNonce first)"
    and nn: "nextNonce a' = (if moved = [] then nextNonce a
        else Orderings.max (nextNonce a) (txNonce (hd moved) + of_nat (length moved)))"
    by (rule account_promote_spec [OF p])
  have all: "mset (account_txs a') = mset (account_txs a)"
    using enq prom by (simp add: account_txs_def)
  show "account_ok addr a'"
    using ok account_promote_inv [OF _ p] set_eq_of_mset [OF all] by (simp add: account_ok_def)
  show "account_slots cd a' = account_slots cd a"
    by (rule slotsRequired_mset [OF all])
  have "\<forall>n\<in>set (map txNonce moved). n \<noteq> maxNonce"
    using ok arg_cong [OF enq, of set_mset] by (auto simp: account_ok_def account_inv_def account_txs_def)
  then have "length moved < 2 ^ 64"
    using run nonce_run_no_wrap [of "txNonce (hd moved)" "length moved" "length moved"]
      unat_u64_bound [of "txNonce (hd moved) + of_nat (length moved)"]
    by (cases "moved = []") auto
  moreover have "length (promoted a') = length (promoted a) + length moved"
    using arg_cong [OF prom, of size] by simp
  ultimately show "account_pending a' = account_pending a + uint num"
    by (simp add: num u64_uint_of_nat)
qed

lemma handlePromoteRequest_inv [inv_intros]:
  assumes inv: "pool_inv cd p" and d: "addr \<in> dom (accounts p)"
  shows "\<exists>p'. handlePromoteRequest addr p = Some p' \<and> pool_inv cd p'"
proof -
  obtain a where a: "accounts p addr = Some a" using d by auto
  obtain num hashes a' where pr: "account_promote a = ((num, hashes), a')" by (metis surj_pair)
  let ?p = "p\<lparr>accounts := (accounts p)(addr \<mapsto> a'), PendingTxs := PendingTxs p + uint num\<rparr>"
  note ok = account_promote_ok [OF pool_invD(1) [OF inv a] pr]
  have "em_open (events ?p)" using inv by (simp add: pool_inv_def)
  then obtain em where em: "signal PROMOTED hashes ?p = Some (?p\<lparr>events := em\<rparr>)" "em_open em"
    by (metis signal_open)
  have "pool_inv cd (?p\<lparr>events := em\<rparr>)"
    by (rule pool_inv_update [OF inv a ok(1)]) (use inv ok(2-) em in \<open>auto simp: pool_inv_def\<close>)
  then show ?thesis using a pr em by (simp add: handlePromoteRequest_def)
qed

lemma foldl_pq_push_inv: "pq_inv q \<Longrightarrow> pq_inv (foldl pq_push q txs)"
  by (induction txs arbitrary: q) (simp_all add: pq.invar_push)

lemma pool_inv_executables: "pool_inv cd p \<Longrightarrow> pq_inv q \<Longrightarrow> pool_inv cd (p\<lparr>executables := q\<rparr>)"
  by (simp add: pool_inv_def)

lemma Prepare_inv [inv_intros]: "pool_inv cd p \<Longrightarrow> pool_inv cd (Prepare keys p)"
  using foldl_pq_push_inv by (auto simp: Prepare_def Let_def pool_inv_def pq_clear_def is_heap_Nil [simplified])

lemma Peek_inv [inv_intros]: "pool_inv cd p \<Longrightarrow> pool_inv cd (snd (Peek p))"
  using pq.invar_pop by (auto simp: Peek_def pool_inv_def split: option.splits)

lemma Pop_inv [inv_intros]:
  assumes inv: "pool_inv cd p" and a: "accounts p (txFrom tx) = Some a"
    and head: "aq_peek (promoted a) = Some tx"
  shows "\<exists>p'. Pop cd tx p = Some p' \<and> pool_inv cd p'"
proof -
  obtain x q where pop: "aq_pop (promoted a) = Some (x, q)" using aq_peek_pop_ex [OF head] by blast
  have x: "x = tx" using aq_peek_pop [OF pop] head by simp
  have m: "mset (promoted a) = add_mset tx (mset q)" using aq.elems_pop [OF pop] x by simp
  have s: "set (promoted a) = insert tx (set q)" using arg_cong [OF m, of set_mset] by simp
  have len: "length (promoted a) = Suc (length q)" using arg_cong [OF m, of size] by simp
  let ?a = "a\<lparr>promoted := q\<rparr>"
  have ok: "account_ok (txFrom tx) ?a"
    using pool_invD(1) [OF inv a] aq.invar_pop [OF _ pop] s
    by (auto simp: account_ok_def account_inv_def account_txs_def)
  have "mset (account_txs a) = mset ([tx] @ account_txs ?a)" using m by (simp add: account_txs_def)
  from slotsRequired_mset [OF this, of "MarshalRLP cd"]
  have sl: "account_slots cd a = slotsRequired (MarshalRLP cd) [tx] + account_slots cd ?a"
    by (simp add: slotsRequired_append)
  let ?p = "p\<lparr>accounts := (accounts p)(txFrom tx \<mapsto> ?a),
      gauge := gauge_decrease (slotsRequired (MarshalRLP cd) [tx]) (gauge p), PendingTxs := PendingTxs p - 1\<rparr>"
  have "pool_inv cd ?p"
    by (rule pool_inv_update [OF inv a ok])
       (use inv sl len in \<open>auto simp: pool_inv_def gauge_decrease_sub\<close>)
  moreover have "pool_inv cd (?p\<lparr>executables := pq_push (executables p) t\<rparr>)" for t
    using calculation by (simp add: pool_inv_def pq.invar_push)
  ultimately show ?thesis
    using a pop by (auto simp: Pop_def Let_def split: option.split)
qed

lemma Drop_inv [inv_intros]:
  assumes inv: "pool_inv cd p" and d: "txFrom tx \<in> dom (accounts p)"
  shows "\<exists>p'. Drop cd tx p = Some p' \<and> pool_inv cd p'"
proof -
  obtain a where a: "accounts p (txFrom tx) = Some a" using d by auto
  let ?a = "a\<lparr>nextNonce := txNonce tx, promoted := [], enqueued := []\<rparr>"
  let ?p = "clearAccountQueue cd (enqueued a) (clearAccountQueue cd (promoted a) p
      \<lparr>PendingTxs := PendingTxs p - int (length (promoted a))\<rparr>)\<lparr>accounts := (accounts p)(txFrom tx \<mapsto> ?a)\<rparr>"
  have ok: "account_ok (txFrom tx) ?a"
    by (simp add: account_ok_def account_inv_def account_txs_def is_heap_Nil [simplified])
  have "em_open (events ?p)" using inv by (simp add: pool_inv_def clearAccountQueue_def)
  then obtain em where em: "signal DROPPED [txHash tx] ?p = Some (?p\<lparr>events := em\<rparr>)" "em_open em"
    by (metis signal_open)
  have "pool_inv cd (?p\<lparr>events := em\<rparr>)"
    by (rule pool_inv_update [OF inv a ok])
       (use inv em in \<open>auto simp: pool_inv_def clearAccountQueue_def gauge_decrease_sub account_txs_def
          slotsRequired_append\<close>)
  then show ?thesis
    using a em by (simp add: Drop_def aq_clear_def setNonce_def clearAccountQueue_def Let_def)
qed

lemma pool_inv_events: "pool_inv cd p \<Longrightarrow> em_open em \<Longrightarrow> pool_inv cd (p\<lparr>events := em\<rparr>)"
  by (simp add: pool_inv_def)

lemma Demote_inv [inv_intros]:
  assumes "pool_inv cd p"
  shows "\<exists>p'. Demote tx p = Some p' \<and> pool_inv cd p'"
proof -
  have "em_open (events p)" using assms by (simp add: pool_inv_def)
  then show ?thesis
    unfolding Demote_def by (metis signal_open pool_inv_events [OF assms])
qed

text \<open>Pruning one queue of an account.\<close>

lemma aq_prune_account:
  assumes "aq_prune nonce q = (pruned, rest)" "aq_inv q"
  shows "mset q = mset pruned + mset rest" "aq_inv rest" "set rest \<subseteq> set q"
    "length q = length pruned + length rest"
    "slotsRequired rlp q = slotsRequired rlp pruned + slotsRequired rlp rest"
proof -
  show m: "mset q = mset pruned + mset rest" and "aq_inv rest"
    using aq_prune_correct [OF assms(2,1)] by simp_all
  show "set rest \<subseteq> set q" using arg_cong [OF m, of set_mset] by auto
  show "length q = length pruned + length rest" using arg_cong [OF m, of size] by simp
  show "slotsRequired rlp q = slotsRequired rlp pruned + slotsRequired rlp rest"
    by (rule slotsRequired_mset_split [OF m])
qed

lemma resetAccount_inv [inv_intros]:
  assumes inv: "pool_inv cd p" and d: "addr \<in> dom (accounts p)"
  shows "\<exists>p'. resetAccount cd addr nonce p = Some p' \<and> pool_inv cd p'"
proof -
  obtain a where a: "accounts p addr = Some a" using d by auto
  have ok: "account_ok addr a" by (rule pool_invD(1) [OF inv a])
  then have h: "aq_inv (promoted a)" "aq_inv (enqueued a)" by (simp_all add: account_ok_def account_inv_def)
  obtain pp pr where prp: "aq_prune nonce (promoted a) = (pp, pr)" by (metis surj_pair)
  obtain ep er where pre: "aq_prune nonce (enqueued a) = (ep, er)" by (metis surj_pair)
  note P = aq_prune_account [OF prp h(1)] and E = aq_prune_account [OF pre h(2)]
  let ?a1 = "a\<lparr>promoted := pr\<rparr>" and ?a2 = "a\<lparr>promoted := pr, enqueued := er, nextNonce := nonce\<rparr>"
  have ok1: "account_ok addr ?a1"
    using ok P by (auto simp: account_ok_def account_inv_def account_txs_def)
  have ok2: "account_ok addr ?a2" if "nextNonce a < nonce"
    using ok P E that by (fastforce simp: account_ok_def account_inv_def account_txs_def)
  let ?p1 = "p\<lparr>accounts := (accounts p)(addr \<mapsto> ?a1), index := lookup_remove pp (index p),
      gauge := gauge_decrease (slotsRequired (MarshalRLP cd) pp) (gauge p),
      PendingTxs := PendingTxs p - int (length pp)\<rparr>"
  let ?p2 = "\<lambda>reqs. ?p1\<lparr>accounts := (accounts p)(addr \<mapsto> ?a2), index := lookup_remove ep (index ?p1),
      gauge := gauge_decrease (slotsRequired (MarshalRLP cd) ep) (gauge ?p1), promoteReqCh := promoteReqCh p @ reqs\<rparr>"
  have "pool_inv cd ?p1"
    by (rule pool_inv_update [OF inv a ok1])
       (use inv P in \<open>auto simp: pool_inv_def gauge_decrease_sub account_txs_def slotsRequired_append\<close>)
  moreover have "pool_inv cd (?p2 reqs)" if "nextNonce a < nonce" "set reqs \<subseteq> {addr}" for reqs
    by (rule pool_inv_update [OF inv a ok2])
       (use inv P E that in \<open>auto simp: pool_inv_def gauge_decrease_sub account_txs_def slotsRequired_append\<close>)
  from this [of "[]"] this [of "[addr]"]
  have "pool_inv cd (?p2 [])" "pool_inv cd (?p2 [addr])" if "nextNonce a < nonce" using that by auto
  ultimately show ?thesis
    using a prp pre by (auto simp: resetAccount_def getNonce_def setNonce_def Let_def not_le split: option.split)
qed

lemma resetAccount_dom: "resetAccount cd addr nonce p = Some p' \<Longrightarrow> dom (accounts p') = dom (accounts p)"
  by (auto simp: resetAccount_def Let_def split: prod.splits if_splits option.splits bind_splits)

lemma resetAccounts_inv [inv_intros]:
  assumes "pool_inv cd p"
  shows "\<exists>p'. resetAccounts cd nonces p = Some p' \<and> pool_inv cd p'"
  using assms
proof (induction cd nonces p rule: resetAccounts.induct)
  case (2 cd addr nonce rest p)
  show ?case
  proof (cases "account_exists p addr")
    case True
    then obtain p1 where "resetAccount cd addr nonce p = Some p1" "pool_inv cd p1"
      using resetAccount_inv [OF "2.prems", of addr nonce] by (auto simp: account_exists_def)
    with "2.IH"(2) True show ?thesis by simp
  qed (use 2 in simp)
qed simp

lemma collectNew_inv:
  "pool_inv cd p \<Longrightarrow> collectNew st root hs s p = (s', p') \<Longrightarrow> pool_inv cd p'"
  by (induction st root hs s p rule: collectNew.induct) (auto simp: pool_inv_def split: option.splits)

lemma latestNonces_old: "snd (latestNonces st root txs (ns, [])) = []"
  by (induction st root txs "(ns, [] :: (hash \<times> transaction) list)" arbitrary: ns rule: latestNonces.induct)
     (auto simp: Let_def)

lemma collectNew_old:
  "collectNew st root hs (ns, []) p = ((ns', old), p') \<Longrightarrow> old = []"
proof (induction hs arbitrary: ns p)
  case (Cons h hs)
  show ?case
  proof (cases "store_GetBlockByHash st h")
    case (Some txs)
    obtain ns1 old1 where l: "latestNonces st root txs (ns, []) = (ns1, old1)" by (metis surj_pair)
    then have "old1 = []" using latestNonces_old [of st root txs ns] by simp
    with l Some Cons show ?thesis by auto
  qed (use Cons in auto)
qed simp

text \<open>The order in which \<open>range\<close> visits a map is a permutation of its entries.\<close>

definition permutes :: "('a list \<Rightarrow> 'a list) \<Rightarrow> bool" where
  "permutes f \<longleftrightarrow> (\<forall>xs. mset (f xs) = mset xs)"

lemma ResetWithHeaders_inv [inv_intros]:
  assumes "pool_inv cd p" "permutes rangeTxs"
  shows "\<exists>p'. ResetWithHeaders st cd rangeTxs rangeNonces headers p = Some p' \<and> pool_inv cd p'"
proof -
  obtain ns old p1 where c: "collectNew st (headerStateRoot st) headers ([], []) p = ((ns, old), p1)"
    by (metis surj_pair)
  have "old = []" using collectNew_old [OF c] .
  moreover have "rangeTxs [] = []" using assms(2) unfolding permutes_def by (metis mset.simps(1) mset_zero_iff)
  moreover have "pool_inv cd p1" using collectNew_inv [OF assms(1) c] .
  ultimately show ?thesis
    using c resetAccounts_inv [of cd p1 "rangeNonces ns"]
    by (auto simp: ResetWithHeaders_def processEvent_def)
qed

section \<open>Reachable pools\<close>

text \<open>
  The clients and the handlers, one at a time. \<open>Pop\<close> is called with the transaction that is first in
  its account's promoted queue, which is how block building uses it; a transaction with the last
  nonce, \<open>2\<^sup>6\<^sup>4 - 1\<close>, is outside the model of the invariant.
\<close>

inductive pool_step :: "codec \<Rightarrow> TxPool \<Rightarrow> TxPool \<Rightarrow> bool" for cd where
  add_local: "txNonce tx \<noteq> maxNonce \<Longrightarrow> AddTx st cd tx p = Some (r, p') \<Longrightarrow> pool_step cd p p'"
| add_gossip: "(\<And>tx. UnmarshalRLP cd raw = Some tx \<Longrightarrow> txNonce tx \<noteq> maxNonce) \<Longrightarrow>
    addGossipTx st cd raw p = Some p' \<Longrightarrow> pool_step cd p p'"
| enqueue: "tx \<in> set (enqueueReqCh p) \<Longrightarrow>
    handleEnqueueRequest cd tx (p\<lparr>enqueueReqCh := remove1 tx (enqueueReqCh p)\<rparr>) = Some p' \<Longrightarrow>
    pool_step cd p p'"
| promote: "addr \<in> set (promoteReqCh p) \<Longrightarrow>
    handlePromoteRequest addr (p\<lparr>promoteReqCh := remove1 addr (promoteReqCh p)\<rparr>) = Some p' \<Longrightarrow>
    pool_step cd p p'"
| prepare: "pool_step cd p (Prepare keys p)"
| peek: "pool_step cd p (snd (Peek p))"
| pop: "accounts p (txFrom tx) = Some a \<Longrightarrow> aq_peek (promoted a) = Some tx \<Longrightarrow>
    Pop cd tx p = Some p' \<Longrightarrow> pool_step cd p p'"
| drop: "Drop cd tx p = Some p' \<Longrightarrow> pool_step cd p p'"
| demote: "Demote tx p = Some p' \<Longrightarrow> pool_step cd p p'"
| reset: "permutes rangeTxs \<Longrightarrow>
    ResetWithHeaders st cd rangeTxs rangeNonces headers p = Some p' \<Longrightarrow> pool_step cd p p'"
| subscribe: "pool_step cd p (p\<lparr>events := em_subscribe uuid types (events p)\<rparr>)"
| cancel: "cancelSubscription sid (events p) = Some em \<Longrightarrow> pool_step cd p (p\<lparr>events := em\<rparr>)"

inductive pool_reachable :: "codec \<Rightarrow> TxPool \<Rightarrow> bool" for cd where
  init: "pool_reachable cd (NewTxPool network config)"
| init_dev: "pool_reachable cd (EnableDev (NewTxPool network config))"
| step: "pool_reachable cd p \<Longrightarrow> pool_step cd p p' \<Longrightarrow> pool_reachable cd p'"

lemma pool_inv_fields:
  assumes "pool_inv cd p"
  shows "pool_inv cd (p\<lparr>enqueueReqCh := remove1 tx (enqueueReqCh p)\<rparr>)"
    "pool_inv cd (p\<lparr>promoteReqCh := remove1 addr (promoteReqCh p)\<rparr>)"
    "pool_inv cd (p\<lparr>topic := tp\<rparr>)"
  using assms set_remove1_subset unfolding pool_inv_def by fastforce+

lemma AddTx_inv [inv_intros]:
  assumes "pool_inv cd p" "txNonce tx \<noteq> maxNonce"
  shows "\<exists>r p'. AddTx st cd tx p = Some (r, p') \<and> pool_inv cd p'"
proof -
  obtain e tx' p' where "addTx st cd local_tx tx p = Some ((e, tx'), p')" "pool_inv cd p'"
    using addTx_inv [OF assms, of st local_tx] by (metis surj_pair)
  then show ?thesis using pool_inv_fields(3)
    by (auto simp: AddTx_def split: option.split)
qed

lemma addGossipTx_inv [inv_intros]:
  assumes "pool_inv cd p" "\<And>tx. UnmarshalRLP cd raw = Some tx \<Longrightarrow> txNonce tx \<noteq> maxNonce"
  shows "\<exists>p'. addGossipTx st cd raw p = Some p' \<and> pool_inv cd p'"
proof (cases "UnmarshalRLP cd raw")
  case (Some tx)
  then obtain r p' where "addTx st cd gossip tx p = Some (r, p')" "pool_inv cd p'"
    using addTx_inv [OF assms(1) assms(2) [OF Some], of st gossip] by blast
  with Some assms(1) show ?thesis by (auto simp: addGossipTx_def)
qed (use assms(1) in \<open>simp add: addGossipTx_def\<close>)

lemma set_alist_update: "set (AList.update k v kvs) \<subseteq> insert (k, v) (set kvs)"
  by (induction kvs) auto

lemma em_subscribe_open: "em_open em \<Longrightarrow> em_open (em_subscribe uuid types em)"
  unfolding em_open_def em_subscribe_def
  using set_alist_update by (fastforce simp: new_subscription_def)

lemma cancelSubscription_open: "em_open em \<Longrightarrow> cancelSubscription sid em = Some em' \<Longrightarrow> em_open em'"
  by (auto simp: em_open_def cancelSubscription_def AList.delete_eq split: option.splits)

lemma NewTxPool_inv: "pool_inv cd (NewTxPool network config)"
  by (simp add: pool_inv_def NewTxPool_def newEventManager_def em_open_def newPricedQueue_def
      heap_init_Nil is_heap_Nil [simplified])

lemma pool_step_inv:
  assumes "pool_step cd p p'" "pool_inv cd p"
  shows "pool_inv cd p'"
  using assms
proof (cases rule: pool_step.cases)
  case (add_local tx st r)
  then show ?thesis using AddTx_inv [OF assms(2), of tx st] by auto
next
  case (add_gossip raw st)
  then show ?thesis using addGossipTx_inv [OF assms(2), of raw st] by auto
next
  case (enqueue tx)
  then have "txNonce tx \<noteq> maxNonce" "txFrom tx \<in> dom (accounts p)"
    using assms(2) by (auto simp: pool_inv_def)
  then show ?thesis
    using enqueue handleEnqueueRequest_inv [OF pool_inv_fields(1) [OF assms(2)], of tx tx] by auto
next
  case (promote addr)
  then have "addr \<in> dom (accounts p)" using assms(2) by (auto simp: pool_inv_def)
  then show ?thesis
    using promote handlePromoteRequest_inv [OF pool_inv_fields(2) [OF assms(2)], of addr addr] by auto
next
  case (drop tx)
  then have "txFrom tx \<in> dom (accounts p)" by (auto simp: Drop_def split: bind_splits)
  then show ?thesis using drop Drop_inv [OF assms(2), of tx] by auto
next
  case (pop tx a)
  then show ?thesis using Pop_inv [OF assms(2), of tx a] by auto
next
  case (reset rangeTxs st rangeNonces headers)
  then show ?thesis using ResetWithHeaders_inv [OF assms(2), of rangeTxs st rangeNonces headers] by auto
next
  case (demote tx)
  then show ?thesis using Demote_inv [OF assms(2), of tx] by auto
next
  case (subscribe uuid types)
  then show ?thesis using assms(2) em_subscribe_open by (auto simp: pool_inv_def)
next
  case (cancel sid em)
  then show ?thesis using assms(2) cancelSubscription_open by (auto simp: pool_inv_def)
qed (simp_all add: Prepare_inv Peek_inv)

lemma pool_reachable_inv: "pool_reachable cd p \<Longrightarrow> pool_inv cd p"
proof (induction rule: pool_reachable.induct)
  case (init_dev network config)
  then show ?case using NewTxPool_inv [of cd network config] by (simp add: EnableDev_def pool_inv_def)
qed (auto simp: NewTxPool_inv pool_step_inv)

section \<open>Block building takes the best price\<close>

lemma aq_peek_Nil [simp]: "aq_peek [] = None"
  by (simp add: aq_peek_def)

lemma getPrimaries_set:
  "set (getPrimaries keys p) = {tx. \<exists>key\<in>set keys. \<exists>a. accounts p key = Some a \<and> aq_peek (promoted a) = Some tx}"
  by (induction keys p rule: getPrimaries.induct) (auto split: option.splits)

lemma foldl_pq_push_mset: "mset (foldl pq_push q txs) = mset q + mset txs"
  by (induction txs arbitrary: q) (simp_all add: pq.elems_push)

lemma Prepare_executables:
  assumes "length (executables p) < 2 ^ 64"
  shows "mset (executables (Prepare keys p)) = mset (getPrimaries keys p)"
    "pq_inv (executables (Prepare keys p))"
proof -
  have g: "getPrimaries keys (p\<lparr>executables := q\<rparr>) = getPrimaries keys p" for q
    by (induction keys p rule: getPrimaries.induct) (auto split: option.splits)
  have *: "executables (Prepare keys p) = foldl pq_push [] (getPrimaries keys p)"
    using assms u64_uint_of_nat [OF assms]
    by (auto simp: Prepare_def Let_def pq_clear_def pq_length_def g)
  show "mset (executables (Prepare keys p)) = mset (getPrimaries keys p)"
    by (simp add: * foldl_pq_push_mset)
  show "pq_inv (executables (Prepare keys p))"
    unfolding * by (rule foldl_pq_push_inv) (simp add: is_heap_Nil [simplified])
qed

section \<open>A concrete pool\<close>

text \<open>
  One transaction sent by the account \<open>5\<close>: the pool after \<open>AddTx\<close>, after the enqueue handler and
  after the promotion handler.
\<close>

definition ex_codec :: codec where
  "ex_codec = \<lparr>MarshalRLP = (\<lambda>t. [1, 2, 3]), UnmarshalRLP = (\<lambda>b. None), keccak = (\<lambda>b. 7)\<rparr>"

definition ex_store :: store where
  "ex_store = \<lparr>headerStateRoot = 1, headerGasLimit = 1000000, store_GetNonce = (\<lambda>r a. 0),
     store_GetBalance = (\<lambda>r a. Some 1000000), store_GetBlockByHash = (\<lambda>h. None),
     signer_Sender = (\<lambda>t. Some 5), forks_Homestead = True, forks_Istanbul = True\<rparr>"

definition ex_config :: Config where
  "ex_config = \<lparr>cfgPriceLimit = 1, cfgMaxSlots = 10, cfgSealing = True\<rparr>"

definition ex_tx :: transaction where
  "ex_tx = tx0\<lparr>txTo := Some 9, txGas := 30000, txGasPrice := 2\<rparr>"

definition ex_tx1 :: transaction where
  "ex_tx1 = ex_tx\<lparr>txNonce := 1, txHash := 8, txFrom := 5\<rparr>"

definition ex_pool0 :: TxPool where
  "ex_pool0 = NewTxPool False ex_config"

definition ex_pool1 :: TxPool where
  "ex_pool1 = snd (the (AddTx ex_store ex_codec ex_tx ex_pool0))"

definition ex_pool2 :: TxPool where
  "ex_pool2 = the (handleEnqueueRequest ex_codec (hd (enqueueReqCh ex_pool1))
                     (ex_pool1\<lparr>enqueueReqCh := tl (enqueueReqCh ex_pool1)\<rparr>))"

definition ex_pool3 :: TxPool where
  "ex_pool3 = the (handlePromoteRequest 5 (ex_pool2\<lparr>promoteReqCh := []\<rparr>))"

lemma ex_values:
  "enqueueReqCh ex_pool1 = [ex_tx\<lparr>txHash := 7, txFrom := 5\<rparr>]"
  "promoteReqCh ex_pool2 = [5]"
  "PendingTxs ex_pool3 = 1" "height (gauge ex_pool3) = 1" "executables ex_pool3 = []"
  "snd (fst (the (AddTx ex_store ex_codec ex_tx ex_pool0))) = ex_tx\<lparr>txHash := 7, txFrom := 5\<rparr>"
  by code_simp+

lemma ex_steps:
  "\<exists>r. AddTx ex_store ex_codec ex_tx ex_pool0 = Some (r, ex_pool1)"
  "handleEnqueueRequest ex_codec (ex_tx\<lparr>txHash := 7, txFrom := 5\<rparr>)
     (ex_pool1\<lparr>enqueueReqCh := []\<rparr>) = Some ex_pool2"
  "handlePromoteRequest 5 (ex_pool2\<lparr>promoteReqCh := []\<rparr>) = Some ex_pool3"
proof -
  have "\<not> Option.is_none (AddTx ex_store ex_codec ex_tx ex_pool0)" by code_simp
  then show "\<exists>r. AddTx ex_store ex_codec ex_tx ex_pool0 = Some (r, ex_pool1)"
    by (auto simp: ex_pool1_def Option.is_none_def)
  have "\<not> Option.is_none (handleEnqueueRequest ex_codec (ex_tx\<lparr>txHash := 7, txFrom := 5\<rparr>)
     (ex_pool1\<lparr>enqueueReqCh := []\<rparr>))" by code_simp
  then show "handleEnqueueRequest ex_codec (ex_tx\<lparr>txHash := 7, txFrom := 5\<rparr>)
     (ex_pool1\<lparr>enqueueReqCh := []\<rparr>) = Some ex_pool2"
    by (auto simp: ex_pool2_def ex_values Option.is_none_def)
  have "\<not> Option.is_none (handlePromoteRequest 5 (ex_pool2\<lparr>promoteReqCh := []\<rparr>))" by code_simp
  then show "handlePromoteRequest 5 (ex_pool2\<lparr>promoteReqCh := []\<rparr>) = Some ex_pool3"
    by (auto simp: ex_pool3_def Option.is_none_def)
qed

lemma ex_reachable:
  "pool_reachable ex_codec ex_pool1" "pool_reachable ex_codec ex_pool2" "pool_reachable ex_codec ex_pool3"
proof -
  have 0: "pool_reachable ex_codec ex_pool0" by (simp add: ex_pool0_def pool_reachable.init)
  have n: "txNonce ex_tx \<noteq> maxNonce" by code_simp
  show 1: "pool_reachable ex_codec ex_pool1"
    using ex_steps(1) pool_reachable.step [OF 0 pool_step.add_local [OF n]] by blast
  show 2: "pool_reachable ex_codec ex_pool2"
    by (rule pool_reachable.step [OF 1 pool_step.enqueue]) (use ex_steps(2) in \<open>auto simp: ex_values\<close>)
  show "pool_reachable ex_codec ex_pool3"
    by (rule pool_reachable.step [OF 2 pool_step.promote]) (use ex_steps(3) in \<open>auto simp: ex_values\<close>)
qed

text \<open>The handlers create no account but the sender's.\<close>

lemma signal_accounts: "signal t hs p = Some p' \<Longrightarrow> accounts p' = accounts p"
  by (auto simp: signal_def split: bind_splits)

lemma AddTx_dom:
  assumes "AddTx st cd tx p = Some ((e, tx'), p')"
  shows "dom (accounts p') \<subseteq> insert (txFrom tx') (dom (accounts p))"
  using assms
  by (auto simp: AddTx_def addTx_def Let_def createAccountOnce_def initOnce_def
      dest!: signal_accounts split: bind_splits option.splits if_splits prod.splits)

lemma handler_dom:
  "handleEnqueueRequest cd tx p = Some p' \<Longrightarrow> dom (accounts p') = dom (accounts p)"
  "handlePromoteRequest addr p = Some p' \<Longrightarrow> dom (accounts p') = dom (accounts p)"
  by (auto simp: handleEnqueueRequest_def handlePromoteRequest_def Let_def dest!: signal_accounts
      split: bind_splits option.splits if_splits prod.splits sum.splits)

lemma ex_dom: "dom (accounts ex_pool1) = {5}" "dom (accounts ex_pool2) = {5}" "dom (accounts ex_pool3) = {5}"
proof -
  obtain e tx' where a: "AddTx ex_store ex_codec ex_tx ex_pool0 = Some ((e, tx'), ex_pool1)"
    using ex_steps(1) by auto
  have "txFrom tx' = 5" using a ex_values by simp
  moreover have "\<not> Option.is_none (accounts ex_pool1 5)" by code_simp
  moreover have "accounts ex_pool0 = Map.empty" by (simp add: ex_pool0_def NewTxPool_def)
  ultimately show 1: "dom (accounts ex_pool1) = {5}"
    using AddTx_dom [OF a] by (auto simp: Option.is_none_def)
  show 2: "dom (accounts ex_pool2) = {5}" using handler_dom(1) [OF ex_steps(2)] 1 by simp
  show "dom (accounts ex_pool3) = {5}" using handler_dom(2) [OF ex_steps(3)] 2 by simp
qed

section \<open>Properties\<close>

text \<open>A chain of checks succeeds iff each check does.\<close>

lemma check_simps:
  "((if c then (Some e, x) else y) = (None, z)) \<longleftrightarrow> \<not> c \<and> y = (None, z)"
  "((case m of None \<Rightarrow> (Some e, x) | Some v \<Rightarrow> f v) = (None, z)) \<longleftrightarrow> (\<exists>v. m = Some v \<and> f v = (None, z))"
  "((case s of Inl u \<Rightarrow> (Some e, x) | Inr w \<Rightarrow> g w) = (None, z)) \<longleftrightarrow> (\<exists>w. s = Inr w \<and> g w = (None, z))"
  by (auto split: option.splits sum.splits)

text \<open>C11. In every reachable pool each account is well formed (both queues are heaps, every promoted
  nonce is below the next expected one, every transaction belongs to the account's address), the
  gauge is the sum (modulo \<open>2\<^sup>6\<^sup>4\<close>) of the slots of the transactions held, and the pending metric is
  the number of promoted transactions.\<close>

theorem pool_accounting:
  assumes "pool_reachable cd p"
  shows "(\<forall>addr a. accounts p addr = Some a \<longrightarrow>
            aq_inv (enqueued a) \<and> aq_inv (promoted a) \<and>
            (\<forall>t\<in>set (promoted a). txNonce t < nextNonce a) \<and>
            (\<forall>t\<in>set (promoted a @ enqueued a). txFrom t = addr)) \<and>
         gauge_read (gauge p) = total (account_slots cd) (accounts p) \<and>
         PendingTxs p = total account_pending (accounts p)"
  using pool_reachable_inv [OF assms]
  by (auto simp: pool_inv_def account_ok_def account_inv_def account_txs_def gauge_read_def)

theorem pool_accounting_witness:
  "pool_reachable ex_codec ex_pool3 \<and> total account_pending (accounts ex_pool3) = 1 \<and>
   total (account_slots ex_codec) (accounts ex_pool3) = 1"
  using pool_accounting [OF ex_reachable(3)] ex_reachable(3) by (simp add: ex_values gauge_read_def)









lemma aq_prune_filter:
  assumes "aq_inv q" "aq_prune nonce q = (pruned, rest)"
  shows "mset rest = filter_mset (\<lambda>t. nonce \<le> txNonce t) (mset q)"
proof -
  note P = aq_prune_correct [OF assms]
  then have "filter (\<lambda>t. nonce \<le> txNonce t) pruned = []" "filter (\<lambda>t. nonce \<le> txNonce t) rest = rest"
    by (auto simp: filter_empty_conv filter_id_conv not_le)
  moreover have "mset q = mset (pruned @ rest)" using P by simp
  ultimately show ?thesis by (metis append_Nil filter_append mset_filter)
qed

text \<open>C16. Following a new block: resetting an account to the state's nonce keeps exactly the promoted
  transactions from that nonce on. If the nonce is beyond the expected one, the enqueued transactions
  are cut in the same way, the expected nonce becomes the state's, and a promotion is requested if
  one of them has it. No other account changes.\<close>

theorem resetAccount_aligns:
  assumes "pool_reachable cd p" "accounts p addr = Some a" "resetAccount cd addr nonce p = Some p'"
  shows "\<exists>a'. accounts p' = (accounts p)(addr \<mapsto> a') \<and>
     mset (promoted a') = filter_mset (\<lambda>t. nonce \<le> txNonce t) (mset (promoted a)) \<and>
     (if nonce \<le> nextNonce a then enqueued a' = enqueued a \<and> nextNonce a' = nextNonce a
      else mset (enqueued a') = filter_mset (\<lambda>t. nonce \<le> txNonce t) (mset (enqueued a)) \<and>
           nextNonce a' = nonce \<and>
           ((\<exists>t\<in>set (enqueued a'). txNonce t = nonce) \<longrightarrow> addr \<in> set (promoteReqCh p')))"
proof -
  have "account_inv a" by (rule pool_invD(2) [OF pool_reachable_inv [OF assms(1)] assms(2)])
  then have h: "aq_inv (promoted a)" "aq_inv (enqueued a)" by (simp_all add: account_inv_def)
  obtain pp pr where prp: "aq_prune nonce (promoted a) = (pp, pr)" by (metis surj_pair)
  obtain ep er where pre: "aq_prune nonce (enqueued a) = (ep, er)" by (metis surj_pair)
  note P = aq_prune_filter [OF h(1) prp] and E = aq_prune_filter [OF h(2) pre]
  have least: "\<exists>first. aq_peek er = Some first \<and> txNonce first = nonce"
    if t: "t \<in> set er" "txNonce t = nonce" for t
  proof -
    obtain first where f: "aq_peek er = Some first" using t(1) by (cases "aq_peek er") auto
    then have "txNonce first \<le> nonce" using aq_peek_least [OF aq_prune_account(2) [OF pre h(2)] f t(1)] t(2) by simp
    moreover have "nonce \<le> txNonce first"
      using aq_peek_in [OF f] aq_prune_correct [OF h(2) pre] by blast
    ultimately show ?thesis using f by simp
  qed
  show ?thesis
  proof (cases "nonce \<le> nextNonce a")
    case True
    then have "accounts p' = (accounts p)(addr \<mapsto> a\<lparr>promoted := pr\<rparr>)"
      using assms(2,3) prp by (auto simp: resetAccount_def getNonce_def)
    with True P show ?thesis by (intro exI [of _ "a\<lparr>promoted := pr\<rparr>"]) simp
  next
    case False
    let ?a = "a\<lparr>promoted := pr, enqueued := er, nextNonce := nonce\<rparr>"
    let ?ready = "case aq_peek er of None \<Rightarrow> False | Some first \<Rightarrow> txNonce first = nonce"
    have "accounts p' = (accounts p)(addr \<mapsto> ?a) \<and> (?ready \<longrightarrow> addr \<in> set (promoteReqCh p'))"
      using assms(2,3) prp pre False
      by (cases "aq_peek er") (auto simp: resetAccount_def getNonce_def setNonce_def Let_def split: if_splits)
    moreover have "?ready" if "\<exists>t\<in>set er. txNonce t = nonce" using that least by fastforce
    ultimately show ?thesis using False P E by (intro exI [of _ ?a]) simp
  qed
qed

theorem resetAccount_aligns_witness:
  "\<exists>a'. accounts (the (resetAccount ex_codec 5 1 ex_pool3)) 5 = Some a' \<and> promoted a' = [] \<and> nextNonce a' = 1"
proof -
  obtain a where a: "accounts ex_pool3 5 = Some a" using ex_dom(3) by auto
  have "\<not> Option.is_none (resetAccount ex_codec 5 1 ex_pool3)" by code_simp
  then have r: "resetAccount ex_codec 5 1 ex_pool3 = Some (the (resetAccount ex_codec 5 1 ex_pool3))"
    by (auto simp: Option.is_none_def)
  have "nextNonce (the (accounts ex_pool3 5)) = 1" "map txNonce (promoted (the (accounts ex_pool3 5))) = [0]"
    by code_simp+
  then have n: "nextNonce a = 1" "map txNonce (promoted a) = [0]" using a by simp_all
  then obtain t where "promoted a = [t]" "txNonce t = 0" by auto
  then show ?thesis
    using resetAccount_aligns [OF ex_reachable(3) a r] n by auto
qed

text \<open>
  Two transactions with one nonce: the first promotion stops after the first of them although the
  next nonce is there too, because the second one is now at the head of the queue with a nonce
  below the expected one.
\<close>

lemma promote_duplicate_stalls:
  "let a = \<lparr>enqueued = aq_push (aq_push (aq_push [] ex_tx) (ex_tx\<lparr>txHash := 1\<rparr>)) ex_tx1,
            promoted = [], nextNonce = 0\<rparr>;
       ((num, hs), a') = account_promote a
   in num = 1 \<and> nextNonce a' = 1 \<and> ex_tx1 \<in> set (enqueued a') \<and> txNonce ex_tx1 = nextNonce a'"
  by code_simp

end
