(* ===== verification/BftValidators.thy ===== *)
theory BftValidators
  imports HexText "HOL-Library.Signed_Division"
begin

text \<open>
  The validator set of \<open>consensus/pvbft/validator.go\<close>: membership, proposer selection, deletion (with
  Go's in-place slice arithmetic), the number of tolerated faults, and the counting argument behind
  the quorum size.
\<close>

section \<open>The validator set\<close>

record ValidatorSet =
  stakeTotal :: int
  validators :: "address list"
  randPools :: "address list"
  stakeList :: "address \<rightharpoonup> int"

definition NewValidatorSet :: ValidatorSet where
  "NewValidatorSet = \<lparr>stakeTotal = 0, validators = [], randPools = [], stakeList = Map.empty\<rparr>"

definition AppendStakeList :: "address \<Rightarrow> int \<Rightarrow> ValidatorSet \<Rightarrow> ValidatorSet" where
  "AppendStakeList account amount v = v\<lparr>stakeList := (stakeList v)(account \<mapsto> amount)\<rparr>"

definition vs_Len :: "ValidatorSet \<Rightarrow> int" where
  "vs_Len v = int (length (validators v))"

definition vs_Plen :: "ValidatorSet \<Rightarrow> int" where
  "vs_Plen v = int (length (randPools v))"

definition calcPooLen :: "ValidatorSet \<Rightarrow> u64" where
  "calcPooLen v =
     (let vLen = vs_Len v;
          bmod = vLen div 100 * 100;
          pooLen = (if bmod = 0 then 0 else vLen - vLen mod bmod)
      in word_of_int (pooLen + 100))"

fun index_from :: "int \<Rightarrow> address \<Rightarrow> address list \<Rightarrow> int" where
  "index_from indx addr [] = - 1"
| "index_from indx addr (i # rest) = (if i = addr then indx else index_from (indx + 1) addr rest)"

definition vs_Index :: "address \<Rightarrow> ValidatorSet \<Rightarrow> int" where
  "vs_Index addr v = index_from 0 addr (validators v)"

definition vs_Includes :: "address \<Rightarrow> ValidatorSet \<Rightarrow> bool" where
  "vs_Includes addr v \<longleftrightarrow> vs_Index addr v \<noteq> - 1"

text \<open>\<open>None\<close>: division by zero or index out of range.\<close>

definition pick_validator :: "u64 \<Rightarrow> ValidatorSet \<Rightarrow> address option" where
  "pick_validator seed v =
     (let n = (word_of_int (vs_Len v) :: u64)
      in if n = 0 then None
         else let pick = seed mod n
              in if unat pick < length (validators v) then Some (validators v ! unat pick) else None)"

definition vs_CalcProposerPoa :: "u64 \<Rightarrow> address \<Rightarrow> ValidatorSet \<Rightarrow> address option" where
  "vs_CalcProposerPoa round lastProposer v =
     (let seed =
        (if lastProposer = ZeroAddress then round
         else let indx = vs_Index lastProposer v;
                  offset = (if indx \<noteq> - 1 then indx else 0)
              in word_of_int offset + round + 1)
      in pick_validator seed v)"

definition vs_CalcProposer :: "u64 \<Rightarrow> ValidatorSet \<Rightarrow> address option" where
  "vs_CalcProposer randInt v = pick_validator randInt v"

definition vs_Add :: "address \<Rightarrow> ValidatorSet \<Rightarrow> ValidatorSet" where
  "vs_Add addr v = v\<lparr>validators := validators v @ [addr]\<rparr>"

definition SetValidators :: "address list \<Rightarrow> ValidatorSet \<Rightarrow> ValidatorSet" where
  "SetValidators vs v = v\<lparr>validators := vs\<rparr>"

definition SetStakeTotal :: "int \<Rightarrow> ValidatorSet \<Rightarrow> ValidatorSet" where
  "SetStakeTotal t v = v\<lparr>stakeTotal := t\<rparr>"

definition GetValidators :: "ValidatorSet \<Rightarrow> address list" where
  "GetValidators v = validators v"

text \<open>
  \<open>Del\<close> ranges over the slice header it started with while it shifts the elements of the backing
  array: \<open>arr\<close> is the array, \<open>m\<close> the current length of the slice. An index beyond the current
  length makes \<open>v.validators[indx+1:]\<close> panic.
\<close>

fun del_loop :: "address \<Rightarrow> nat \<Rightarrow> nat \<Rightarrow> address list \<Rightarrow> nat \<Rightarrow> (address list \<times> nat) option" where
  "del_loop addr 0 indx arr m = Some (arr, m)"
| "del_loop addr (Suc left) indx arr m =
     (if arr ! indx = addr
      then if m < indx + 1 then None
           else del_loop addr left (indx + 1)
                  (take indx arr @ take (m - (indx + 1)) (drop (indx + 1) arr) @ drop (m - 1) arr) (m - 1)
      else del_loop addr left (indx + 1) arr m)"

definition del_slice :: "address \<Rightarrow> address list \<Rightarrow> address list option" where
  "del_slice addr xs =
     map_option (\<lambda>(arr, m). take m arr) (del_loop addr (length xs) 0 xs (length xs))"

definition vs_Del :: "address \<Rightarrow> ValidatorSet \<Rightarrow> ValidatorSet option" where
  "vs_Del addr v = map_option (\<lambda>xs. v\<lparr>validators := xs\<rparr>) (del_slice addr (validators v))"

fun equal_from :: "address list \<Rightarrow> address list \<Rightarrow> bool" where
  "equal_from (x # xs) (y # ys) = (if x \<noteq> y then False else equal_from xs ys)"
| "equal_from _ _ = True"

definition vs_Equal :: "address list \<Rightarrow> ValidatorSet \<Rightarrow> bool" where
  "vs_Equal vv v = (if length (validators v) \<noteq> length vv then False else equal_from (validators v) vv)"

text \<open>Go's division truncates towards zero.\<close>

definition MaxFaulty :: "nat \<Rightarrow> int" where
  "MaxFaulty n = (int n - 1) sdiv 3"

definition vs_MaxFaultyNodes :: "ValidatorSet \<Rightarrow> int" where
  "vs_MaxFaultyNodes v = MaxFaulty (length (validators v))"

section \<open>Membership and proposers\<close>

lemma index_from_spec:
  "0 \<le> k \<Longrightarrow> index_from k addr xs =
     (if addr \<in> set xs then k + int (length (takeWhile (\<lambda>x. x \<noteq> addr) xs)) else - 1)"
  by (induction xs arbitrary: k) auto

lemma vs_Index_spec:
  "vs_Index addr v =
     (if addr \<in> set (validators v) then int (length (takeWhile (\<lambda>x. x \<noteq> addr) (validators v))) else - 1)"
  by (simp add: vs_Index_def index_from_spec)

lemma vs_Includes_iff [simp]: "vs_Includes addr v \<longleftrightarrow> addr \<in> set (validators v)"
  by (auto simp: vs_Includes_def vs_Index_spec)

lemma equal_from_iff: "length xs = length ys \<Longrightarrow> equal_from xs ys \<longleftrightarrow> xs = ys"
  by (induction xs ys rule: list_induct2) auto

lemma vs_Equal_iff: "vs_Equal vv v \<longleftrightarrow> validators v = vv"
  using equal_from_iff by (auto simp: vs_Equal_def)

lemma pick_validator_spec:
  assumes "validators v \<noteq> []" "length (validators v) < 2 ^ 64"
  shows "pick_validator seed v = Some (validators v ! (unat seed mod length (validators v)))"
proof -
  let ?n = "word_of_int (vs_Len v) :: u64"
  have n: "unat ?n = length (validators v)"
    using assms(2) by (simp add: vs_Len_def unat_of_nat)
  then have "?n \<noteq> 0" using assms(1) by (metis length_0_conv unat_0)
  moreover have "unat (seed mod ?n) = unat seed mod length (validators v)" by (simp add: unat_mod n)
  ultimately show ?thesis using assms(1) by (simp add: pick_validator_def Let_def)
qed

section \<open>Deletion\<close>

lemma del_loop_skip:
  assumes "\<forall>i. indx \<le> i \<and> i < indx + left \<longrightarrow> arr ! i \<noteq> addr"
  shows "del_loop addr left indx arr m = Some (arr, m)"
  using assms by (induction left arbitrary: indx) auto

lemma del_slice_absent: "addr \<notin> set xs \<Longrightarrow> del_slice addr xs = Some xs"
  by (subst del_slice_def, subst del_loop_skip) (auto dest: nth_mem)

lemma del_loop_before:
  assumes "addr \<notin> set us" "\<forall>i<length us. arr ! (k + i) = us ! i"
  shows "del_loop addr (length us + l) k arr m = del_loop addr l (k + length us) arr m"
  using assms
proof (induction us arbitrary: k)
  case (Cons u us)
  have "arr ! k = u" using Cons.prems(2) by (metis add.right_neutral length_greater_0_conv list.distinct(1) nth_Cons_0)
  moreover have "\<forall>i<length us. arr ! (Suc k + i) = us ! i"
    using Cons.prems(2) by (metis add_Suc_right add_Suc_shift length_Cons not_less_eq nth_Cons_Suc)
  ultimately show ?case using Cons.prems(1) Cons.IH [of "Suc k"] by auto
qed simp

lemma del_slice_once:
  assumes "addr \<notin> set us" "addr \<notin> set ws"
  shows "del_slice addr (us @ addr # ws) = Some (us @ ws)"
proof -
  let ?arr = "us @ addr # ws" and ?n = "length us + Suc (length ws)"
  let ?arr' = "us @ ws @ drop (length us + length ws) ?arr"
  have "del_loop addr ?n 0 ?arr ?n = del_loop addr (Suc (length ws)) (length us) ?arr ?n"
    using del_loop_before [of addr us ?arr 0 "Suc (length ws)"] assms(1)
    by (simp add: nth_append del: del_loop.simps)
  also have "\<dots> = del_loop addr (length ws) (length us + 1) ?arr' (length us + length ws)"
    by simp
  also have "\<dots> = Some (?arr', length us + length ws)"
  proof (rule del_loop_skip, intro allI impI)
    fix i
    assume i: "length us + 1 \<le> i \<and> i < length us + 1 + length ws"
    show "?arr' ! i \<noteq> addr"
    proof (cases "i < length us + length ws")
      case True
      then show ?thesis using i assms(2) by (auto simp: nth_append dest: nth_mem)
    next
      case False
      then have i': "i = length us + length ws" using i by simp
      then have ne: "ws \<noteq> []" using i by auto
      have "?arr' ! i = ?arr ! (length us + length ws)"
        using i' ne by (simp add: nth_append)
      also have "\<dots> = last ws" using ne by (simp add: nth_append last_conv_nth nth_Cons')
      finally show ?thesis using assms(2) ne by (metis last_in_set)
    qed
  qed
  finally show ?thesis by (simp add: del_slice_def)
qed

lemma vs_Del_distinct:
  assumes "distinct (validators v)"
  shows "vs_Del addr v = Some (v\<lparr>validators := remove1 addr (validators v)\<rparr>)"
proof (cases "addr \<in> set (validators v)")
  case True
  then obtain us ws where s: "validators v = us @ addr # ws" "addr \<notin> set us"
    by (meson split_list_first)
  moreover have "addr \<notin> set ws" using assms s by auto
  ultimately show ?thesis by (simp add: vs_Del_def del_slice_once remove1_append)
next
  case False
  then show ?thesis by (simp add: vs_Del_def del_slice_absent remove1_idem)
qed

text \<open>A validator that is listed twice makes the deletion panic.\<close>

lemma vs_Del_duplicate_panics: "vs_Del 7 (NewValidatorSet\<lparr>validators := [7, 7]\<rparr>) = None"
  by code_simp

section \<open>Quorums\<close>

lemma MaxFaulty_pos: "0 < n \<Longrightarrow> MaxFaulty n = int ((n - 1) div 3)"
  by (cases "n = 1") (auto simp: MaxFaulty_def signed_divide_int_eq_divide_int zdiv_int of_nat_diff)

lemma MaxFaulty_bounds: "0 \<le> MaxFaulty n" "0 < n \<Longrightarrow> 3 * MaxFaulty n + 1 \<le> int n"
proof -
  show 1: "0 < n \<Longrightarrow> 3 * MaxFaulty n + 1 \<le> int n"
    unfolding MaxFaulty_pos by linarith
  show "0 \<le> MaxFaulty n"
    by (cases "n = 0") (simp_all add: MaxFaulty_pos, simp add: MaxFaulty_def signed_divide_int_def)
qed

lemma MaxFaulty_3f1: "MaxFaulty (Suc (3 * f)) = int f"
  by (simp add: MaxFaulty_pos)

lemma card_intersection:
  assumes "finite V" "A \<subseteq> V" "B \<subseteq> V"
  shows "card A + card B \<le> card V + card (A \<inter> B)"
proof -
  have "finite A" "finite B" using assms finite_subset by auto
  then have "card A + card B = card (A \<union> B) + card (A \<inter> B)" by (rule card_Un_Int)
  moreover have "card (A \<union> B) \<le> card V" using assms by (intro card_mono) auto
  ultimately show ?thesis by simp
qed

text \<open>With \<open>3F + 1\<close> validators two quorums of \<open>2F + 1\<close> share more than \<open>F\<close> members.\<close>

lemma quorum_intersection:
  assumes "finite V" "A \<subseteq> V" "B \<subseteq> V" "card V = 3 * f + 1"
    and "2 * MaxFaulty (card V) < int (card A)" "2 * MaxFaulty (card V) < int (card B)"
  shows "f < card (A \<inter> B)"
  using card_intersection [OF assms(1-3)] assms(4-6) by (simp add: MaxFaulty_3f1)

text \<open>The bound fails for other sizes: six validators have two disjoint quorums.\<close>

lemma quorum_six_disjoint:
  "\<exists>V A B :: nat set. finite V \<and> card V = 6 \<and> A \<subseteq> V \<and> B \<subseteq> V \<and>
     2 * MaxFaulty (card V) < int (card A) \<and> 2 * MaxFaulty (card V) < int (card B) \<and> A \<inter> B = {}"
proof -
  have "card {0::nat..<6} = 6" "MaxFaulty 6 = 1" by (simp_all add: MaxFaulty_def signed_divide_int_def)
  then show ?thesis
    by (intro exI [of _ "{0..<6}"] exI [of _ "{0..<3}"] exI [of _ "{3..<6}"]) auto
qed

end
