(* ===== verification/BftMsgQueue.thy ===== *)
theory BftMsgQueue
  imports GoHeap HexText "HOL-Library.Product_Lexorder"
begin

text \<open>
  The messages of the consensus protocol (\<open>consensus/pvbft/proto\<close>) and the three priority queues that
  hold them, \<open>consensus/pvbft/msg_queue.go\<close>. A queue is a heap ordered by sequence, round and message
  type; \<open>readMessage\<close> drops what is old, keeps what is from the future and returns what the current
  state can handle.
\<close>

section \<open>Messages\<close>

datatype IbftState = AcceptState | RoundChangeState | ValidateState | CommitState | SyncState

fun IbftState_String :: "IbftState \<Rightarrow> string" where
  "IbftState_String AcceptState = ''AcceptState''"
| "IbftState_String RoundChangeState = ''RoundChangeState''"
| "IbftState_String ValidateState = ''ValidateState''"
| "IbftState_String CommitState = ''CommitState''"
| "IbftState_String SyncState = ''SyncState''"

datatype MessageReq_Type = MessageReq_Preprepare | MessageReq_Prepare | MessageReq_Commit | MessageReq_RoundChange

record View =
  vRound :: u64
  vSequence :: u64

definition ViewMsg :: "u64 \<Rightarrow> u64 \<Rightarrow> View" where
  "ViewMsg sequence round = \<lparr>vRound = round, vSequence = sequence\<rparr>"

text \<open>\<open>mProposal\<close> is the RLP-encoded block of a preprepare message.\<close>

record MessageReq =
  mType :: MessageReq_Type
  mFrom :: string
  mSeal :: string
  mSignature :: string
  mView :: View
  mDigest :: string
  mProposal :: "bytes option"

definition FromAddr :: "MessageReq \<Rightarrow> address" where
  "FromAddr m = StringToAddress (mFrom m)"

text \<open>Message types in the order of their priority.\<close>

datatype MsgType = msgRoundChange | msgPreprepare | msgCommit | msgPrepare

fun msg_code :: "MsgType \<Rightarrow> nat" where
  "msg_code msgRoundChange = 0"
| "msg_code msgPreprepare = 1"
| "msg_code msgCommit = 2"
| "msg_code msgPrepare = 3"

lemma msg_code_inject: "msg_code a = msg_code b \<longleftrightarrow> a = b"
  by (cases a; cases b) simp_all

instantiation MsgType :: linorder
begin

definition less_eq_MsgType :: "MsgType \<Rightarrow> MsgType \<Rightarrow> bool" where
  "less_eq_MsgType a b \<longleftrightarrow> msg_code a \<le> msg_code b"

definition less_MsgType :: "MsgType \<Rightarrow> MsgType \<Rightarrow> bool" where
  "less_MsgType a b \<longleftrightarrow> msg_code a < msg_code b"

instance
  by standard (auto simp: less_eq_MsgType_def less_MsgType_def msg_code_inject)

end

fun MsgType_String :: "MsgType \<Rightarrow> string" where
  "MsgType_String msgRoundChange = ''RoundChange''"
| "MsgType_String msgPrepare = ''Prepare''"
| "MsgType_String msgPreprepare = ''Preprepare''"
| "MsgType_String msgCommit = ''Commit''"

definition protoTypeToMsg :: "MessageReq_Type \<Rightarrow> MsgType" where
  "protoTypeToMsg msgType =
     (if msgType = MessageReq_Preprepare then msgPreprepare
      else if msgType = MessageReq_Prepare then msgPrepare
      else if msgType = MessageReq_Commit then msgCommit
      else msgRoundChange)"

definition msgToState :: "MsgType \<Rightarrow> IbftState" where
  "msgToState msg =
     (if msg = msgRoundChange then RoundChangeState
      else if msg = msgPreprepare then AcceptState
      else ValidateState)"

record msgTask =
  taskView :: View
  taskMsg :: MsgType
  taskObj :: MessageReq

definition cmpView :: "View \<Rightarrow> View \<Rightarrow> int" where
  "cmpView v y =
     (if vSequence v \<noteq> vSequence y then (if vSequence v < vSequence y then - 1 else 1)
      else if vRound v \<noteq> vRound y then (if vRound v < vRound y then - 1 else 1)
      else 0)"

section \<open>The queues\<close>

definition msg_Less :: "msgTask \<Rightarrow> msgTask \<Rightarrow> bool" where
  "msg_Less ti tj =
     (if vSequence (taskView ti) \<noteq> vSequence (taskView tj)
      then vSequence (taskView ti) < vSequence (taskView tj)
      else if vRound (taskView ti) \<noteq> vRound (taskView tj)
      then vRound (taskView ti) < vRound (taskView tj)
      else taskMsg ti < taskMsg tj)"

type_synonym msgQueueImpl = "msgTask list"

record msgQueue =
  roundChangeStateQueue :: msgQueueImpl
  acceptStateQueue :: msgQueueImpl
  validateStateQueue :: msgQueueImpl

definition newMsgQueue :: msgQueue where
  "newMsgQueue = \<lparr>roundChangeStateQueue = [], acceptStateQueue = [], validateStateQueue = []\<rparr>"

definition getQueue :: "msgQueue \<Rightarrow> IbftState \<Rightarrow> msgQueueImpl" where
  "getQueue m state =
     (if state = RoundChangeState then roundChangeStateQueue m
      else if state = AcceptState then acceptStateQueue m
      else validateStateQueue m)"

text \<open>\<open>getQueue\<close> returns a pointer; this is the write through it.\<close>

definition setQueue :: "IbftState \<Rightarrow> msgQueueImpl \<Rightarrow> msgQueue \<Rightarrow> msgQueue" where
  "setQueue state q m =
     (if state = RoundChangeState then m\<lparr>roundChangeStateQueue := q\<rparr>
      else if state = AcceptState then m\<lparr>acceptStateQueue := q\<rparr>
      else m\<lparr>validateStateQueue := q\<rparr>)"

definition pushMessage :: "msgTask \<Rightarrow> msgQueue \<Rightarrow> msgQueue" where
  "pushMessage task m =
     (let state = msgToState (taskMsg task)
      in setQueue state (heap_push msg_Less (getQueue m state) task) m)"

function read_loop :: "IbftState \<Rightarrow> View \<Rightarrow> msgQueueImpl \<Rightarrow> msgTask option \<times> msgQueueImpl" where
  "read_loop state current queue =
     (if length queue = 0 then (None, queue)
      else let msg = queue ! 0 in
      if (if state = RoundChangeState then vSequence (taskView msg) > vSequence current
          else cmpView (taskView msg) current > 0)
      then (None, queue)
      else case heap_pop msg_Less queue of
             None \<Rightarrow> (None, queue)
           | Some (_, queue') \<Rightarrow>
               if cmpView (taskView msg) current < 0 then read_loop state current queue'
               else (Some msg, queue'))"
  by pat_completeness auto
termination
  by (relation "measure (\<lambda>(_, _, q). length q)") (auto dest: heap_pop_shorter)

declare read_loop.simps [simp del]

definition readMessage :: "IbftState \<Rightarrow> View \<Rightarrow> msgQueue \<Rightarrow> msgTask option \<times> msgQueue" where
  "readMessage state current m =
     (let (r, q) = read_loop state current (getQueue m state) in (r, setQueue state q m))"

section \<open>The queue contract\<close>

definition task_key :: "msgTask \<Rightarrow> u64 \<times> u64 \<times> MsgType" where
  "task_key t = (vSequence (taskView t), vRound (taskView t), taskMsg t)"

lemma msg_Less_key: "msg_Less a b \<longleftrightarrow> task_key a < task_key b"
  by (auto simp: msg_Less_def task_key_def)

interpretation msgHeap: heap_order msg_Less
  by unfold_locales (simp_all add: msg_Less_key)

abbreviation mq_inv :: "msgQueueImpl \<Rightarrow> bool" where
  "mq_inv q \<equiv> is_heap msg_Less q"

definition msgQueue_inv :: "msgQueue \<Rightarrow> bool" where
  "msgQueue_inv m \<longleftrightarrow>
     mq_inv (roundChangeStateQueue m) \<and> mq_inv (acceptStateQueue m) \<and> mq_inv (validateStateQueue m)"

lemma getQueue_setQueue [simp]:
  "getQueue (setQueue state q m) state = q"
  by (simp add: getQueue_def setQueue_def)

lemma msgQueue_inv_get: "msgQueue_inv m \<Longrightarrow> mq_inv (getQueue m state)"
  by (simp add: msgQueue_inv_def getQueue_def)

lemma msgQueue_inv_set: "msgQueue_inv m \<Longrightarrow> mq_inv q \<Longrightarrow> msgQueue_inv (setQueue state q m)"
  by (simp add: msgQueue_inv_def setQueue_def)

lemma pushMessage_inv [inv_intros]: "msgQueue_inv m \<Longrightarrow> msgQueue_inv (pushMessage task m)"
  unfolding pushMessage_def Let_def by (intro msgQueue_inv_set msgHeap.pq.invar_push msgQueue_inv_get)

text \<open>When a message can be read, and when it waits for a later view.\<close>

definition ready :: "IbftState \<Rightarrow> View \<Rightarrow> msgTask \<Rightarrow> bool" where
  "ready state current t \<longleftrightarrow>
     vSequence (taskView t) = vSequence current \<and>
     (if state = RoundChangeState then vRound current \<le> vRound (taskView t)
      else vRound (taskView t) = vRound current)"

definition future :: "IbftState \<Rightarrow> View \<Rightarrow> msgTask \<Rightarrow> bool" where
  "future state current t \<longleftrightarrow>
     vSequence current < vSequence (taskView t) \<or>
     state \<noteq> RoundChangeState \<and> vSequence (taskView t) = vSequence current \<and>
       vRound current < vRound (taskView t)"

definition old :: "View \<Rightarrow> msgTask \<Rightarrow> bool" where
  "old current t \<longleftrightarrow>
     vSequence (taskView t) < vSequence current \<or>
     vSequence (taskView t) = vSequence current \<and> vRound (taskView t) < vRound current"

lemma cmpView_neg: "cmpView (taskView t) current < 0 \<longleftrightarrow> old current t"
  by (auto simp: cmpView_def old_def)

lemma cmpView_pos: "cmpView (taskView t) current > 0 \<longleftrightarrow>
    vSequence current < vSequence (taskView t) \<or>
    vSequence (taskView t) = vSequence current \<and> vRound current < vRound (taskView t)"
  by (auto simp: cmpView_def)

lemma future_head:
  "(if state = RoundChangeState then vSequence (taskView t) > vSequence current
    else cmpView (taskView t) current > 0) \<longleftrightarrow> future state current t"
  by (auto simp: future_def cmpView_pos)

lemma ready_old_future: "ready state current t \<longleftrightarrow> \<not> old current t \<and> \<not> future state current t"
  by (auto simp: ready_def old_def future_def)

lemma future_upward: "\<not> msg_Less t u \<Longrightarrow> future state current u \<Longrightarrow> future state current t"
  by (auto simp: msg_Less_def future_def split: if_splits)

lemma read_loop_unfold:
  "read_loop state current [] = (None, [])"
  "queue \<noteq> [] \<Longrightarrow> future state current (queue ! 0) \<Longrightarrow> read_loop state current queue = (None, queue)"
  "\<not> future state current (queue ! 0) \<Longrightarrow> heap_pop msg_Less queue = Some (x, q) \<Longrightarrow> queue \<noteq> [] \<Longrightarrow>
     read_loop state current queue =
       (if old current (queue ! 0) then read_loop state current q else (Some (queue ! 0), q))"
  by (subst read_loop.simps, simp only: future_head cmpView_neg Let_def, simp)+

text \<open>What one call of \<open>readMessage\<close> does to its queue.\<close>

lemma read_loop_correct:
  assumes "mq_inv queue" "read_loop state current queue = (r, rest)"
  shows "mq_inv rest \<and>
    (\<exists>dropped. (\<forall>t\<in>set dropped. old current t) \<and>
       mset queue = mset dropped + mset (case r of None \<Rightarrow> [] | Some t \<Rightarrow> [t]) + mset rest) \<and>
    (case r of None \<Rightarrow> \<forall>t\<in>set rest. future state current t
     | Some t \<Rightarrow> ready state current t \<and> (\<forall>u\<in>set rest. \<not> msg_Less u t))"
  using assms
proof (induction state current queue arbitrary: r rest rule: read_loop.induct)
  case (1 state current queue)
  show ?case
  proof (cases "queue = []")
    case True
    then show ?thesis using "1.prems" by (auto simp: read_loop_unfold)
  next
    case ne: False
    let ?h = "queue ! 0"
    show ?thesis
    proof (cases "future state current ?h")
      case True
      have "\<not> msg_Less t ?h" if "t \<in> set queue" for t
        using msgHeap.heap_head_least [OF "1.prems"(1) that] ne by (simp add: hd_conv_nth)
      then have "\<forall>t\<in>set queue. future state current t" using future_upward True by blast
      moreover have "r = None" "rest = queue"
        using "1.prems"(2) read_loop_unfold(2) [OF ne True] by simp_all
      ultimately show ?thesis using "1.prems"(1) by (auto intro: exI [of _ "[]"])
    next
      case nf: False
      obtain x q where pop: "heap_pop msg_Less queue = Some (x, q)"
        using msgHeap.pq.pop_None_iff [of queue] ne by (cases "heap_pop msg_Less queue") auto
      have x: "x = ?h" using heap_pop_head [OF pop] ne by (simp add: hd_conv_nth)
      have q: "mq_inv q" "mset queue = add_mset x (mset q)" "\<forall>u\<in>set q. \<not> msg_Less u x"
        using msgHeap.pq.invar_pop [OF "1.prems"(1) pop] msgHeap.pq.elems_pop [OF pop] msgHeap.pq.pop_first [OF "1.prems"(1) pop]
        by auto
      show ?thesis
      proof (cases "old current ?h")
        case True
        then have rec: "read_loop state current q = (r, rest)"
          using "1.prems"(2) read_loop_unfold(3) [OF nf pop ne] by simp
        have IH: "mq_inv rest \<and> (\<exists>dropped. (\<forall>t\<in>set dropped. old current t) \<and>
            mset q = mset dropped + mset (case r of None \<Rightarrow> [] | Some t \<Rightarrow> [t]) + mset rest) \<and>
            (case r of None \<Rightarrow> \<forall>t\<in>set rest. future state current t
             | Some t \<Rightarrow> ready state current t \<and> (\<forall>u\<in>set rest. \<not> msg_Less u t))"
          by (rule "1.IH" [OF _ refl _ pop refl _ q(1) rec]) (use nf ne True in \<open>simp_all only: future_head cmpView_neg length_0_conv not_False_eq_True\<close>)
        then obtain dropped where d: "\<forall>t\<in>set dropped. old current t"
          "mset q = mset dropped + mset (case r of None \<Rightarrow> [] | Some t \<Rightarrow> [t]) + mset rest" by blast
        then have "\<exists>dropped. (\<forall>t\<in>set dropped. old current t) \<and>
            mset queue = mset dropped + mset (case r of None \<Rightarrow> [] | Some t \<Rightarrow> [t]) + mset rest"
          using True x q(2) by (intro exI [of _ "x # dropped"]) simp
        with IH show ?thesis by blast
      next
        case False
        then have "r = Some ?h" "rest = q"
          using "1.prems"(2) read_loop_unfold(3) [OF nf pop ne] by simp_all
        then show ?thesis
          using q x False nf by (auto simp: ready_old_future intro!: exI [of _ "[]"])
      qed
    qed
  qed
qed

text \<open>C20. One call of \<open>readMessage\<close> keeps the heaps, touches only the queue of the given state, and
  splits that queue into dropped messages, which are all from an older view, the message returned,
  and the rest. A returned message belongs to the current view (for a round change: to this or a
  later round of the sequence) and none of the rest has priority over it; nothing is returned only
  if every remaining message is from the future.\<close>

theorem readMessage_contract:
  assumes "msgQueue_inv m" "readMessage state current m = (r, m')"
  shows "msgQueue_inv m' \<and> m' = setQueue state (getQueue m' state) m \<and>
    (\<exists>dropped. (\<forall>t\<in>set dropped. old current t) \<and>
       mset (getQueue m state) =
         mset dropped + mset (case r of None \<Rightarrow> [] | Some t \<Rightarrow> [t]) + mset (getQueue m' state)) \<and>
    (case r of None \<Rightarrow> \<forall>t\<in>set (getQueue m' state). future state current t
     | Some t \<Rightarrow> ready state current t \<and> (\<forall>u\<in>set (getQueue m' state). \<not> msg_Less u t))"
proof -
  obtain q where rl: "read_loop state current (getQueue m state) = (r, q)" and m': "m' = setQueue state q m"
    using assms(2) by (auto simp: readMessage_def split: prod.splits)
  have "msgQueue_inv m'"
    using read_loop_correct [OF msgQueue_inv_get [OF assms(1)] rl] assms(1) m'
    by (simp add: msgQueue_inv_set)
  moreover have "getQueue m' state = q" by (simp add: m')
  ultimately show ?thesis
    using read_loop_correct [OF msgQueue_inv_get [OF assms(1)] rl] m' by (cases r) simp_all
qed

definition ex_msg :: "MessageReq_Type \<Rightarrow> u64 \<Rightarrow> u64 \<Rightarrow> MessageReq" where
  "ex_msg t seq round = \<lparr>mType = t, mFrom = '''', mSeal = '''', mSignature = '''',
     mView = ViewMsg seq round, mDigest = '''', mProposal = None\<rparr>"

definition ex_task :: "MessageReq_Type \<Rightarrow> u64 \<Rightarrow> u64 \<Rightarrow> msgTask" where
  "ex_task t seq round = \<lparr>taskView = ViewMsg seq round, taskMsg = protoTypeToMsg t, taskObj = ex_msg t seq round\<rparr>"

definition ex_queue :: msgQueue where
  "ex_queue = pushMessage (ex_task MessageReq_Commit 5 0) (pushMessage (ex_task MessageReq_Prepare 4 1)
     (pushMessage (ex_task MessageReq_Prepare 5 0) newMsgQueue))"

lemma ex_queue_inv: "msgQueue_inv ex_queue"
proof -
  have "msgQueue_inv newMsgQueue"
    using is_heap_Nil [of msg_Less] by (simp add: msgQueue_inv_def newMsgQueue_def)
  then show ?thesis unfolding ex_queue_def by (intro pushMessage_inv)
qed

lemma ex_queue_read:
  "fst (readMessage ValidateState (ViewMsg 5 0) ex_queue) = Some (ex_task MessageReq_Commit 5 0)"
  by code_simp

theorem readMessage_contract_witness:
  "ready ValidateState (ViewMsg 5 0) (ex_task MessageReq_Commit 5 0) \<and>
   msgQueue_inv (snd (readMessage ValidateState (ViewMsg 5 0) ex_queue))"
  using readMessage_contract [OF ex_queue_inv, of ValidateState "ViewMsg 5 0"
      "Some (ex_task MessageReq_Commit 5 0)" "snd (readMessage ValidateState (ViewMsg 5 0) ex_queue)"]
    ex_queue_read
  by (simp add: prod_eq_iff)

end
