(* ===== verification/ChainTypes.thy ===== *)
theory ChainTypes
  imports HexText
begin

text \<open>
  Block headers, bodies and blocks of \<open>types/header.go\<close>. The cached block size is not part of the
  value. \<open>LogsBloom\<close> is an array of 256 bytes, kept as a byte list.
\<close>

type_synonym nonce8 = u64

record Header =
  ParentHash :: hash
  Sha3Uncles :: hash
  Miner :: address
  StateRoot :: hash
  TxRoot :: hash
  ReceiptsRoot :: hash
  LogsBloom :: bytes
  Difficulty :: u64
  Number :: u64
  GasLimit :: u64
  GasUsed :: u64
  Timestamp :: u64
  ExtraData :: bytes
  MixHash :: hash
  HNonce :: nonce8
  HHash :: hash

definition EmptyRootHash :: hash where
  "EmptyRootHash = StringToHash ''0x56e81f171bcc55a6ff8345e692c0f86e5b48e01b996cadc001622fb5e363b421''"

definition EmptyUncleHash :: hash where
  "EmptyUncleHash = StringToHash ''0x1dcc4de8dec75d7aab85b567b6ccd41ad312451b948a7413f0a142fd40d49347''"

definition Header_Equal :: "Header \<Rightarrow> Header \<Rightarrow> bool" where
  "Header_Equal h hh \<longleftrightarrow> HHash h = HHash hh"

definition HasBody :: "Header \<Rightarrow> bool" where
  "HasBody h \<longleftrightarrow> TxRoot h \<noteq> EmptyRootHash \<or> Sha3Uncles h \<noteq> EmptyUncleHash"

definition HasReceipts :: "Header \<Rightarrow> bool" where
  "HasReceipts h \<longleftrightarrow> ReceiptsRoot h \<noteq> EmptyRootHash"

text \<open>The eight bytes of the nonce, big-endian, are the number they spell.\<close>

definition SetNonce :: "u64 \<Rightarrow> Header \<Rightarrow> Header" where
  "SetNonce i h = h\<lparr>HNonce := i\<rparr>"

text \<open>Values have no aliases, so a copy is the value.\<close>

definition Header_Copy :: "Header \<Rightarrow> Header" where
  "Header_Copy h = h"

record Body =
  bodyTransactions :: "transaction list"
  bodyUncles :: "Header list"

record Block =
  blkHeader :: Header
  blkTransactions :: "transaction list"
  blkUncles :: "Header list"

definition Block_Hash :: "Block \<Rightarrow> hash" where
  "Block_Hash b = HHash (blkHeader b)"

definition Block_Number :: "Block \<Rightarrow> u64" where
  "Block_Number b = Number (blkHeader b)"

definition Block_ParentHash :: "Block \<Rightarrow> hash" where
  "Block_ParentHash b = ParentHash (blkHeader b)"

definition Block_Body :: "Block \<Rightarrow> Body" where
  "Block_Body b = \<lparr>bodyTransactions = blkTransactions b, bodyUncles = blkUncles b\<rparr>"

definition WithSeal :: "Block \<Rightarrow> Header \<Rightarrow> Block" where
  "WithSeal b header =
     \<lparr>blkHeader = header, blkTransactions = blkTransactions b, blkUncles = blkUncles b\<rparr>"

text \<open>A header with all fields zero, for the concrete examples.\<close>

definition header0 :: Header where
  "header0 = \<lparr>ParentHash = 0, Sha3Uncles = 0, Miner = 0, StateRoot = 0, TxRoot = 0, ReceiptsRoot = 0,
     LogsBloom = [], Difficulty = 0, Number = 0, GasLimit = 0, GasUsed = 0, Timestamp = 0,
     ExtraData = [], MixHash = 0, HNonce = 0, HHash = 0\<rparr>"

end
