(* ===== verification/BftState.thy ===== *)
theory BftState
  imports BftValidators BftMsgQueue ChainTypes "HOL-Library.AList"
begin

text \<open>
  The round state of a validator, \<open>consensus/pvbft/state.go\<close>, and the round timeout of
  \<open>consensus/pvbft/timeout.go\<close>. The message maps are association lists with distinct keys; the
  invariant says that they hold at most one message per validator, each sent by its key and of the
  map's type, which makes the tallies count distinct validators.
\<close>

section \<open>The state\<close>

type_synonym msgMap = "(address \<times> MessageReq) list"

text \<open>The errors that a round can record.\<close>

datatype ibft_error = errIncorrectBlockLocked | errIncorrectBlockHeight | errBlockVerificationFailed
  | errFailedToInsertBlock

record currentState =
  vset :: ValidatorSet
  ibft_state :: IbftState
  cs_block :: "Block option"
  proposer :: address
  cs_view :: View
  prepared :: msgMap
  committed :: msgMap
  roundMessages :: "(u64 \<times> msgMap) list"
  locked :: bool
  cs_err :: "ibft_error option"

definition resetRoundMsgs :: "currentState \<Rightarrow> currentState" where
  "resetRoundMsgs c = c\<lparr>prepared := [], committed := [], roundMessages := []\<rparr>"

definition newState :: currentState where
  "newState = resetRoundMsgs
     \<lparr>vset = NewValidatorSet, ibft_state = AcceptState, cs_block = None, proposer = 0,
      cs_view = ViewMsg 0 0, prepared = [], committed = [], roundMessages = [], locked = False,
      cs_err = None\<rparr>"

definition getState :: "currentState \<Rightarrow> IbftState" where
  "getState c = ibft_state c"

definition setState :: "IbftState \<Rightarrow> currentState \<Rightarrow> currentState" where
  "setState s c = c\<lparr>ibft_state := s\<rparr>"

definition NumValid :: "currentState \<Rightarrow> int" where
  "NumValid c = 2 * vs_MaxFaultyNodes (vset c)"

definition getErr :: "currentState \<Rightarrow> ibft_error option \<times> currentState" where
  "getErr c = (cs_err c, c\<lparr>cs_err := None\<rparr>)"

text \<open>One step of the loop of \<open>maxRound\<close>, over the map of rounds in the order of the list.\<close>

definition maxRound_step :: "int \<Rightarrow> u64 \<times> bool \<Rightarrow> u64 \<times> msgMap \<Rightarrow> u64 \<times> bool" where
  "maxRound_step num acc entry =
     (let (maxRound, found) = acc; (k, round) = entry
      in if int (length round) < num then (maxRound, found)
         else if maxRound < k then (k, True)
         else (maxRound, found))"

definition maxRound :: "currentState \<Rightarrow> u64 \<times> bool" where
  "maxRound c =
     (let num = vs_MaxFaultyNodes (vset c) + 1
      in foldl (maxRound_step num) (0, False) (roundMessages c))"

definition CalcProposerPoa :: "address \<Rightarrow> currentState \<Rightarrow> currentState option" where
  "CalcProposerPoa lastProposer c =
     map_option (\<lambda>a. c\<lparr>proposer := a\<rparr>) (vs_CalcProposerPoa (vRound (cs_view c)) lastProposer (vset c))"

definition CalcProposer :: "int \<Rightarrow> currentState \<Rightarrow> currentState option" where
  "CalcProposer randInt c =
     map_option (\<lambda>a. c\<lparr>proposer := a\<rparr>) (vs_CalcProposer (word_of_int randInt) (vset c))"

definition cs_lock :: "currentState \<Rightarrow> currentState" where
  "cs_lock c = c\<lparr>locked := True\<rparr>"

definition cs_unlock :: "currentState \<Rightarrow> currentState" where
  "cs_unlock c = c\<lparr>cs_block := None, locked := False\<rparr>"

definition cleanRound :: "u64 \<Rightarrow> currentState \<Rightarrow> currentState" where
  "cleanRound round c = c\<lparr>roundMessages := AList.delete round (roundMessages c)\<rparr>"

definition addMessage :: "MessageReq \<Rightarrow> currentState \<Rightarrow> currentState" where
  "addMessage msg c =
     (let addr = FromAddr msg in
      if \<not> vs_Includes addr (vset c) then c
      else if mType msg = MessageReq_Commit then c\<lparr>committed := AList.update addr msg (committed c)\<rparr>
      else if mType msg = MessageReq_Prepare then c\<lparr>prepared := AList.update addr msg (prepared c)\<rparr>
      else if mType msg = MessageReq_RoundChange then
        let round = vRound (mView msg);
            msgs = (case map_of (roundMessages c) round of None \<Rightarrow> [] | Some m \<Rightarrow> m)
        in c\<lparr>roundMessages := AList.update round (AList.update addr msg msgs) (roundMessages c)\<rparr>
      else c)"

definition AddRoundMessage :: "MessageReq \<Rightarrow> currentState \<Rightarrow> int \<times> currentState" where
  "AddRoundMessage msg c =
     (if mType msg \<noteq> MessageReq_RoundChange then (0, c)
      else let c = addMessage msg c
           in (case map_of (roundMessages c) (vRound (mView msg)) of
                 None \<Rightarrow> 0 | Some m \<Rightarrow> int (length m), c))"

definition addPrepared :: "MessageReq \<Rightarrow> currentState \<Rightarrow> currentState" where
  "addPrepared msg c = (if mType msg \<noteq> MessageReq_Prepare then c else addMessage msg c)"

definition addCommitted :: "MessageReq \<Rightarrow> currentState \<Rightarrow> currentState" where
  "addCommitted msg c = (if mType msg \<noteq> MessageReq_Commit then c else addMessage msg c)"

definition numPrepared :: "currentState \<Rightarrow> int" where
  "numPrepared c = int (length (prepared c))"

definition numCommitted :: "currentState \<Rightarrow> int" where
  "numCommitted c = int (length (committed c))"

text \<open>Seconds; \<open>math.Pow (2, e)\<close> is exact in this range.\<close>

definition exponentialTimeout :: "u64 \<Rightarrow> nat" where
  "exponentialTimeout exponent =
     (if exponent > 8 then 300
      else if exponent > 0 then 10 + 2 ^ unat exponent
      else 10)"

section \<open>The tallies count validators\<close>

definition msgs_ok :: "address list \<Rightarrow> MessageReq_Type \<Rightarrow> msgMap \<Rightarrow> bool" where
  "msgs_ok vals t m \<longleftrightarrow>
     distinct (map fst m) \<and>
     (\<forall>(addr, msg)\<in>set m. addr \<in> set vals \<and> FromAddr msg = addr \<and> mType msg = t)"

definition state_inv :: "currentState \<Rightarrow> bool" where
  "state_inv c \<longleftrightarrow>
     msgs_ok (validators (vset c)) MessageReq_Prepare (prepared c) \<and>
     msgs_ok (validators (vset c)) MessageReq_Commit (committed c) \<and>
     distinct (map fst (roundMessages c)) \<and>
     (\<forall>(r, m)\<in>set (roundMessages c). msgs_ok (validators (vset c)) MessageReq_RoundChange m)"

lemma msgs_ok_Nil [simp]: "msgs_ok vals t []"
  by (simp add: msgs_ok_def)

lemma set_update_cases:
  assumes "distinct (map fst m)" "(k', v') \<in> set (AList.update k v m)"
  shows "k' = k \<and> v' = v \<or> (k', v') \<in> set m"
  using assms by (induction m) (auto split: if_splits)

lemma msgs_ok_update:
  assumes "msgs_ok vals t m" "FromAddr msg \<in> set vals" "mType msg = t"
  shows "msgs_ok vals t (AList.update (FromAddr msg) msg m)"
  using assms set_update_cases [of m _ _ "FromAddr msg" msg]
  by (fastforce simp: msgs_ok_def distinct_update)

lemma msgs_ok_senders:
  assumes "msgs_ok vals t m"
  shows "card (fst ` set m) = length m" "fst ` set m \<subseteq> set vals"
  using assms distinct_card [of "map fst m"] by (auto simp: msgs_ok_def)

lemma addMessage_inv [inv_intros]:
  assumes "state_inv c"
  shows "state_inv (addMessage msg c)"
proof (cases "FromAddr msg \<in> set (validators (vset c))")
  case False
  then show ?thesis using assms by (simp add: addMessage_def)
next
  case True
  let ?vals = "validators (vset c)" and ?r = "vRound (mView msg)"
  let ?msgs = "case map_of (roundMessages c) ?r of None \<Rightarrow> [] | Some m \<Rightarrow> m"
  show ?thesis
  proof (cases "mType msg = MessageReq_RoundChange")
    case rc: True
    have "msgs_ok ?vals MessageReq_RoundChange ?msgs"
      using assms by (auto simp: state_inv_def split: option.split dest!: map_of_SomeD)
    then have ok: "msgs_ok ?vals MessageReq_RoundChange (AList.update (FromAddr msg) msg ?msgs)"
      using True rc by (rule msgs_ok_update)
    have d: "distinct (map fst (roundMessages c))" using assms by (simp add: state_inv_def)
    show ?thesis
      using assms True rc ok set_update_cases [OF d, of _ _ ?r]
      by (fastforce simp: state_inv_def addMessage_def Let_def distinct_update)
  next
    case False
    then show ?thesis
      using assms True msgs_ok_update by (auto simp: state_inv_def addMessage_def Let_def)
  qed
qed

lemma newState_inv: "state_inv newState"
  by (simp add: state_inv_def newState_def resetRoundMsgs_def)

lemma resetRoundMsgs_inv [inv_intros]: "state_inv (resetRoundMsgs c)"
  by (simp add: state_inv_def resetRoundMsgs_def)

lemma cleanRound_inv [inv_intros]: "state_inv c \<Longrightarrow> state_inv (cleanRound round c)"
  by (auto simp: state_inv_def cleanRound_def AList.delete_eq distinct_map_filter)

lemma addPrepared_inv [inv_intros]: "state_inv c \<Longrightarrow> state_inv (addPrepared msg c)"
  by (simp add: addPrepared_def addMessage_inv)

lemma addCommitted_inv [inv_intros]: "state_inv c \<Longrightarrow> state_inv (addCommitted msg c)"
  by (simp add: addCommitted_def addMessage_inv)

text \<open>A tally above \<open>NumValid\<close> is a quorum of distinct validators.\<close>

lemma tally_quorum:
  assumes "state_inv c"
  shows "numPrepared c > NumValid c \<Longrightarrow>
      2 * MaxFaulty (length (validators (vset c))) < int (card (fst ` set (prepared c)))"
    and "numCommitted c > NumValid c \<Longrightarrow>
      2 * MaxFaulty (length (validators (vset c))) < int (card (fst ` set (committed c)))"
    and "fst ` set (prepared c) \<subseteq> set (validators (vset c))"
    and "fst ` set (committed c) \<subseteq> set (validators (vset c))"
proof -
  have "msgs_ok (validators (vset c)) MessageReq_Prepare (prepared c)"
    "msgs_ok (validators (vset c)) MessageReq_Commit (committed c)"
    using assms by (simp_all add: state_inv_def)
  note s = msgs_ok_senders [OF this(1)] msgs_ok_senders [OF this(2)]
  show "numPrepared c > NumValid c \<Longrightarrow>
      2 * MaxFaulty (length (validators (vset c))) < int (card (fst ` set (prepared c)))"
    and "numCommitted c > NumValid c \<Longrightarrow>
      2 * MaxFaulty (length (validators (vset c))) < int (card (fst ` set (committed c)))"
    by (simp_all add: s numPrepared_def numCommitted_def NumValid_def vs_MaxFaultyNodes_def)
  show "fst ` set (prepared c) \<subseteq> set (validators (vset c))"
    and "fst ` set (committed c) \<subseteq> set (validators (vset c))"
    by (rule s)+
qed

section \<open>The highest round\<close>

lemma maxRound_step_eq:
  "maxRound_step num (m, f) (k, round) =
     (if num \<le> int (length round) \<and> m < k then (k, True) else (m, f))"
  by (simp add: maxRound_step_def)

lemma maxRound_fold:
  "foldl (maxRound_step num) (m, f) rs = (m', f') \<Longrightarrow>
     m \<le> m' \<and> (f' \<longleftrightarrow> f \<or> m < m') \<and>
     (\<forall>(k, round)\<in>set rs. num \<le> int (length round) \<longrightarrow> k \<le> m') \<and>
     (m' \<noteq> m \<longrightarrow> (\<exists>round. (m', round) \<in> set rs \<and> num \<le> int (length round)))"
proof (induction rs arbitrary: m f)
  case (Cons kr rs)
  obtain k round where kr: "kr = (k, round)" by (cases kr)
  show ?case
  proof (cases "num \<le> int (length round) \<and> m < k")
    case True
    then have "foldl (maxRound_step num) (k, True) rs = (m', f')"
      using Cons.prems by (simp add: kr maxRound_step_eq)
    from Cons.IH [OF this] True show ?thesis by (auto simp: kr)
  next
    case False
    then have "foldl (maxRound_step num) (m, f) rs = (m', f')"
      using Cons.prems unfolding kr by (simp only: foldl_Cons maxRound_step_eq if_not_P [OF False] if_False)
    from Cons.IH [OF this] False show ?thesis by (force simp: kr not_less)
  qed
qed auto

text \<open>C21. \<open>maxRound\<close> returns the highest round above zero for which more than \<open>F\<close> validators have
  asked, whatever the order in which the map is traversed, and \<open>false\<close> if there is none.\<close>

theorem maxRound_spec:
  "(\<forall>k. maxRound c = (k, True) \<longleftrightarrow>
      0 < k \<and> (\<exists>m. (k, m) \<in> set (roundMessages c) \<and> vs_MaxFaultyNodes (vset c) + 1 \<le> int (length m)) \<and>
      (\<forall>(k', m)\<in>set (roundMessages c). vs_MaxFaultyNodes (vset c) + 1 \<le> int (length m) \<longrightarrow> k' \<le> k)) \<and>
   (maxRound c = (0, False) \<longleftrightarrow>
      (\<forall>(k, m)\<in>set (roundMessages c). vs_MaxFaultyNodes (vset c) + 1 \<le> int (length m) \<longrightarrow> k = 0))"
proof -
  let ?n = "vs_MaxFaultyNodes (vset c) + 1"
  obtain m f where mf: "maxRound c = (m, f)" by (cases "maxRound c")
  then have *: "0 \<le> m \<and> (f \<longleftrightarrow> False \<or> 0 < m) \<and>
     (\<forall>(k, round)\<in>set (roundMessages c). ?n \<le> int (length round) \<longrightarrow> k \<le> m) \<and>
     (m \<noteq> 0 \<longrightarrow> (\<exists>round. (m, round) \<in> set (roundMessages c) \<and> ?n \<le> int (length round)))"
    by (intro maxRound_fold) (simp add: maxRound_def)
  have f: "f \<longleftrightarrow> 0 < m" using * by simp
  have up: "k \<le> m" if "(k, round) \<in> set (roundMessages c)" "?n \<le> int (length round)" for k round
    using * that by blast
  have ex: "0 < m \<Longrightarrow> \<exists>round. (m, round) \<in> set (roundMessages c) \<and> ?n \<le> int (length round)"
    using * by auto
  have "maxRound c = (k, True) \<longleftrightarrow>
      0 < k \<and> (\<exists>m. (k, m) \<in> set (roundMessages c) \<and> ?n \<le> int (length m)) \<and>
      (\<forall>(k', m)\<in>set (roundMessages c). ?n \<le> int (length m) \<longrightarrow> k' \<le> k)" (is "_ \<longleftrightarrow> ?R k") for k
  proof
    assume "maxRound c = (k, True)"
    then have "m = k" "f" using mf by simp_all
    then have "0 < m" using f by simp
    with \<open>m = k\<close> show "?R k" using ex up by blast
  next
    assume R: "?R k"
    then have "k \<le> m" using up by blast
    moreover have "0 < m" using R \<open>k \<le> m\<close> by (metis less_le_trans)
    moreover have "m \<le> k" using ex [OF \<open>0 < m\<close>] R by blast
    ultimately show "maxRound c = (k, True)" using mf f by auto
  qed
  moreover have "maxRound c = (0, False) \<longleftrightarrow>
      (\<forall>(k, m)\<in>set (roundMessages c). ?n \<le> int (length m) \<longrightarrow> k = 0)" (is "_ \<longleftrightarrow> ?Z")
  proof
    assume "maxRound c = (0, False)"
    then have "m = 0" using mf by simp
    then show ?Z using up by (auto simp: word_le_0_iff)
  next
    assume Z: ?Z
    have "\<not> 0 < m"
    proof
      assume m: "0 < m"
      then have "m = 0" using ex [OF m] Z by blast
      with m show False by simp
    qed
    then show "maxRound c = (0, False)" using mf f by (simp add: word_gt_0)
  qed
  ultimately show ?thesis by blast
qed

definition ex_round_state :: currentState where
  "ex_round_state = newState\<lparr>vset := NewValidatorSet\<lparr>validators := [1, 2, 3, 4]\<rparr>,
     roundMessages := [(3, [(1, ex_msg MessageReq_RoundChange 1 3), (2, ex_msg MessageReq_RoundChange 1 3)]),
                       (7, [(1, ex_msg MessageReq_RoundChange 1 7)])]\<rparr>"

theorem maxRound_spec_witness: "maxRound ex_round_state = (3, True)"
proof -
  let ?m = "\<lambda>r. ex_msg MessageReq_RoundChange 1 r"
  have 1: "vs_MaxFaultyNodes (vset ex_round_state) = 1" by code_simp
  have 2: "roundMessages ex_round_state = [(3, [(1, ?m 3), (2, ?m 3)]), (7, [(1, ?m 7)])]"
    by (simp add: ex_round_state_def)
  show ?thesis
    unfolding spec [OF conjunct1 [OF maxRound_spec], of ex_round_state 3] 1 2
    by (intro conjI exI [of _ "[(1, ?m 3), (2, ?m 3)]"]) simp_all
qed

text \<open>C19. With \<open>3F + 1\<close> distinct validators, a commit tally above \<open>NumValid\<close> at one node and a
  prepare or commit tally above it at another were fed by more than \<open>F\<close> common validators, so by at
  least one honest one. The tallies are the maps that the nodes build with \<open>addMessage\<close>.\<close>

theorem tallies_overlap:
  assumes "state_inv c" "state_inv c'" "vset c' = vset c"
    and "distinct (validators (vset c))" "length (validators (vset c)) = 3 * f + 1"
    and "numCommitted c > NumValid c" "numCommitted c' > NumValid c' \<or> numPrepared c' > NumValid c'"
  shows "\<exists>Q. f < card Q \<and> Q \<subseteq> set (validators (vset c)) \<and> Q \<subseteq> dom (map_of (committed c)) \<and>
    (Q \<subseteq> dom (map_of (committed c')) \<or> Q \<subseteq> dom (map_of (prepared c')))"
proof -
  let ?V = "set (validators (vset c))" and ?A = "fst ` set (committed c)"
  have V: "card ?V = 3 * f + 1" using assms(4,5) by (simp add: distinct_card)
  have A: "?A \<subseteq> ?V" "2 * MaxFaulty (card ?V) < int (card ?A)"
    using tally_quorum [OF assms(1)] assms(5,6) V by simp_all
  obtain B where B: "B \<subseteq> ?V" "2 * MaxFaulty (card ?V) < int (card B)"
      "B \<subseteq> fst ` set (committed c') \<or> B \<subseteq> fst ` set (prepared c')"
    using tally_quorum [OF assms(2)] assms(3,5,7) V by (metis (no_types) order_refl)
  have "f < card (?A \<inter> B)"
    by (rule quorum_intersection [OF _ A(1) B(1) V A(2) B(2)]) simp
  then show ?thesis using A(1) B(3) by (intro exI [of _ "?A \<inter> B"]) (auto simp: dom_map_of_conv_image_fst)
qed

definition ex_commit :: "string \<Rightarrow> MessageReq" where
  "ex_commit a = (ex_msg MessageReq_Commit 1 0)\<lparr>mFrom := a\<rparr>"

definition ex_tally :: "string list \<Rightarrow> currentState" where
  "ex_tally senders = foldl (\<lambda>c a. addMessage (ex_commit a) c)
     (newState\<lparr>vset := NewValidatorSet\<lparr>validators := [1, 2, 3, 4]\<rparr>\<rparr>) senders"

lemma ex_tally_inv: "state_inv (ex_tally senders)"
proof -
  have "state_inv (foldl (\<lambda>c a. addMessage (ex_commit a) c) c senders)" if "state_inv c" for c
    using that by (induction senders arbitrary: c) (simp_all add: addMessage_inv)
  then show ?thesis by (simp add: ex_tally_def state_inv_def newState_def resetRoundMsgs_def)
qed

lemma vset_addMessage [simp]: "vset (addMessage msg c) = vset c"
  by (simp add: addMessage_def Let_def)

lemma ex_tally_vset: "vset (ex_tally senders) = NewValidatorSet\<lparr>validators := [1, 2, 3, 4]\<rparr>"
proof -
  have "vset (foldl (\<lambda>c a. addMessage (ex_commit a) c) c senders) = vset c" for c
    by (induction senders arbitrary: c) simp_all
  then show ?thesis by (simp add: ex_tally_def)
qed

lemma ex_tally_counts: "NumValid (ex_tally [''0x01'', ''0x02'', ''0x03'']) = 2 \<and> numCommitted (ex_tally [''0x01'', ''0x02'', ''0x03'']) = 3"
    "NumValid (ex_tally [''0x04'', ''0x02'', ''0x03'']) = 2 \<and> numCommitted (ex_tally [''0x04'', ''0x02'', ''0x03'']) = 3"
  by code_simp+

theorem tallies_overlap_witness:
  "\<exists>Q. 1 < card Q \<and> Q \<subseteq> {1, 2, 3, 4} \<and> Q \<subseteq> dom (map_of (committed (ex_tally [''0x01'', ''0x02'', ''0x03'']))) \<and>
    (Q \<subseteq> dom (map_of (committed (ex_tally [''0x04'', ''0x02'', ''0x03'']))) \<or> Q \<subseteq> dom (map_of (prepared (ex_tally [''0x04'', ''0x02'', ''0x03'']))))"
  using tallies_overlap [OF ex_tally_inv ex_tally_inv, of "[''0x04'', ''0x02'', ''0x03'']" "[''0x01'', ''0x02'', ''0x03'']" 1] ex_tally_counts
  by (simp add: ex_tally_vset)

end
