(* ===== verification/BftSnapshot.thy ===== *)
theory BftSnapshot
  imports BftValidators ChainTypes
begin

text \<open>
  Validator snapshots: \<open>consensus/pvbft/snapshot.go\<close> and the epoch logic of \<open>consensus/pvbft/pos.go\<close>.
  The store is a list sorted by block number, searched by bisection. \<open>sort.Sort\<close> is not stable, so
  the sorting function is an argument with two laws: it permutes its input and its output is
  sorted. Loading and saving the store as JSON files is not modelled.
\<close>

section \<open>Binary search\<close>

text \<open>\<open>sort.Search\<close>: the loop on \<open>[i, j)\<close>.\<close>

function search_loop :: "(nat \<Rightarrow> bool) \<Rightarrow> nat \<Rightarrow> nat \<Rightarrow> nat" where
  "search_loop f i j =
     (if i < j
      then let h = (i + j) div 2
           in if \<not> f h then search_loop f (h + 1) j else search_loop f i h
      else i)"
  by pat_completeness auto
termination
  by (relation "measure (\<lambda>(f, i, j). j - i)") auto

declare search_loop.simps [simp del]

definition sort_Search :: "nat \<Rightarrow> (nat \<Rightarrow> bool) \<Rightarrow> nat" where
  "sort_Search n f = search_loop f 0 n"

section \<open>Snapshots\<close>

record Vote =
  vtValidator :: address
  vtAddress :: address
  vtAuthorize :: bool

definition Vote_Equal :: "Vote \<Rightarrow> Vote \<Rightarrow> bool" where
  "Vote_Equal v vv =
     (if vtValidator v \<noteq> vtValidator vv then False
      else if vtAddress v \<noteq> vtAddress vv then False
      else if vtAuthorize v \<noteq> vtAuthorize vv then False
      else True)"

record Snapshot =
  snNumber :: u64
  snHash :: string
  snVotes :: "Vote list"
  snSet :: "address list"

definition SetEqual :: "address list \<Rightarrow> Snapshot \<Rightarrow> bool" where
  "SetEqual vv s = (if length (snSet s) \<noteq> length vv then False else equal_from (snSet s) vv)"

fun votes_equal :: "Vote list \<Rightarrow> Vote list \<Rightarrow> bool" where
  "votes_equal (v # vs) (w # ws) = (if \<not> Vote_Equal v w then False else votes_equal vs ws)"
| "votes_equal _ _ = True"

definition Snapshot_Equal :: "Snapshot \<Rightarrow> Snapshot \<Rightarrow> bool" where
  "Snapshot_Equal s ss =
     (if length (snVotes s) \<noteq> length (snVotes ss) then False
      else if \<not> votes_equal (snVotes s) (snVotes ss) then False
      else SetEqual (snSet ss) s)"

definition snap_Index :: "address \<Rightarrow> Snapshot \<Rightarrow> int" where
  "snap_Index addr s = index_from 0 addr (snSet s)"

definition snap_Includes :: "address \<Rightarrow> Snapshot \<Rightarrow> bool" where
  "snap_Includes addr s \<longleftrightarrow> snap_Index addr s \<noteq> - 1"

definition snap_Del :: "address \<Rightarrow> Snapshot \<Rightarrow> Snapshot option" where
  "snap_Del addr s = map_option (\<lambda>xs. s\<lparr>snSet := xs\<rparr>) (del_slice addr (snSet s))"

definition snap_MaxFaultyNodes :: "Snapshot \<Rightarrow> int" where
  "snap_MaxFaultyNodes s = MaxFaulty (length (snSet s))"

definition Count :: "(Vote \<Rightarrow> bool) \<Rightarrow> Snapshot \<Rightarrow> int" where
  "Count h s = foldl (\<lambda>count v. if h v then count + 1 else count) 0 (snVotes s)"

text \<open>\<open>RemoveVotes\<close> with its index: deleting at \<open>i\<close> steps the index back.\<close>

function remove_votes :: "(Vote \<Rightarrow> bool) \<Rightarrow> nat \<Rightarrow> Vote list \<Rightarrow> Vote list" where
  "remove_votes h i votes =
     (if i < length votes
      then if h (votes ! i) then remove_votes h i (take i votes @ drop (i + 1) votes)
           else remove_votes h (i + 1) votes
      else votes)"
  by pat_completeness auto
termination
  by (relation "measures [\<lambda>(h, i, votes). length votes, \<lambda>(h, i, votes). length votes - i]") auto

declare remove_votes.simps [simp del]

definition RemoveVotes :: "(Vote \<Rightarrow> bool) \<Rightarrow> Snapshot \<Rightarrow> Snapshot" where
  "RemoveVotes h s = s\<lparr>snVotes := remove_votes h 0 (snVotes s)\<rparr>"

text \<open>The copy has no hash.\<close>

definition snap_Copy :: "Snapshot \<Rightarrow> Snapshot" where
  "snap_Copy s = \<lparr>snNumber = snNumber s, snHash = '''', snVotes = snVotes s, snSet = snSet s\<rparr>"

section \<open>The store\<close>

record snapshotStore =
  lastNumber :: u64
  snapList :: "Snapshot list"

definition newSnapshotStore :: snapshotStore where
  "newSnapshotStore = \<lparr>lastNumber = 0, snapList = []\<rparr>"

definition getLastBlock :: "snapshotStore \<Rightarrow> u64" where
  "getLastBlock s = lastNumber s"

definition updateLastBlock :: "u64 \<Rightarrow> snapshotStore \<Rightarrow> snapshotStore" where
  "updateLastBlock num s = s\<lparr>lastNumber := num\<rparr>"

definition deleteLower :: "u64 \<Rightarrow> snapshotStore \<Rightarrow> snapshotStore" where
  "deleteLower num s =
     (let i = sort_Search (length (snapList s)) (\<lambda>i. snNumber (snapList s ! i) \<ge> num)
      in s\<lparr>snapList := drop i (snapList s)\<rparr>)"

definition store_find :: "u64 \<Rightarrow> snapshotStore \<Rightarrow> Snapshot option" where
  "store_find num s =
     (let list = snapList s in
      if length list = 0 then None
      else if snNumber (list ! (length list - 1)) < num then Some (list ! (length list - 1))
      else let i = sort_Search (length list) (\<lambda>i. snNumber (list ! i) \<ge> num)
           in if i < length list
              then if i = 0 then Some (list ! 0)
                   else if snNumber (list ! i) = num then Some (list ! i)
                   else Some (list ! (i - 1))
              else None)"

definition store_add :: "(Snapshot list \<Rightarrow> Snapshot list) \<Rightarrow> Snapshot \<Rightarrow> snapshotStore \<Rightarrow> snapshotStore" where
  "store_add srt snap s = s\<lparr>snapList := srt (snapList s @ [snap])\<rparr>"

fun replace_first :: "Snapshot \<Rightarrow> Snapshot list \<Rightarrow> Snapshot list" where
  "replace_first snap [] = []"
| "replace_first snap (sn # rest) =
     (if snNumber sn = snNumber snap then snap # rest else sn # replace_first snap rest)"

definition store_replace :: "Snapshot \<Rightarrow> snapshotStore \<Rightarrow> snapshotStore" where
  "store_replace snap s = s\<lparr>snapList := replace_first snap (snapList s)\<rparr>"

definition addHeaderSnap :: "(Snapshot list \<Rightarrow> Snapshot list) \<Rightarrow> Header \<Rightarrow> address list \<Rightarrow> snapshotStore
    \<Rightarrow> snapshotStore" where
  "addHeaderSnap srt header vals s =
     store_add srt \<lparr>snNumber = Number header, snHash = Hash_String (HHash header), snVotes = [],
                    snSet = vals\<rparr> s"

text \<open>
  \<open>processHeaders\<close>: \<open>proposerOf\<close> is the address recovered from a header's seal. The result is the
  error, if any, and the store, which keeps what was saved before an error; \<open>None\<close> is the panic on a
  missing parent snapshot.
\<close>

datatype snap_error = ErrRecover | ErrUnauthorizedProposer | ErrHeaderNotFound | ErrNextValidators
  | ErrSnapshotNotFound

fun process_loop :: "(Snapshot list \<Rightarrow> Snapshot list) \<Rightarrow> (Header \<Rightarrow> address option) \<Rightarrow> Snapshot \<Rightarrow> Header list
    \<Rightarrow> snapshotStore \<Rightarrow> snap_error option \<times> snapshotStore" where
  "process_loop srt proposerOf snap [] s = (None, s)"
| "process_loop srt proposerOf snap (h # hs) s =
     (case proposerOf h of
        None \<Rightarrow> (Some ErrRecover, s)
      | Some prop \<Rightarrow>
          if \<not> snap_Includes prop snap then (Some ErrUnauthorizedProposer, s)
          else let snap = snap\<lparr>snNumber := Number h, snHash := Hash_String (HHash h)\<rparr>
               in process_loop srt proposerOf (snap_Copy snap) hs (store_add srt snap s))"

definition processHeaders :: "(Snapshot list \<Rightarrow> Snapshot list) \<Rightarrow> (Header \<Rightarrow> address option) \<Rightarrow> Header list
    \<Rightarrow> snapshotStore \<Rightarrow> (snap_error option \<times> snapshotStore) option" where
  "processHeaders srt proposerOf headers s =
     (case headers of
        [] \<Rightarrow> Some (None, s)
      | h # hs \<Rightarrow>
          (case store_find (Number h - 1) s of
             None \<Rightarrow> None
           | Some parentSnap \<Rightarrow>
               Some (case process_loop srt proposerOf (snap_Copy parentSnap) headers s of
                       (Some e, s') \<Rightarrow> (Some e, s')
                     | (None, s') \<Rightarrow> (None, updateLastBlock (Number (last headers)) s'))))"

section \<open>Epochs\<close>

definition GetEpoch :: "u64 \<Rightarrow> u64 \<Rightarrow> u64" where
  "GetEpoch epochSize number =
     (if number mod epochSize = 0 then number div epochSize else number div epochSize + 1)"

definition IsLastOfEpoch :: "u64 \<Rightarrow> u64 \<Rightarrow> bool" where
  "IsLastOfEpoch epochSize number \<longleftrightarrow> number > 0 \<and> number mod epochSize = 0"

definition ShouldWriteTransactions :: "u64 \<Rightarrow> u64 \<Rightarrow> bool" where
  "ShouldWriteTransactions epochSize blockNumber \<longleftrightarrow> \<not> IsLastOfEpoch epochSize blockNumber"

definition verifyBlockHook :: "u64 \<Rightarrow> Block \<Rightarrow> bool" where
  "verifyBlockHook epochSize block \<longleftrightarrow>
     \<not> (IsLastOfEpoch epochSize (Block_Number block) \<and> length (blkTransactions block) > 0)"

section \<open>Bisection is correct\<close>

definition upward :: "nat \<Rightarrow> (nat \<Rightarrow> bool) \<Rightarrow> bool" where
  "upward n f \<longleftrightarrow> (\<forall>a b. a \<le> b \<longrightarrow> b < n \<longrightarrow> f a \<longrightarrow> f b)"

lemma search_loop_spec:
  assumes "upward n f" "i \<le> j" "j \<le> n" "\<forall>k<i. \<not> f k" "\<forall>k. j \<le> k \<and> k < n \<longrightarrow> f k"
  shows "search_loop f i j \<le> n \<and> (\<forall>k < search_loop f i j. \<not> f k) \<and>
    (\<forall>k. search_loop f i j \<le> k \<and> k < n \<longrightarrow> f k)"
  using assms
proof (induction f i j rule: search_loop.induct)
  case (1 f i j)
  show ?case
  proof (cases "i < j")
    case False
    then have "search_loop f i j = i" by (subst search_loop.simps) simp
    then show ?thesis using "1.prems" False by simp
  next
    case True
    let ?h = "(i + j) div 2"
    have h: "i \<le> ?h" "?h < j" using True by auto
    show ?thesis
    proof (cases "f ?h")
      case fh: True
      have up: "\<forall>k. ?h \<le> k \<and> k < n \<longrightarrow> f k"
        using "1.prems"(1) fh unfolding upward_def by blast
      have "?h \<le> n" using h "1.prems"(3) by simp
      note IH = "1.IH"(2) [OF True refl _ "1.prems"(1) h(1) this "1.prems"(4) up]
      have eq: "search_loop f i j = search_loop f i ?h"
        by (subst search_loop.simps) (simp add: True fh Let_def)
      show ?thesis unfolding eq by (rule IH) (simp add: fh)
    next
      case fh: False
      have down: "\<forall>k<?h + 1. \<not> f k"
      proof (intro allI impI notI)
        fix k
        assume k: "k < ?h + 1" "f k"
        then have "k \<le> ?h" "?h < n" using h(2) "1.prems"(3) by simp_all
        then have "f ?h" using "1.prems"(1) k(2) unfolding upward_def by blast
        with fh show False by simp
      qed
      have "?h + 1 \<le> j" using h by simp
      note IH = "1.IH"(1) [OF True refl fh "1.prems"(1) this "1.prems"(3) down "1.prems"(5)]
      have eq: "search_loop f i j = search_loop f (?h + 1) j"
        by (subst search_loop.simps) (simp add: True fh Let_def)
      show ?thesis unfolding eq by (rule IH)
    qed
  qed
qed

lemma sort_Search_spec:
  assumes "upward n f"
  shows "sort_Search n f \<le> n" "k < sort_Search n f \<Longrightarrow> \<not> f k"
    "sort_Search n f \<le> k \<Longrightarrow> k < n \<Longrightarrow> f k"
proof -
  have *: "sort_Search n f \<le> n \<and> (\<forall>k < sort_Search n f. \<not> f k) \<and>
      (\<forall>k. sort_Search n f \<le> k \<and> k < n \<longrightarrow> f k)"
    unfolding sort_Search_def by (rule search_loop_spec [OF assms]) auto
  show "sort_Search n f \<le> n" by (rule conjunct1 [OF *])
  show "k < sort_Search n f \<Longrightarrow> \<not> f k" using * by blast
  show "sort_Search n f \<le> k \<Longrightarrow> k < n \<Longrightarrow> f k" using * by blast
qed

section \<open>The store finds the snapshot in force\<close>

definition store_sorted :: "snapshotStore \<Rightarrow> bool" where
  "store_sorted s \<longleftrightarrow> sorted (map snNumber (snapList s))"

definition sorts :: "(Snapshot list \<Rightarrow> Snapshot list) \<Rightarrow> bool" where
  "sorts srt \<longleftrightarrow> (\<forall>xs. mset (srt xs) = mset xs \<and> sorted (map snNumber (srt xs)))"

lemma sorts_sort_key: "sorts (sort_key snNumber)"
  by (simp add: sorts_def)

lemma sorted_nth_number:
  "sorted (map snNumber xs) \<Longrightarrow> a \<le> b \<Longrightarrow> b < length xs \<Longrightarrow> snNumber (xs ! a) \<le> snNumber (xs ! b)"
  by (auto dest: sorted_nth_mono [where i = a and j = b])

text \<open>The snapshot in force at a height: the latest one not above it, or the oldest of all.\<close>

definition in_force :: "u64 \<Rightarrow> Snapshot list \<Rightarrow> Snapshot \<Rightarrow> bool" where
  "in_force num xs r \<longleftrightarrow> r \<in> set xs \<and>
     (if \<exists>t\<in>set xs. snNumber t \<le> num
      then snNumber r \<le> num \<and> (\<forall>t\<in>set xs. snNumber t \<le> num \<longrightarrow> snNumber t \<le> snNumber r)
      else r = hd xs)"

lemma in_forceI:
  assumes "r \<in> set xs" "snNumber r \<le> num" "\<And>t. t \<in> set xs \<Longrightarrow> snNumber t \<le> num \<Longrightarrow> snNumber t \<le> snNumber r"
  shows "in_force num xs r"
  using assms by (auto simp: in_force_def)

lemma in_force_hd:
  assumes "xs \<noteq> []" "\<And>t. t \<in> set xs \<Longrightarrow> num \<le> snNumber t \<and> snNumber (hd xs) \<le> snNumber t"
  shows "in_force num xs (hd xs)"
proof (cases "\<exists>t\<in>set xs. snNumber t \<le> num")
  case True
  then obtain u where u: "u \<in> set xs" "snNumber u \<le> num" by blast
  have "snNumber (hd xs) \<le> num" using assms(2) [OF u(1)] u(2) by (meson order_trans)
  moreover have "num \<le> snNumber (hd xs)" using assms(2) [of "hd xs"] assms(1) by simp
  ultimately show ?thesis using assms(1) by (intro in_forceI) simp_all
next
  case False
  then show ?thesis using assms(1) by (simp add: in_force_def)
qed

lemma store_find_search:
  assumes "store_sorted s" "snapList s \<noteq> []" "num \<le> snNumber (last (snapList s))"
  defines "i \<equiv> sort_Search (length (snapList s)) (\<lambda>i. snNumber (snapList s ! i) \<ge> num)"
  shows "i < length (snapList s)" "\<And>k. k < i \<Longrightarrow> snNumber (snapList s ! k) < num"
    "num \<le> snNumber (snapList s ! i)"
proof -
  let ?xs = "snapList s" and ?n = "length (snapList s)"
  have up: "upward ?n (\<lambda>i. snNumber (?xs ! i) \<ge> num)"
    unfolding upward_def
    by (intro allI impI, erule order_trans, rule sorted_nth_number [OF assms(1) [unfolded store_sorted_def]])
  note S = sort_Search_spec [OF up, folded i_def]
  have "i \<noteq> ?n" using S(2) [of "?n - 1"] assms(2,3) by (auto simp: last_conv_nth)
  then show lt: "i < ?n" using S(1) by simp
  show "snNumber (?xs ! k) < num" if "k < i" for k using S(2) [OF that] by simp
  show "num \<le> snNumber (?xs ! i)" using S(3) lt by simp
qed

lemma store_find_spec:
  assumes "store_sorted s" "snapList s \<noteq> []"
  shows "\<exists>r. store_find num s = Some r \<and> in_force num (snapList s) r"
proof (cases "snNumber (last (snapList s)) < num")
  case True
  let ?r = "last (snapList s)"
  have "snNumber t \<le> snNumber ?r" if t: "t \<in> set (snapList s)" for t
  proof -
    obtain k where "k < length (snapList s)" "t = snapList s ! k" using t by (auto simp: in_set_conv_nth)
    then show ?thesis
      using sorted_nth_number [OF assms(1) [unfolded store_sorted_def], of k "length (snapList s) - 1"]
        assms(2) by (simp add: last_conv_nth)
  qed
  then have "in_force num (snapList s) ?r"
    using assms(2) True by (intro in_forceI) simp_all
  moreover have "store_find num s = Some ?r"
    using True assms(2) by (simp add: store_find_def last_conv_nth Let_def)
  ultimately show ?thesis by blast
next
  case False
  let ?xs = "snapList s"
  define i where "i = sort_Search (length ?xs) (\<lambda>i. snNumber (?xs ! i) \<ge> num)"
  have "num \<le> snNumber (last ?xs)" using False by simp
  note S = store_find_search [OF assms this, folded i_def]
  note sorted = sorted_nth_number [OF assms(1) [unfolded store_sorted_def]]
  have find: "store_find num s =
      Some (if i = 0 then ?xs ! 0 else if snNumber (?xs ! i) = num then ?xs ! i else ?xs ! (i - 1))"
    using False assms(2) S(1) by (simp add: store_find_def last_conv_nth Let_def i_def [symmetric])
  have later: "num \<le> snNumber (?xs ! k)" if "i \<le> k" "k < length ?xs" for k
    using S(3) sorted [OF that] by simp
  consider (first) "i = 0" | (hit) "i \<noteq> 0" "snNumber (?xs ! i) = num"
    | (before) "i \<noteq> 0" "snNumber (?xs ! i) \<noteq> num" by blast
  then show ?thesis
  proof cases
    case first
    have "in_force num ?xs (hd ?xs)"
    proof (rule in_force_hd [OF assms(2)])
      fix t
      assume "t \<in> set ?xs"
      then obtain k where "k < length ?xs" "t = ?xs ! k" by (auto simp: in_set_conv_nth)
      then show "num \<le> snNumber t \<and> snNumber (hd ?xs) \<le> snNumber t"
        using later [of k] sorted [of 0 k] first assms(2) by (simp add: hd_conv_nth)
    qed
    then show ?thesis using find first assms(2) by (simp add: hd_conv_nth)
  next
    case hit
    then have "in_force num ?xs (?xs ! i)" using S(1) by (intro in_forceI) simp_all
    then show ?thesis using find hit by simp
  next
    case before
    have "in_force num ?xs (?xs ! (i - 1))"
    proof (rule in_forceI)
      show "?xs ! (i - 1) \<in> set ?xs" using S(1) by simp
      show "snNumber (?xs ! (i - 1)) \<le> num" using S(2) [of "i - 1"] before(1) by simp
      fix t
      assume t: "t \<in> set ?xs" "snNumber t \<le> num"
      then obtain k where k: "k < length ?xs" "t = ?xs ! k" by (auto simp: in_set_conv_nth)
      have "num < snNumber (?xs ! i)" using S(3) before(2) by simp
      have "\<not> i \<le> k"
      proof
        assume "i \<le> k"
        from sorted [OF this k(1)] \<open>num < snNumber (?xs ! i)\<close> t(2) k(2) show False by simp
      qed
      then show "snNumber t \<le> snNumber (?xs ! (i - 1))"
        unfolding k(2) using S(1) by (intro sorted) simp_all
    qed
    then show ?thesis using find before by simp
  qed
qed

section \<open>Votes and membership\<close>

lemma snap_Includes_iff [simp]: "snap_Includes addr s \<longleftrightarrow> addr \<in> set (snSet s)"
  by (auto simp: snap_Includes_def snap_Index_def index_from_spec)

lemma SetEqual_iff [simp]: "SetEqual vv s \<longleftrightarrow> snSet s = vv"
  using equal_from_iff by (auto simp: SetEqual_def)

lemma Vote_Equal_iff: "Vote_Equal v w \<longleftrightarrow> v = w"
  by (auto simp: Vote_Equal_def)

lemma votes_equal_iff: "length vs = length ws \<Longrightarrow> votes_equal vs ws \<longleftrightarrow> vs = ws"
  by (induction vs ws rule: list_induct2) (auto simp: Vote_Equal_iff)

lemma Snapshot_Equal_iff: "Snapshot_Equal s ss \<longleftrightarrow> snVotes s = snVotes ss \<and> snSet s = snSet ss"
  using votes_equal_iff by (auto simp: Snapshot_Equal_def)

lemma Count_filter: "Count h s = int (length (filter h (snVotes s)))"
proof -
  have "foldl (\<lambda>count v. if h v then count + 1 else count) a vs = a + int (length (filter h vs))" for a vs
    by (induction vs arbitrary: a) auto
  then show ?thesis by (simp add: Count_def)
qed

lemma remove_votes_filter:
  "i \<le> length votes \<Longrightarrow> remove_votes h i votes = take i votes @ filter (\<lambda>v. \<not> h v) (drop i votes)"
proof (induction h i votes rule: remove_votes.induct)
  case (1 h i votes)
  show ?case
  proof (cases "i < length votes")
    case True
    have d: "drop i votes = votes ! i # drop (i + 1) votes" using True by (simp add: Cons_nth_drop_Suc)
    show ?thesis
    proof (cases "h (votes ! i)")
      case h: True
      have "remove_votes h i votes = remove_votes h i (take i votes @ drop (i + 1) votes)"
        by (subst remove_votes.simps) (simp add: True h)
      also have "\<dots> = take i votes @ filter (\<lambda>v. \<not> h v) (drop (i + 1) votes)"
        using "1.IH"(1) [OF True h] True by simp
      finally show ?thesis using h d by simp
    next
      case h: False
      have "remove_votes h i votes = remove_votes h (i + 1) votes"
        by (subst remove_votes.simps) (simp add: True h)
      also have "\<dots> = take (i + 1) votes @ filter (\<lambda>v. \<not> h v) (drop (i + 1) votes)"
        using "1.IH"(2) [OF True h] True by simp
      finally show ?thesis using h d True by (simp add: take_Suc_conv_app_nth)
    qed
  next
    case False
    have "remove_votes h i votes = votes" by (subst remove_votes.simps) (simp add: False)
    with False "1.prems" show ?thesis by simp
  qed
qed

lemma RemoveVotes_filter: "snVotes (RemoveVotes h s) = filter (\<lambda>v. \<not> h v) (snVotes s)"
  by (simp add: RemoveVotes_def remove_votes_filter)

section \<open>Adding snapshots\<close>

lemma store_add_sorted [inv_intros]: "sorts srt \<Longrightarrow> store_sorted (store_add srt snap s)"
  by (simp add: store_sorted_def store_add_def sorts_def)

lemma store_add_mset: "sorts srt \<Longrightarrow> mset (snapList (store_add srt snap s)) = add_mset snap (mset (snapList s))"
  by (simp add: store_add_def sorts_def)

lemma store_add_set: "sorts srt \<Longrightarrow> set (snapList (store_add srt snap s)) = insert snap (set (snapList s))"
  using arg_cong [OF store_add_mset, of srt set_mset snap s] by simp

lemma store_find_add:
  assumes "sorts srt" "snNumber snap \<le> num"
    and "\<forall>t\<in>set (snapList s). snNumber t \<le> num \<longrightarrow> snNumber t < snNumber snap"
  shows "store_find num (store_add srt snap s) = Some snap"
proof -
  let ?s = "store_add srt snap s"
  have set: "set (snapList ?s) = insert snap (set (snapList s))" by (rule store_add_set [OF assms(1)])
  then obtain r where r: "store_find num ?s = Some r" "in_force num (snapList ?s) r"
    using store_find_spec [OF store_add_sorted [OF assms(1)], of snap s num] by fastforce
  have "\<exists>t\<in>set (snapList ?s). snNumber t \<le> num" using set assms(2) by auto
  then have "r \<in> set (snapList ?s)" "snNumber r \<le> num" "snNumber snap \<le> snNumber r"
    using r(2) assms(2) set unfolding in_force_def by simp_all
  then have "r = snap" using set assms(3) by fastforce
  with r show ?thesis by simp
qed

definition header_snap :: "Snapshot \<Rightarrow> Header \<Rightarrow> Snapshot" where
  "header_snap parent h = \<lparr>snNumber = Number h, snHash = Hash_String (HHash h), snVotes = snVotes parent,
     snSet = snSet parent\<rparr>"

lemma process_loop_ok:
  assumes "sorts srt" "process_loop srt proposerOf snap hs s = (None, s')"
  shows "(\<forall>h\<in>set hs. \<exists>a. proposerOf h = Some a \<and> a \<in> set (snSet snap)) \<and>
    mset (snapList s') = mset (snapList s) + mset (map (header_snap snap) hs) \<and>
    lastNumber s' = lastNumber s \<and> (hs \<noteq> [] \<longrightarrow> store_sorted s')"
  using assms(2)
proof (induction hs arbitrary: snap s)
  case (Cons h hs)
  let ?snap = "snap\<lparr>snNumber := Number h, snHash := Hash_String (HHash h)\<rparr>"
  obtain a where a: "proposerOf h = Some a" "a \<in> set (snSet snap)"
    using Cons.prems by (auto split: option.splits if_splits)
  then have rec: "process_loop srt proposerOf (snap_Copy ?snap) hs (store_add srt ?snap s) = (None, s')"
    using Cons.prems by (simp add: Let_def)
  have e: "header_snap (snap_Copy ?snap) = header_snap snap" "snSet (snap_Copy ?snap) = snSet snap"
    "header_snap snap h = ?snap"
    by (simp_all add: header_snap_def snap_Copy_def fun_eq_iff)
  note IH = Cons.IH [OF rec, unfolded e(1,2) store_add_mset [OF assms(1)]]
  have "store_sorted s'"
  proof (cases "hs = []")
    case True
    then show ?thesis using rec store_add_sorted [OF assms(1), of ?snap s] by auto
  qed (use IH in blast)
  then show ?case using IH a e(3) by (auto simp: store_add_def)
qed simp

text \<open>C22. On a sorted store \<open>find\<close> returns the snapshot in force at a height: the latest one that is
  not above it, or the oldest one if all are. A snapshot that \<open>add\<close> stores is found again, at its
  height and above it, until a later one.\<close>

theorem store_find_in_force:
  "(store_sorted s \<longrightarrow> snapList s \<noteq> [] \<longrightarrow>
      (\<exists>r. store_find num s = Some r \<and> in_force num (snapList s) r)) \<and>
   (sorts srt \<longrightarrow> snNumber snap \<le> num \<longrightarrow>
      (\<forall>t\<in>set (snapList s). snNumber t \<le> num \<longrightarrow> snNumber t < snNumber snap) \<longrightarrow>
      store_find num (store_add srt snap s) = Some snap)"
  using store_find_spec [of s num] store_find_add [of srt snap num s] by blast

definition ex_snap :: "u64 \<Rightarrow> Snapshot" where
  "ex_snap n = \<lparr>snNumber = n, snHash = '''', snVotes = [], snSet = [1, 2, 3, 4]\<rparr>"

theorem store_find_in_force_witness:
  "store_find 15 (store_add (sort_key snNumber) (ex_snap 10) \<lparr>lastNumber = 0, snapList = [ex_snap 0, ex_snap 20]\<rparr>)
     = Some (ex_snap 10) \<and>
   (\<exists>r. store_find 15 \<lparr>lastNumber = 0, snapList = [ex_snap 0, ex_snap 20]\<rparr> = Some r \<and>
      in_force 15 [ex_snap 0, ex_snap 20] r)"
  using store_find_in_force [of "\<lparr>lastNumber = 0, snapList = [ex_snap 0, ex_snap 20]\<rparr>" 15 "sort_key snNumber" "ex_snap 10"]
  by (simp add: sorts_sort_key store_sorted_def ex_snap_def)

text \<open>C23. \<open>processHeaders\<close> succeeds only if the seal of every header was made by a validator of the
  snapshot in force at the parent of the first one; it then adds one snapshot per header with that
  validator set, keeps the store sorted and records the height of the last header.\<close>

theorem processHeaders_saves:
  assumes "sorts srt" "headers \<noteq> []" "processHeaders srt proposerOf headers s = Some (None, s')"
  shows "\<exists>parent. store_find (Number (hd headers) - 1) s = Some parent \<and>
    (\<forall>h\<in>set headers. \<exists>a. proposerOf h = Some a \<and> a \<in> set (snSet parent)) \<and>
    mset (snapList s') = mset (snapList s) + mset (map (header_snap parent) headers) \<and>
    store_sorted s' \<and> lastNumber s' = Number (last headers)"
proof -
  obtain parent s1 where p: "store_find (Number (hd headers) - 1) s = Some parent"
    and l: "process_loop srt proposerOf (snap_Copy parent) headers s = (None, s1)"
    and s': "s' = updateLastBlock (Number (last headers)) s1"
    using assms(2,3)
    by (cases headers) (auto simp: processHeaders_def split: option.splits prod.splits)
  have e: "header_snap (snap_Copy parent) = header_snap parent" "snSet (snap_Copy parent) = snSet parent"
    by (simp_all add: header_snap_def snap_Copy_def fun_eq_iff)
  show ?thesis
    using process_loop_ok [OF assms(1) l, unfolded e] assms(2) p
    by (simp add: s' updateLastBlock_def store_sorted_def)
qed

theorem processHeaders_saves_witness:
  "\<exists>s'. processHeaders (sort_key snNumber) (\<lambda>_. Some 2) [header0\<lparr>Number := 1\<rparr>, header0\<lparr>Number := 2\<rparr>]
      \<lparr>lastNumber = 0, snapList = [ex_snap 0]\<rparr> = Some (None, s') \<and> store_sorted s' \<and> lastNumber s' = 2"
proof -
  let ?hs = "[header0\<lparr>Number := 1\<rparr>, header0\<lparr>Number := 2\<rparr>]" and ?s = "\<lparr>lastNumber = 0, snapList = [ex_snap 0]\<rparr>"
  have "map_option fst (processHeaders (sort_key snNumber) (\<lambda>_. Some 2) ?hs ?s) = Some None"
    by code_simp
  then obtain s' where s': "processHeaders (sort_key snNumber) (\<lambda>_. Some 2) ?hs ?s = Some (None, s')"
    by auto
  show ?thesis
    using processHeaders_saves [OF sorts_sort_key _ s'] s' by auto
qed

section \<open>Exact hits\<close>

lemma store_find_exact:
  assumes "store_sorted s" "\<exists>t\<in>set (snapList s). snNumber t = num"
  shows "store_find num s = List.find (\<lambda>t. snNumber t = num) (snapList s)"
proof -
  let ?xs = "snapList s"
  define i where "i = sort_Search (length ?xs) (\<lambda>i. snNumber (?xs ! i) \<ge> num)"
  have ne: "?xs \<noteq> []" using assms(2) by auto
  obtain j where j: "j < length ?xs" "snNumber (?xs ! j) = num" using assms(2) by (auto simp: in_set_conv_nth)
  have "snNumber (?xs ! j) \<le> snNumber (?xs ! (length ?xs - 1))"
    using j(1) by (intro sorted_nth_number assms(1) [unfolded store_sorted_def]) simp_all
  then have last: "num \<le> snNumber (last ?xs)" using j(2) ne by (simp add: last_conv_nth)
  note S = store_find_search [OF assms(1) ne last, folded i_def]
  have "i \<le> j" using S(2) [of j] j(2) by (meson less_irrefl not_le)
  then have "snNumber (?xs ! i) \<le> num"
    using sorted_nth_number [OF assms(1) [unfolded store_sorted_def], of i j] j by simp
  then have hit: "snNumber (?xs ! i) = num" using S(3) by simp
  have "store_find num s = Some (?xs ! i)"
    using last ne S(1) hit by (simp add: store_find_def last_conv_nth Let_def i_def [symmetric] leD)
  moreover have "List.find (\<lambda>t. snNumber t = num) ?xs = Some (?xs ! i)"
    using S(1) hit S(2) [THEN less_imp_neq] by (subst find_Some_iff) (auto intro!: exI [of _ i])
  ultimately show ?thesis by simp
qed

lemma map_number_replace [simp]: "map snNumber (replace_first snap xs) = map snNumber xs"
  by (induction xs) simp_all

lemma find_replace_first:
  "\<exists>t\<in>set xs. snNumber t = snNumber snap \<Longrightarrow>
     List.find (\<lambda>t. snNumber t = snNumber snap) (replace_first snap xs) = Some snap"
  by (induction xs) auto

lemma store_find_replace:
  assumes "store_sorted s" "\<exists>t\<in>set (snapList s). snNumber t = snNumber snap"
  shows "store_find (snNumber snap) (store_replace snap s) = Some snap"
proof -
  have "store_sorted (store_replace snap s)"
    using assms(1) by (simp add: store_sorted_def store_replace_def)
  moreover have "snNumber snap \<in> set (map snNumber (snapList (store_replace snap s)))"
    using assms(2) by (auto simp: store_replace_def intro: rev_image_eqI)
  then have "\<exists>t\<in>set (snapList (store_replace snap s)). snNumber t = snNumber snap" by auto
  ultimately have "store_find (snNumber snap) (store_replace snap s)
      = List.find (\<lambda>t. snNumber t = snNumber snap) (snapList (store_replace snap s))"
    by (rule store_find_exact)
  also have "\<dots> = Some snap" using find_replace_first [OF assms(2)] by (simp add: store_replace_def)
  finally show ?thesis .
qed

end
