(* ===== verification/Receipts.thy ===== *)
theory Receipts
  imports ChainTypes
begin

text \<open>
  Receipts, logs and the bloom filter of \<open>types/receipt.go\<close>. A bloom is a list of 256 bytes; Keccak-256
  is an argument that returns the 32 bytes of the hash as a list.
\<close>

unbundle bit_operations_syntax

section \<open>Receipts\<close>

definition ReceiptFailed :: u64 where "ReceiptFailed = 0"
definition ReceiptSuccess :: u64 where "ReceiptSuccess = 1"

type_synonym Bloom = bytes

definition BloomByteLength :: nat where "BloomByteLength = 256"

record Log =
  logAddress :: address
  logTopics :: "hash list"
  logData :: bytes

record Receipt =
  rRoot :: hash
  CumulativeGasUsed :: u64
  rLogsBloom :: Bloom
  rLogs :: "Log list"
  rStatus :: "u64 option"
  rGasUsed :: u64
  ContractAddress :: address
  rTxHash :: hash

definition SetStatus :: "u64 \<Rightarrow> Receipt \<Rightarrow> Receipt" where
  "SetStatus s r = r\<lparr>rStatus := Some s\<rparr>"

section \<open>The bloom filter\<close>

definition Bloom_String :: "Bloom \<Rightarrow> string" where
  "Bloom_String b = hex_EncodeToHex b"

text \<open>The bit that the bytes \<open>i\<close> and \<open>i + 1\<close> of the hash select, as byte and position.\<close>

definition bloom_bit :: "bytes \<Rightarrow> nat \<Rightarrow> nat" where
  "bloom_bit buf i = (unat (buf ! (i + 1)) + unat (buf ! i) * 256) mod 2048"

definition byteLocation :: "nat \<Rightarrow> nat" where
  "byteLocation n = 256 - 1 - n div 8"

definition bloom_set :: "nat \<Rightarrow> Bloom \<Rightarrow> Bloom" where
  "bloom_set n b =
     b[byteLocation n := (b ! byteLocation n) OR push_bit (n mod 8) 1]"

definition setEncode :: "(bytes \<Rightarrow> bytes) \<Rightarrow> bytes \<Rightarrow> Bloom \<Rightarrow> Bloom" where
  "setEncode keccak h b =
     (let buf = keccak h in foldl (\<lambda>b i. bloom_set (bloom_bit buf i) b) b [0, 2, 4])"

definition add_log :: "(bytes \<Rightarrow> bytes) \<Rightarrow> Bloom \<Rightarrow> Log \<Rightarrow> Bloom" where
  "add_log keccak b log =
     foldl (\<lambda>b topic. setEncode keccak (Hash_Bytes topic) b)
       (setEncode keccak (Address_Bytes (logAddress log)) b) (logTopics log)"

definition CreateBloom :: "(bytes \<Rightarrow> bytes) \<Rightarrow> Receipt list \<Rightarrow> Bloom" where
  "CreateBloom keccak receipts =
     foldl (\<lambda>b receipt. foldl (add_log keccak) b (rLogs receipt)) (replicate BloomByteLength 0) receipts"

text \<open>
  The test reads the bit below the one that \<open>setEncode\<close> sets: \<open>1 << (bitLocation - 1)\<close>. For
  \<open>bitLocation = 0\<close> the unsigned shift amount is the largest \<open>uint\<close> and the mask is zero.
\<close>

definition bit_test :: "nat \<Rightarrow> Bloom \<Rightarrow> bool" where
  "bit_test n b \<longleftrightarrow>
     (let bitLocation = n mod 8;
          mask = (if bitLocation = 0 then 0 else push_bit (bitLocation - 1) 1)
      in b ! byteLocation n AND mask \<noteq> 0)"

definition isByteArrPresent :: "(bytes \<Rightarrow> bytes) \<Rightarrow> bytes \<Rightarrow> Bloom \<Rightarrow> bool" where
  "isByteArrPresent keccak data b =
     (let buf = keccak data in list_all (\<lambda>i. bit_test (bloom_bit buf i) b) [0, 2, 4])"

definition IsLogInBloom :: "(bytes \<Rightarrow> bytes) \<Rightarrow> Log \<Rightarrow> Bloom \<Rightarrow> bool" where
  "IsLogInBloom keccak log b =
     (if \<not> isByteArrPresent keccak (Address_Bytes (logAddress log)) b then False
      else list_all (\<lambda>topic. isByteArrPresent keccak (Hash_Bytes topic) b) (logTopics log))"

section \<open>What the filter records\<close>

definition bloom_has :: "nat \<Rightarrow> Bloom \<Rightarrow> bool" where
  "bloom_has n b \<longleftrightarrow> bit (b ! byteLocation n) (n mod 8)"

lemma byteLocation_less: "byteLocation n < 256"
  by (simp add: byteLocation_def)

lemma byteLocation_inj:
  assumes "m < 2048" "n < 2048"
  shows "byteLocation m = byteLocation n \<longleftrightarrow> m div 8 = n div 8"
proof -
  have "m div 8 < 256" "n div 8 < 256" using assms by auto
  then show ?thesis by (auto simp: byteLocation_def)
qed

lemma bloom_bit_less: "bloom_bit buf i < 2048"
  by (simp add: bloom_bit_def)

lemma length_bloom_set [simp]: "length (bloom_set n b) = length b"
  by (simp add: bloom_set_def)

lemma bit_pow_u8: "k < 8 \<Longrightarrow> bit (2 ^ k :: u8) j \<longleftrightarrow> j = k"
  by (auto simp: bit_exp_iff)

lemma bloom_has_set:
  assumes "length b = 256" "m < 2048" "n < 2048"
  shows "bloom_has m (bloom_set n b) \<longleftrightarrow> m = n \<or> bloom_has m b"
proof (cases "byteLocation m = byteLocation n")
  case True
  then have d: "m div 8 = n div 8" using byteLocation_inj [OF assms(2,3)] by simp
  have "m mod 8 = n mod 8 \<longleftrightarrow> m = n" using d by (metis div_mult_mod_eq)
  then show ?thesis
    using True assms(1) byteLocation_less [of n]
    by (auto simp: bloom_has_def bloom_set_def bit_or_iff push_bit_eq_mult bit_pow_u8)
next
  case False
  then show ?thesis by (auto simp: bloom_has_def bloom_set_def)
qed

definition bloom_bits :: "(bytes \<Rightarrow> bytes) \<Rightarrow> bytes \<Rightarrow> nat set" where
  "bloom_bits keccak data = bloom_bit (keccak data) ` {0, 2, 4}"

lemma length_setEncode [simp]: "length (setEncode keccak h b) = length b"
  by (simp add: setEncode_def Let_def)

lemma bloom_has_setEncode:
  assumes "length b = 256" "m < 2048"
  shows "bloom_has m (setEncode keccak h b) \<longleftrightarrow> m \<in> bloom_bits keccak h \<or> bloom_has m b"
  using assms by (auto simp: setEncode_def Let_def bloom_has_set bloom_bit_less bloom_bits_def)

lemma length_foldl_setEncode [simp]:
  "length (foldl (\<lambda>b t. setEncode keccak (Hash_Bytes t) b) b ts) = length b"
  by (induction ts arbitrary: b) simp_all

lemma bloom_has_topics:
  assumes "length b = 256" "m < 2048"
  shows "bloom_has m (foldl (\<lambda>b t. setEncode keccak (Hash_Bytes t) b) b ts) \<longleftrightarrow>
    (\<exists>t\<in>set ts. m \<in> bloom_bits keccak (Hash_Bytes t)) \<or> bloom_has m b"
  using assms by (induction ts arbitrary: b) (auto simp: bloom_has_setEncode)

definition log_bits :: "(bytes \<Rightarrow> bytes) \<Rightarrow> Log \<Rightarrow> nat set" where
  "log_bits keccak log =
     bloom_bits keccak (Address_Bytes (logAddress log)) \<union>
     (\<Union>t\<in>set (logTopics log). bloom_bits keccak (Hash_Bytes t))"

lemma length_add_log [simp]: "length (add_log keccak b log) = length b"
  by (simp add: add_log_def)

lemma bloom_has_log:
  assumes "length b = 256" "m < 2048"
  shows "bloom_has m (add_log keccak b log) \<longleftrightarrow> m \<in> log_bits keccak log \<or> bloom_has m b"
  using assms by (auto simp: add_log_def log_bits_def bloom_has_topics bloom_has_setEncode)

lemma length_foldl_log [simp]: "length (foldl (add_log keccak) b logs) = length b"
  by (induction logs arbitrary: b) simp_all

lemma bloom_has_logs:
  assumes "length b = 256" "m < 2048"
  shows "bloom_has m (foldl (add_log keccak) b logs) \<longleftrightarrow>
    (\<exists>l\<in>set logs. m \<in> log_bits keccak l) \<or> bloom_has m b"
  using assms by (induction logs arbitrary: b) (auto simp: bloom_has_log)

lemma bloom_has_receipts:
  assumes "length b = 256" "m < 2048"
  shows "bloom_has m (foldl (\<lambda>b r. foldl (add_log keccak) b (rLogs r)) b rs) \<longleftrightarrow>
    (\<exists>r\<in>set rs. \<exists>l\<in>set (rLogs r). m \<in> log_bits keccak l) \<or> bloom_has m b"
  using assms by (induction rs arbitrary: b) (auto simp: bloom_has_logs)

lemma bloom_has_empty: "\<not> bloom_has m (replicate 256 0)"
  by (simp add: bloom_has_def byteLocation_less)

text \<open>C26. The bloom of a list of receipts has exactly the bits that the addresses and topics of
  their logs select: nothing is lost and nothing else is set.\<close>

theorem CreateBloom_bits:
  assumes "m < 2048"
  shows "bit (CreateBloom keccak rs ! byteLocation m) (m mod 8) \<longleftrightarrow>
    (\<exists>r\<in>set rs. \<exists>l\<in>set (rLogs r). m \<in> log_bits keccak l)"
  using bloom_has_receipts [of "replicate 256 0" m keccak rs] assms bloom_has_empty
  by (simp add: CreateBloom_def BloomByteLength_def bloom_has_def)

definition ex_log :: Log where
  "ex_log = \<lparr>logAddress = 3, logTopics = [], logData = []\<rparr>"

definition ex_receipt :: Receipt where
  "ex_receipt = \<lparr>rRoot = 0, CumulativeGasUsed = 0, rLogsBloom = [], rLogs = [ex_log], rStatus = Some 1,
     rGasUsed = 0, ContractAddress = 0, rTxHash = 0\<rparr>"

theorem CreateBloom_bits_witness:
  "bit (CreateBloom (\<lambda>_. replicate 32 0) [ex_receipt] ! byteLocation 0) 0"
  using CreateBloom_bits [of 0 "\<lambda>_. replicate 32 0" "[ex_receipt]"]
  by (simp add: ex_receipt_def ex_log_def log_bits_def bloom_bits_def bloom_bit_def)

text \<open>The test looks at other bits, so the filter can deny a log that it contains.\<close>

lemma bloom_false_negative:
  "\<not> IsLogInBloom (\<lambda>_. replicate 32 0) ex_log (CreateBloom (\<lambda>_. replicate 32 0) [ex_receipt])"
  by code_simp

end
