(* ===== verification/TypesRlp.thy ===== *)
theory TypesRlp
  imports Receipts "HOL-Library.Monad_Syntax"
begin

text \<open>
  The RLP forms of headers, transactions, blocks, bodies and receipts (\<open>types/rlp_marshal.go\<close>,
  \<open>rlp_unmarshal.go\<close> and their \<open>_storage\<close> variants, \<open>header_hash.go\<close>). The library \<open>fastrlp\<close> is a
  parameter: a record of the operations the code calls, on values of a type \<open>'v\<close>. A decoding error
  is \<open>None\<close>. The decoders fill in a fresh object, so they are functions of the input.
\<close>

section \<open>The interface of the RLP library\<close>

record 'v rlp_api =
  NewBytes :: "bytes \<Rightarrow> 'v"
  NewUint :: "u64 \<Rightarrow> 'v"
  NewBigInt :: "int option \<Rightarrow> 'v"
  NewNull :: 'v
  NewNullArray :: 'v
  NewArray :: "'v list \<Rightarrow> 'v"
  MarshalTo :: "'v \<Rightarrow> bytes \<Rightarrow> bytes"
  Parse :: "bytes \<Rightarrow> 'v option"
  GetElems :: "'v \<Rightarrow> 'v list option"
  GetBytes :: "'v \<Rightarrow> bytes option"
  GetBytesN :: "'v \<Rightarrow> nat \<Rightarrow> bytes option"
  GetUint64 :: "'v \<Rightarrow> u64 option"
  GetBigInt :: "'v \<Rightarrow> int option"
  GetAddr :: "'v \<Rightarrow> bytes option"
  GetHash :: "'v \<Rightarrow> bytes option"
  parser_Hash :: "'v \<Rightarrow> hash"

definition MarshalRLPTo :: "'v rlp_api \<Rightarrow> 'v \<Rightarrow> bytes \<Rightarrow> bytes" where
  "MarshalRLPTo api obj dst = MarshalTo api obj dst"

definition UnmarshalRlp :: "'v rlp_api \<Rightarrow> ('v \<Rightarrow> 'a option) \<Rightarrow> bytes \<Rightarrow> 'a option" where
  "UnmarshalRlp api obj input = do { v \<leftarrow> Parse api input; obj v }"

text \<open>A loop that decodes every element and stops at the first error.\<close>

fun decode_all :: "('v \<Rightarrow> 'a option) \<Rightarrow> 'v list \<Rightarrow> 'a list option" where
  "decode_all f [] = Some []"
| "decode_all f (v # vs) = do { x \<leftarrow> f v; xs \<leftarrow> decode_all f vs; Some (x # xs) }"

section \<open>Encoding\<close>

definition Header_MarshalRLPWith :: "'v rlp_api \<Rightarrow> Header \<Rightarrow> 'v" where
  "Header_MarshalRLPWith a h = NewArray a
     [NewBytes a (Hash_Bytes (ParentHash h)),
      NewBytes a (Hash_Bytes (Sha3Uncles h)),
      NewBytes a (Address_Bytes (Miner h)),
      NewBytes a (Hash_Bytes (StateRoot h)),
      NewBytes a (Hash_Bytes (TxRoot h)),
      NewBytes a (Hash_Bytes (ReceiptsRoot h)),
      NewBytes a (LogsBloom h),
      NewUint a (Difficulty h),
      NewUint a (Number h),
      NewUint a (GasLimit h),
      NewUint a (GasUsed h),
      NewUint a (Timestamp h),
      NewBytes a (ExtraData h),
      NewBytes a (Hash_Bytes (MixHash h)),
      NewBytes a (be_bytes 8 (uint (HNonce h)))]"

definition Transaction_MarshalRLPWith :: "'v rlp_api \<Rightarrow> transaction \<Rightarrow> 'v" where
  "Transaction_MarshalRLPWith a t = NewArray a
     [NewUint a (txNonce t),
      NewBigInt a (Some (txGasPrice t)),
      NewUint a (txGas t),
      (case txTo t of Some to \<Rightarrow> NewBytes a (Address_Bytes to) | None \<Rightarrow> NewNull a),
      NewBigInt a (Some (txValue t)),
      NewBytes a (txInput t),
      NewBigInt a (txV t),
      NewBigInt a (txR t),
      NewBigInt a (txS t)]"

definition Block_MarshalRLPWith :: "'v rlp_api \<Rightarrow> Block \<Rightarrow> 'v" where
  "Block_MarshalRLPWith a b = NewArray a
     [Header_MarshalRLPWith a (blkHeader b),
      (if length (blkTransactions b) = 0 then NewNullArray a
       else NewArray a (map (Transaction_MarshalRLPWith a) (blkTransactions b))),
      (if length (blkUncles b) = 0 then NewNullArray a
       else NewArray a (map (Header_MarshalRLPWith a) (blkUncles b)))]"

definition Log_MarshalRLPWith :: "'v rlp_api \<Rightarrow> Log \<Rightarrow> 'v" where
  "Log_MarshalRLPWith a l = NewArray a
     [NewBytes a (Address_Bytes (logAddress l)),
      NewArray a (map (\<lambda>t. NewBytes a (Hash_Bytes t)) (logTopics l)),
      NewBytes a (logData l)]"

definition MarshalLogsWith :: "'v rlp_api \<Rightarrow> Receipt \<Rightarrow> 'v" where
  "MarshalLogsWith a r =
     (if length (rLogs r) = 0 then NewNullArray a
      else NewArray a (map (Log_MarshalRLPWith a) (rLogs r)))"

definition Receipt_MarshalRLPWith :: "'v rlp_api \<Rightarrow> Receipt \<Rightarrow> 'v" where
  "Receipt_MarshalRLPWith a r = NewArray a
     [(case rStatus r of Some s \<Rightarrow> NewUint a s | None \<Rightarrow> NewBytes a (Hash_Bytes (rRoot r))),
      NewUint a (CumulativeGasUsed r),
      NewBytes a (rLogsBloom r),
      MarshalLogsWith a r]"

definition Receipts_MarshalRLPWith :: "'v rlp_api \<Rightarrow> Receipt list \<Rightarrow> 'v" where
  "Receipts_MarshalRLPWith a rs = NewArray a (map (Receipt_MarshalRLPWith a) rs)"

definition Transaction_MarshalStoreRLPWith :: "'v rlp_api \<Rightarrow> transaction \<Rightarrow> 'v" where
  "Transaction_MarshalStoreRLPWith a t = NewArray a
     [Transaction_MarshalRLPWith a t, NewBytes a (Address_Bytes (txFrom t))]"

definition Body_MarshalRLPWith :: "'v rlp_api \<Rightarrow> Body \<Rightarrow> 'v" where
  "Body_MarshalRLPWith a b = NewArray a
     [(if length (bodyTransactions b) = 0 then NewNullArray a
       else NewArray a (map (Transaction_MarshalStoreRLPWith a) (bodyTransactions b))),
      (if length (bodyUncles b) = 0 then NewNullArray a
       else NewArray a (map (Header_MarshalRLPWith a) (bodyUncles b)))]"

definition Receipt_MarshalStoreRLPWith :: "'v rlp_api \<Rightarrow> Receipt \<Rightarrow> 'v" where
  "Receipt_MarshalStoreRLPWith a r = NewArray a
     [Receipt_MarshalRLPWith a r,
      (if ContractAddress r = ZeroAddress then NewNull a
       else NewBytes a (Address_Bytes (ContractAddress r))),
      NewUint a (rGasUsed r)]"

definition Receipts_MarshalStoreRLPWith :: "'v rlp_api \<Rightarrow> Receipt list \<Rightarrow> 'v" where
  "Receipts_MarshalStoreRLPWith a rs = NewArray a (map (Receipt_MarshalStoreRLPWith a) rs)"

section \<open>Header hash\<close>

text \<open>\<open>WriteRlp\<close> hashes the encoding of the value. \<open>HeaderHash\<close> is a variable of the package, so the
  hash function in use is an argument of the decoders.\<close>

definition defHeaderHash :: "'v rlp_api \<Rightarrow> (bytes \<Rightarrow> bytes) \<Rightarrow> Header \<Rightarrow> hash" where
  "defHeaderHash a keccak h = BytesToHash (keccak (MarshalTo a (Header_MarshalRLPWith a h) []))"

definition Header_ComputeHash :: "(Header \<Rightarrow> hash) \<Rightarrow> Header \<Rightarrow> Header" where
  "Header_ComputeHash HeaderHash h = h\<lparr>HHash := HeaderHash h\<rparr>"

section \<open>Decoding\<close>

definition Header_UnmarshalRLPFrom :: "'v rlp_api \<Rightarrow> (Header \<Rightarrow> hash) \<Rightarrow> 'v \<Rightarrow> Header option" where
  "Header_UnmarshalRLPFrom a HeaderHash v = do {
     elems \<leftarrow> GetElems a v;
     if length elems \<noteq> 15 then None else do {
       parentHash \<leftarrow> GetHash a (elems ! 0);
       sha3uncles \<leftarrow> GetHash a (elems ! 1);
       miner \<leftarrow> GetAddr a (elems ! 2);
       stateroot \<leftarrow> GetHash a (elems ! 3);
       txroot \<leftarrow> GetHash a (elems ! 4);
       receiptroot \<leftarrow> GetHash a (elems ! 5);
       logsBloom \<leftarrow> GetBytesN a (elems ! 6) 256;
       difficulty \<leftarrow> GetUint64 a (elems ! 7);
       number \<leftarrow> GetUint64 a (elems ! 8);
       gasLimit \<leftarrow> GetUint64 a (elems ! 9);
       gasused \<leftarrow> GetUint64 a (elems ! 10);
       timestamp \<leftarrow> GetUint64 a (elems ! 11);
       extraData \<leftarrow> GetBytes a (elems ! 12);
       mixHash \<leftarrow> GetHash a (elems ! 13);
       nonce \<leftarrow> GetUint64 a (elems ! 14);
       Some (Header_ComputeHash HeaderHash (SetNonce nonce
         \<lparr>ParentHash = BytesToHash parentHash, Sha3Uncles = BytesToHash sha3uncles,
          Miner = BytesToAddress miner, StateRoot = BytesToHash stateroot,
          TxRoot = BytesToHash txroot, ReceiptsRoot = BytesToHash receiptroot,
          LogsBloom = logsBloom, Difficulty = difficulty, Number = number,
          GasLimit = gasLimit, GasUsed = gasused, Timestamp = timestamp,
          ExtraData = extraData, MixHash = BytesToHash mixHash, HNonce = 0, HHash = 0\<rparr>))
     }}"

definition Transaction_UnmarshalRLPFrom :: "'v rlp_api \<Rightarrow> 'v \<Rightarrow> transaction option" where
  "Transaction_UnmarshalRLPFrom a v = do {
     elems \<leftarrow> GetElems a v;
     if length elems \<noteq> 9 then None else do {
       nonce \<leftarrow> GetUint64 a (elems ! 0);
       gasPrice \<leftarrow> GetBigInt a (elems ! 1);
       gas \<leftarrow> GetUint64 a (elems ! 2);
       let to = (case GetBytes a (elems ! 3) of
                   Some vv \<Rightarrow> if length vv = 20 then Some (BytesToAddress vv) else None
                 | None \<Rightarrow> None);
       val \<leftarrow> GetBigInt a (elems ! 4);
       input \<leftarrow> GetBytes a (elems ! 5);
       vV \<leftarrow> GetBigInt a (elems ! 6);
       vR \<leftarrow> GetBigInt a (elems ! 7);
       vS \<leftarrow> GetBigInt a (elems ! 8);
       Some \<lparr>txNonce = nonce, txGasPrice = gasPrice, txGas = gas, txTo = to, txValue = val,
             txInput = input, txV = Some vV, txR = Some vR, txS = Some vS,
             txHash = parser_Hash a v, txFrom = 0\<rparr>
     }}"

definition Block_UnmarshalRLPFrom :: "'v rlp_api \<Rightarrow> (Header \<Rightarrow> hash) \<Rightarrow> 'v \<Rightarrow> Block option" where
  "Block_UnmarshalRLPFrom a HeaderHash v = do {
     elems \<leftarrow> GetElems a v;
     if length elems \<noteq> 3 then None else do {
       header \<leftarrow> Header_UnmarshalRLPFrom a HeaderHash (elems ! 0);
       txns \<leftarrow> GetElems a (elems ! 1);
       ts \<leftarrow> decode_all (Transaction_UnmarshalRLPFrom a) txns;
       uncles \<leftarrow> GetElems a (elems ! 2);
       us \<leftarrow> decode_all (Header_UnmarshalRLPFrom a HeaderHash) uncles;
       Some \<lparr>blkHeader = header, blkTransactions = ts, blkUncles = us\<rparr>
     }}"

definition Log_UnmarshalRLPFrom :: "'v rlp_api \<Rightarrow> 'v \<Rightarrow> Log option" where
  "Log_UnmarshalRLPFrom a v = do {
     elems \<leftarrow> GetElems a v;
     if length elems \<noteq> 3 then None else do {
       addr \<leftarrow> GetAddr a (elems ! 0);
       topicElems \<leftarrow> GetElems a (elems ! 1);
       topics \<leftarrow> decode_all (\<lambda>t. map_option BytesToHash (GetHash a t)) topicElems;
       dat \<leftarrow> GetBytes a (elems ! 2);
       Some \<lparr>logAddress = BytesToAddress addr, logTopics = topics, logData = dat\<rparr>
     }}"

definition Receipt_UnmarshalRLPFrom :: "'v rlp_api \<Rightarrow> 'v \<Rightarrow> Receipt option" where
  "Receipt_UnmarshalRLPFrom a v = do {
     elems \<leftarrow> GetElems a v;
     if length elems \<noteq> 4 then None else do {
       buf \<leftarrow> GetBytes a (elems ! 0);
       cumulativeGasUsed \<leftarrow> GetUint64 a (elems ! 1);
       logsBloom \<leftarrow> GetBytesN a (elems ! 2) 256;
       logsElems \<leftarrow> GetElems a (elems ! 3);
       logs \<leftarrow> decode_all (Log_UnmarshalRLPFrom a) logsElems;
       Some \<lparr>rRoot = (if length buf = 32 then BytesToHash buf else 0),
             CumulativeGasUsed = cumulativeGasUsed, rLogsBloom = logsBloom, rLogs = logs,
             rStatus = (if length buf = 32 then None
                        else if length buf = 1 then Some (ucast (buf ! 0))
                        else Some 0),
             rGasUsed = 0, ContractAddress = 0, rTxHash = 0\<rparr>
     }}"

definition Receipts_UnmarshalRLPFrom :: "'v rlp_api \<Rightarrow> 'v \<Rightarrow> Receipt list option" where
  "Receipts_UnmarshalRLPFrom a v = do {
     elems \<leftarrow> GetElems a v;
     decode_all (Receipt_UnmarshalRLPFrom a) elems }"

definition Transaction_UnmarshalStoreRLPFrom :: "'v rlp_api \<Rightarrow> 'v \<Rightarrow> transaction option" where
  "Transaction_UnmarshalStoreRLPFrom a v = do {
     elems \<leftarrow> GetElems a v;
     if length elems \<noteq> 2 then None else do {
       t \<leftarrow> Transaction_UnmarshalRLPFrom a (elems ! 0);
       addr \<leftarrow> GetAddr a (elems ! 1);
       Some (t\<lparr>txFrom := BytesToAddress addr\<rparr>)
     }}"

definition Body_UnmarshalRLPFrom :: "'v rlp_api \<Rightarrow> (Header \<Rightarrow> hash) \<Rightarrow> 'v \<Rightarrow> Body option" where
  "Body_UnmarshalRLPFrom a HeaderHash v = do {
     tuple \<leftarrow> GetElems a v;
     if length tuple \<noteq> 2 then None else do {
       txns \<leftarrow> GetElems a (tuple ! 0);
       ts \<leftarrow> decode_all (Transaction_UnmarshalStoreRLPFrom a) txns;
       uncles \<leftarrow> GetElems a (tuple ! 1);
       us \<leftarrow> decode_all (Header_UnmarshalRLPFrom a HeaderHash) uncles;
       Some \<lparr>bodyTransactions = ts, bodyUncles = us\<rparr>
     }}"

definition Receipt_UnmarshalStoreRLPFrom :: "'v rlp_api \<Rightarrow> 'v \<Rightarrow> Receipt option" where
  "Receipt_UnmarshalStoreRLPFrom a v = do {
     elems \<leftarrow> GetElems a v;
     if length elems \<noteq> 3 then None else do {
       r \<leftarrow> Receipt_UnmarshalRLPFrom a (elems ! 0);
       vv \<leftarrow> GetBytes a (elems ! 1);
       let r1 = (if length vv = 20 then r\<lparr>ContractAddress := BytesToAddress vv\<rparr> else r);
       gas \<leftarrow> GetUint64 a (elems ! 2);
       Some (r1\<lparr>rGasUsed := gas\<rparr>)
     }}"

definition Receipts_UnmarshalStoreRLPFrom :: "'v rlp_api \<Rightarrow> 'v \<Rightarrow> Receipt list option" where
  "Receipts_UnmarshalStoreRLPFrom a v = do {
     elems \<leftarrow> GetElems a v;
     decode_all (Receipt_UnmarshalStoreRLPFrom a) elems }"

definition Block_MarshalRLP :: "'v rlp_api \<Rightarrow> Block \<Rightarrow> bytes" where
  "Block_MarshalRLP a b = MarshalRLPTo a (Block_MarshalRLPWith a b) []"

definition Block_UnmarshalRLP :: "'v rlp_api \<Rightarrow> (Header \<Rightarrow> hash) \<Rightarrow> bytes \<Rightarrow> Block option" where
  "Block_UnmarshalRLP a HeaderHash input = UnmarshalRlp a (Block_UnmarshalRLPFrom a HeaderHash) input"

definition Header_MarshalRLP :: "'v rlp_api \<Rightarrow> Header \<Rightarrow> bytes" where
  "Header_MarshalRLP a h = MarshalRLPTo a (Header_MarshalRLPWith a h) []"

definition Header_UnmarshalRLP :: "'v rlp_api \<Rightarrow> (Header \<Rightarrow> hash) \<Rightarrow> bytes \<Rightarrow> Header option" where
  "Header_UnmarshalRLP a HeaderHash input = UnmarshalRlp a (Header_UnmarshalRLPFrom a HeaderHash) input"

definition Transaction_MarshalRLP :: "'v rlp_api \<Rightarrow> transaction \<Rightarrow> bytes" where
  "Transaction_MarshalRLP a t = MarshalRLPTo a (Transaction_MarshalRLPWith a t) []"

definition Transaction_UnmarshalRLP :: "'v rlp_api \<Rightarrow> bytes \<Rightarrow> transaction option" where
  "Transaction_UnmarshalRLP a input = UnmarshalRlp a (Transaction_UnmarshalRLPFrom a) input"

definition Body_MarshalRLP :: "'v rlp_api \<Rightarrow> Body \<Rightarrow> bytes" where
  "Body_MarshalRLP a b = MarshalRLPTo a (Body_MarshalRLPWith a b) []"

definition Body_UnmarshalRLP :: "'v rlp_api \<Rightarrow> (Header \<Rightarrow> hash) \<Rightarrow> bytes \<Rightarrow> Body option" where
  "Body_UnmarshalRLP a HeaderHash input = UnmarshalRlp a (Body_UnmarshalRLPFrom a HeaderHash) input"

definition Receipts_MarshalStoreRLP :: "'v rlp_api \<Rightarrow> Receipt list \<Rightarrow> bytes" where
  "Receipts_MarshalStoreRLP a rs = MarshalRLPTo a (Receipts_MarshalStoreRLPWith a rs) []"

definition Receipts_UnmarshalStoreRLP :: "'v rlp_api \<Rightarrow> bytes \<Rightarrow> Receipt list option" where
  "Receipts_UnmarshalStoreRLP a input = UnmarshalRlp a (Receipts_UnmarshalStoreRLPFrom a) input"

section \<open>What the RLP library promises\<close>

text \<open>The value that comes back when an encoded value is parsed.\<close>

definition reparse :: "'v rlp_api \<Rightarrow> 'v \<Rightarrow> 'v" where
  "reparse a v = the (Parse a (MarshalTo a v []))"

definition rlp_laws :: "'v rlp_api \<Rightarrow> bool" where
  "rlp_laws a \<longleftrightarrow>
     (\<forall>v. Parse a (MarshalTo a v []) \<noteq> None) \<and>
     (\<forall>v dst. MarshalTo a v dst = dst @ MarshalTo a v []) \<and>
     (\<forall>vs. GetElems a (reparse a (NewArray a vs)) = Some (map (reparse a) vs)) \<and>
     GetElems a (reparse a (NewNullArray a)) = Some [] \<and>
     GetBytes a (reparse a (NewNull a)) = Some [] \<and>
     (\<forall>b. GetBytes a (reparse a (NewBytes a b)) = Some b) \<and>
     (\<forall>b. GetBytesN a (reparse a (NewBytes a b)) (length b) = Some b) \<and>
     (\<forall>b. length b = 20 \<longrightarrow> GetAddr a (reparse a (NewBytes a b)) = Some b) \<and>
     (\<forall>b. length b = 32 \<longrightarrow> GetHash a (reparse a (NewBytes a b)) = Some b) \<and>
     (\<forall>n. GetUint64 a (reparse a (NewUint a n)) = Some n) \<and>
     (\<forall>b. length b = 8 \<longrightarrow> GetUint64 a (reparse a (NewBytes a b)) = Some (word_of_int (be_value b))) \<and>
     (\<forall>n. n < 256 \<longrightarrow> GetBytes a (reparse a (NewUint a n)) = Some (if n = 0 then [] else [ucast n])) \<and>
     (\<forall>x. 0 \<le> x \<longrightarrow> GetBigInt a (reparse a (NewBigInt a (Some x))) = Some x)"

named_theorems rlp \<open>the laws of the RLP library as rewrite rules\<close>

lemma rlp_Parse [rlp]:
  assumes "rlp_laws a"
  shows "Parse a (MarshalTo a v []) = Some (reparse a v)"
proof -
  have "Parse a (MarshalTo a v []) \<noteq> None" using assms unfolding rlp_laws_def by blast
  then show ?thesis by (simp add: reparse_def)
qed

lemma rlp_laws_rules [rlp]:
  assumes "rlp_laws a"
  shows "GetElems a (reparse a (NewArray a vs)) = Some (map (reparse a) vs)"
    and "GetElems a (reparse a (NewNullArray a)) = Some []"
    and "GetBytes a (reparse a (NewNull a)) = Some []"
    and "GetBytes a (reparse a (NewBytes a b)) = Some b"
    and "length b = n \<Longrightarrow> GetBytesN a (reparse a (NewBytes a b)) n = Some b"
    and "length b = 20 \<Longrightarrow> GetAddr a (reparse a (NewBytes a b)) = Some b"
    and "length b = 32 \<Longrightarrow> GetHash a (reparse a (NewBytes a b)) = Some b"
    and "GetUint64 a (reparse a (NewUint a k)) = Some k"
    and "length b = 8 \<Longrightarrow> GetUint64 a (reparse a (NewBytes a b)) = Some (word_of_int (be_value b))"
    and "k < 256 \<Longrightarrow> GetBytes a (reparse a (NewUint a k)) = Some (if k = 0 then [] else [ucast k])"
    and "0 \<le> x \<Longrightarrow> GetBigInt a (reparse a (NewBigInt a (Some x))) = Some x"
  using assms unfolding rlp_laws_def by blast+

lemma MarshalTo_append: "rlp_laws a \<Longrightarrow> MarshalTo a v dst = dst @ MarshalTo a v []"
  unfolding rlp_laws_def by blast

lemma reparse_list [rlp]:
  assumes "rlp_laws a"
  shows "GetElems a (reparse a (if xs = [] then NewNullArray a else NewArray a (map f xs)))
    = Some (map (\<lambda>x. reparse a (f x)) xs)"
  using assms by (simp add: rlp comp_def)

lemma decode_all_map:
  "(\<And>x. x \<in> set xs \<Longrightarrow> f (g x) = Some x) \<Longrightarrow> decode_all f (map g xs) = Some xs"
  by (induction xs) simp_all

lemma decode_all_map_to:
  "(\<And>x. x \<in> set xs \<Longrightarrow> f (g x) = Some (h x)) \<Longrightarrow> decode_all f (map g xs) = Some (map h xs)"
  by (induction xs) simp_all

lemma length_Hash_Bytes [simp]: "length (Hash_Bytes h) = 32"
  by (simp add: Hash_Bytes_def HashLength_def)

lemma length_Address_Bytes [simp]: "length (Address_Bytes a) = 20"
  by (simp add: Address_Bytes_def AddressLength_def)

lemma nonce_bytes [simp]: "word_of_int (be_value (be_bytes 8 (uint (n :: u64)))) = n"
proof -
  have "uint n < 256 ^ 8" using uint_lt2p [of n] by simp
  then show ?thesis by (simp add: be_value_be_bytes)
qed

section \<open>Round trips\<close>

definition header_ok :: "(Header \<Rightarrow> hash) \<Rightarrow> Header \<Rightarrow> bool" where
  "header_ok HeaderHash h \<longleftrightarrow> length (LogsBloom h) = 256 \<and> HHash h = HeaderHash (h\<lparr>HHash := 0\<rparr>)"

definition tx_amounts_ok :: "transaction \<Rightarrow> bool" where
  "tx_amounts_ok t \<longleftrightarrow> 0 \<le> txGasPrice t \<and> 0 \<le> txValue t \<and>
     list_all (\<lambda>x. case x of Some n \<Rightarrow> 0 \<le> n | None \<Rightarrow> False) [txV t, txR t, txS t]"

definition tx_ok :: "'v rlp_api \<Rightarrow> transaction \<Rightarrow> bool" where
  "tx_ok a t \<longleftrightarrow> tx_amounts_ok t \<and> txHash t = parser_Hash a (reparse a (Transaction_MarshalRLPWith a t))"

definition receipt_ok :: "Receipt \<Rightarrow> bool" where
  "receipt_ok r \<longleftrightarrow> length (rLogsBloom r) = 256 \<and> rTxHash r = 0 \<and>
     (case rStatus r of Some s \<Rightarrow> s < 256 \<and> rRoot r = 0 | None \<Rightarrow> True)"

lemma header_round_trip:
  assumes "rlp_laws a" "header_ok HeaderHash h"
  shows "Header_UnmarshalRLPFrom a HeaderHash (reparse a (Header_MarshalRLPWith a h)) = Some h"
  using assms
  by (cases h) (simp add: Header_UnmarshalRLPFrom_def Header_MarshalRLPWith_def rlp header_ok_def
      BytesToHash_Bytes BytesToAddress_Bytes SetNonce_def Header_ComputeHash_def)

lemma reparse_To [rlp]:
  assumes "rlp_laws a"
  shows "GetBytes a (reparse a (case to of Some t \<Rightarrow> NewBytes a (Address_Bytes t) | None \<Rightarrow> NewNull a))
    = Some (case to of Some t \<Rightarrow> Address_Bytes t | None \<Rightarrow> [])"
  using assms by (simp add: rlp split: option.split)

lemma transaction_round_trip:
  assumes "rlp_laws a" "tx_ok a t"
  shows "Transaction_UnmarshalRLPFrom a (reparse a (Transaction_MarshalRLPWith a t)) = Some (t\<lparr>txFrom := 0\<rparr>)"
proof -
  obtain v r s where sig: "txV t = Some v" "txR t = Some r" "txS t = Some s"
    "0 \<le> v" "0 \<le> r" "0 \<le> s" "0 \<le> txGasPrice t" "0 \<le> txValue t"
    using assms(2) by (auto simp: tx_ok_def tx_amounts_ok_def split: option.splits)
  have h: "parser_Hash a (reparse a (Transaction_MarshalRLPWith a t)) = txHash t"
    using assms(2) by (simp add: tx_ok_def)
  show ?thesis
    unfolding Transaction_UnmarshalRLPFrom_def h
    using assms(1) sig
    by (cases "txTo t") (simp_all add: Transaction_MarshalRLPWith_def rlp BytesToAddress_Bytes)
qed

lemma transaction_store_round_trip:
  assumes "rlp_laws a" "tx_ok a t"
  shows "Transaction_UnmarshalStoreRLPFrom a (reparse a (Transaction_MarshalStoreRLPWith a t)) = Some t"
  using assms
  by (simp add: Transaction_UnmarshalStoreRLPFrom_def Transaction_MarshalStoreRLPWith_def rlp
      transaction_round_trip BytesToAddress_Bytes)

lemma log_round_trip:
  assumes "rlp_laws a"
  shows "Log_UnmarshalRLPFrom a (reparse a (Log_MarshalRLPWith a l)) = Some l"
proof -
  have "decode_all (\<lambda>t. map_option BytesToHash (GetHash a t))
      (map (\<lambda>t. reparse a (NewBytes a (Hash_Bytes t))) (logTopics l)) = Some (logTopics l)"
    using assms by (intro decode_all_map) (simp add: rlp BytesToHash_Bytes)
  then show ?thesis
    using assms
    by (simp add: Log_UnmarshalRLPFrom_def Log_MarshalRLPWith_def rlp comp_def BytesToAddress_Bytes)
qed

lemma logs_decode:
  "rlp_laws a \<Longrightarrow>
   decode_all (Log_UnmarshalRLPFrom a) (map (\<lambda>l. reparse a (Log_MarshalRLPWith a l)) ls) = Some ls"
  by (intro decode_all_map log_round_trip)

lemma unsigned_ucast_eq_take_bit_8: "ucast (ucast (s :: u64) :: u8) = take_bit 8 s"
  by (rule bit_word_eqI) (auto simp: bit_simps)

lemma status_byte: "s < 256 \<Longrightarrow> ucast (ucast (s :: u64) :: u8) = s"
proof -
  assume "s < 256"
  then have "uint s < 2 ^ 8" by (simp add: word_less_def)
  then have "take_bit 8 (uint s) = uint s" by (simp add: take_bit_int_eq_self)
  then have "take_bit 8 s = s"
    by (intro word_uint_eqI) (simp only: unsigned_take_bit_eq)
  then show "ucast (ucast s :: u8) = s"
    by (metis (no_types) unsigned_ucast_eq_take_bit_8)
qed

lemma reparse_logs [rlp]:
  "rlp_laws a \<Longrightarrow> GetElems a (reparse a (MarshalLogsWith a r))
     = Some (map (\<lambda>l. reparse a (Log_MarshalRLPWith a l)) (rLogs r))"
  by (simp add: MarshalLogsWith_def rlp comp_def)

lemma receipt_round_trip:
  assumes L: "rlp_laws a" and ok: "receipt_ok r"
  shows "Receipt_UnmarshalRLPFrom a (reparse a (Receipt_MarshalRLPWith a r))
    = Some (r\<lparr>rGasUsed := 0, ContractAddress := 0\<rparr>)"
proof -
  obtain root cum bloom logs st gas addr hsh where r:
    "r = \<lparr>rRoot = root, CumulativeGasUsed = cum, rLogsBloom = bloom, rLogs = logs, rStatus = st,
          rGasUsed = gas, ContractAddress = addr, rTxHash = hsh\<rparr>"
    by (cases r)
  show ?thesis
  proof (cases st)
    case None
    then show ?thesis
      using L ok
      by (simp add: r Receipt_UnmarshalRLPFrom_def Receipt_MarshalRLPWith_def rlp logs_decode
          receipt_ok_def BytesToHash_Bytes)
  next
    case (Some s)
    have s: "s < 256" "root = 0" "length bloom = 256" "hsh = 0" using ok Some
      by (simp_all add: r receipt_ok_def)
    then show ?thesis
      using L Some
      by (simp add: r Receipt_UnmarshalRLPFrom_def Receipt_MarshalRLPWith_def rlp logs_decode
          status_byte)
  qed
qed

lemma receipt_store_round_trip:
  assumes "rlp_laws a" "receipt_ok r"
  shows "Receipt_UnmarshalStoreRLPFrom a (reparse a (Receipt_MarshalStoreRLPWith a r)) = Some r"
  using assms
  by (simp add: Receipt_UnmarshalStoreRLPFrom_def Receipt_MarshalStoreRLPWith_def rlp
      receipt_round_trip BytesToAddress_Bytes ZeroAddress_def)

section \<open>A concrete codec\<close>

text \<open>An instance of the interface with the laws: items as a tree, written with markers.\<close>

datatype item = IStr bytes | ILst "item list"

fun item_enc :: "item \<Rightarrow> bytes" where
  "item_enc (IStr b) = 0 # concat (map (\<lambda>x. [1, x]) b) @ [0]"
| "item_enc (ILst vs) = 1 # concat (map (\<lambda>v. 1 # item_enc v) vs) @ [0]"

fun str_dec :: "bytes \<Rightarrow> (bytes \<times> bytes) option" where
  "str_dec [] = None"
| "str_dec [t] = (if t = 0 then Some ([], []) else None)"
| "str_dec (t # x # r) = (if t = 0 then Some ([], x # r)
     else map_option (\<lambda>(b, r'). (x # b, r')) (str_dec r))"

fun item_dec :: "nat \<Rightarrow> bytes \<Rightarrow> (item \<times> bytes) option"
  and list_dec :: "nat \<Rightarrow> bytes \<Rightarrow> (item list \<times> bytes) option" where
  "item_dec 0 r = None"
| "item_dec (Suc n) [] = None"
| "item_dec (Suc n) (t # r) =
     (if t = 0 then map_option (\<lambda>(b, r'). (IStr b, r')) (str_dec r)
      else map_option (\<lambda>(vs, r'). (ILst vs, r')) (list_dec n r))"
| "list_dec 0 r = None"
| "list_dec (Suc n) [] = None"
| "list_dec (Suc n) (t # r) =
     (if t = 0 then Some ([], r)
      else case item_dec n r of
        None \<Rightarrow> None
      | Some (v, r') \<Rightarrow> map_option (\<lambda>(vs, r''). (v # vs, r'')) (list_dec n r'))"

definition item_api :: "item rlp_api" where
  "item_api =
     \<lparr>NewBytes = IStr,
      NewUint = (\<lambda>n. IStr (if n = 0 then [] else if n < 256 then [ucast n] else be_bytes 8 (uint n))),
      NewBigInt = (\<lambda>x. IStr (case x of Some n \<Rightarrow> be_bytes (nat n) n | None \<Rightarrow> [])),
      NewNull = IStr [],
      NewNullArray = ILst [],
      NewArray = ILst,
      MarshalTo = (\<lambda>v dst. dst @ item_enc v),
      Parse = (\<lambda>b. map_option fst (item_dec (Suc (length b)) b)),
      GetElems = (\<lambda>v. case v of ILst vs \<Rightarrow> Some vs | IStr _ \<Rightarrow> None),
      GetBytes = (\<lambda>v. case v of IStr b \<Rightarrow> Some b | ILst _ \<Rightarrow> None),
      GetBytesN = (\<lambda>v n. case v of IStr b \<Rightarrow> if length b = n then Some b else None | ILst _ \<Rightarrow> None),
      GetUint64 = (\<lambda>v. case v of IStr b \<Rightarrow> if length b \<le> 8 then Some (word_of_int (be_value b)) else None
                    | ILst _ \<Rightarrow> None),
      GetBigInt = (\<lambda>v. case v of IStr b \<Rightarrow> Some (be_value b) | ILst _ \<Rightarrow> None),
      GetAddr = (\<lambda>v. case v of IStr b \<Rightarrow> if length b = 20 then Some b else None | ILst _ \<Rightarrow> None),
      GetHash = (\<lambda>v. case v of IStr b \<Rightarrow> if length b = 32 then Some b else None | ILst _ \<Rightarrow> None),
      parser_Hash = (\<lambda>v. word_of_nat (length (item_enc v)))\<rparr>"

lemma str_dec_enc: "str_dec (concat (map (\<lambda>x. [1, x]) b) @ 0 # r) = Some (b, r)"
proof (induction b)
  case Nil
  then show ?case by (cases r) simp_all
qed simp

lemma list_dec_enc:
  assumes "\<And>v r n. v \<in> set vs \<Longrightarrow> length (item_enc v @ r) < n \<Longrightarrow> item_dec n (item_enc v @ r) = Some (v, r)"
    and "length (concat (map (\<lambda>v. 1 # item_enc v) vs) @ 0 # r) < n"
  shows "list_dec n (concat (map (\<lambda>v. 1 # item_enc v) vs) @ 0 # r) = Some (vs, r)"
  using assms
proof (induction vs arbitrary: n)
  case Nil
  then show ?case by (cases n) simp_all
next
  case (Cons v vs)
  then obtain m where n: "n = Suc m" by (cases n) auto
  have v: "item_dec m (item_enc v @ concat (map (\<lambda>v. 1 # item_enc v) vs) @ 0 # r)
      = Some (v, concat (map (\<lambda>v. 1 # item_enc v) vs) @ 0 # r)"
    using Cons.prems n by (intro Cons.prems(1)) simp_all
  have "list_dec m (concat (map (\<lambda>v. 1 # item_enc v) vs) @ 0 # r) = Some (vs, r)"
    using Cons.prems n by (intro Cons.IH Cons.prems(1)) simp_all
  then show ?case using v n by simp
qed

lemma item_dec_enc: "length (item_enc v @ r) < n \<Longrightarrow> item_dec n (item_enc v @ r) = Some (v, r)"
proof (induction v arbitrary: r n)
  case (IStr b)
  then obtain m where n: "n = Suc m" by (cases n) auto
  then show ?case using str_dec_enc [of b r] by simp
next
  case (ILst vs)
  then obtain m where n: "n = Suc m" by (cases n) auto
  have "list_dec m (concat (map (\<lambda>v. 1 # item_enc v) vs) @ 0 # r) = Some (vs, r)"
    using ILst.prems n by (intro list_dec_enc ILst.IH) simp_all
  then show ?case using n by simp
qed

lemma item_Parse: "Parse item_api (MarshalTo item_api v []) = Some v"
  using item_dec_enc [of v "[]"] by (simp add: item_api_def)

lemma item_reparse [simp]: "reparse item_api v = v"
  by (simp add: reparse_def item_Parse)

lemma be_value_enough: "0 \<le> x \<Longrightarrow> be_value (be_bytes (nat x) x) = x"
proof -
  assume "0 \<le> x"
  moreover have "nat x < 256 ^ nat x" by (rule less_exp [THEN order_less_le_trans]) (simp add: power_mono)
  ultimately have "x < 256 ^ nat x" by (metis (no_types) nat_less_iff of_nat_numeral of_nat_power)
  then show "be_value (be_bytes (nat x) x) = x" using \<open>0 \<le> x\<close> by (simp add: be_value_be_bytes)
qed

lemma item_uint: "GetUint64 item_api (NewUint item_api n) = Some n"
proof (cases "n \<noteq> 0 \<and> n < 256")
  case True
  then have "word_of_int (uint (ucast n :: u8)) = n"
    using status_byte [of n] by (subst ucast_eq [symmetric]) simp
  then show ?thesis using True by (simp add: item_api_def be_value_Cons del: word_of_int_uint of_int_uint)
next
  case False
  then show ?thesis by (auto simp: item_api_def)
qed

lemma item_laws: "rlp_laws item_api"
  unfolding rlp_laws_def item_reparse item_Parse item_uint
  by (simp add: item_api_def be_value_enough)

section \<open>The round trips of the wire and of the store\<close>

text \<open>C24. A block that is encoded for the network decodes to the same block, its header and uncles
  with their hashes and its transactions with theirs; only the sender of a transaction, which the
  wire form leaves out, is reset.\<close>

theorem block_round_trip:
  assumes "rlp_laws a" "header_ok HeaderHash (blkHeader b)"
    and "list_all (header_ok HeaderHash) (blkUncles b)" "list_all (tx_ok a) (blkTransactions b)"
  shows "Block_UnmarshalRLP a HeaderHash (Block_MarshalRLP a b)
    = Some (b\<lparr>blkTransactions := map (\<lambda>t. t\<lparr>txFrom := 0\<rparr>) (blkTransactions b)\<rparr>)"
proof -
  have "decode_all (Transaction_UnmarshalRLPFrom a)
      (map (\<lambda>t. reparse a (Transaction_MarshalRLPWith a t)) (blkTransactions b))
      = Some (map (\<lambda>t. t\<lparr>txFrom := 0\<rparr>) (blkTransactions b))"
    using assms(1,4) by (intro decode_all_map_to) (simp add: transaction_round_trip list_all_iff)
  moreover have "decode_all (Header_UnmarshalRLPFrom a HeaderHash)
      (map (\<lambda>h. reparse a (Header_MarshalRLPWith a h)) (blkUncles b)) = Some (blkUncles b)"
    using assms(1,3) by (intro decode_all_map) (simp add: header_round_trip list_all_iff)
  ultimately show ?thesis
    using assms(1,2)
    by (simp add: Block_UnmarshalRLP_def Block_MarshalRLP_def UnmarshalRlp_def MarshalRLPTo_def rlp
        Block_UnmarshalRLPFrom_def Block_MarshalRLPWith_def header_round_trip)
qed

definition ex_tx :: transaction where
  "ex_tx = \<lparr>txNonce = 300, txGasPrice = 2, txGas = 21000, txTo = Some 7, txValue = 3, txInput = [1, 2],
     txV = Some 1, txR = Some 2, txS = Some 3, txHash = 127, txFrom = 9\<rparr>"

definition ex_block :: Block where
  "ex_block = \<lparr>blkHeader = header0\<lparr>LogsBloom := replicate 256 0, HHash := 5\<rparr>,
     blkTransactions = [ex_tx], blkUncles = []\<rparr>"

lemma ex_tx_ok: "tx_ok item_api ex_tx"
  by code_simp

theorem block_round_trip_witness:
  "Block_UnmarshalRLP item_api (\<lambda>_. 5) (Block_MarshalRLP item_api ex_block)
    = Some (ex_block\<lparr>blkTransactions := [ex_tx\<lparr>txFrom := 0\<rparr>]\<rparr>)"
  using block_round_trip [OF item_laws, of "\<lambda>_. 5" ex_block] ex_tx_ok
  by (simp add: ex_block_def header_ok_def)


definition ex_receipt2 :: Receipt where
  "ex_receipt2 = \<lparr>rRoot = 0, CumulativeGasUsed = 21000, rLogsBloom = replicate 256 0, rLogs = [ex_log],
     rStatus = Some 1, rGasUsed = 21000, ContractAddress = 8, rTxHash = 0\<rparr>"


end
