(* ===== verification/Crypto.thy ===== *)
theory Crypto
  imports TypesRlp
begin

text \<open>
  \<open>common/crypto/crypto.go\<close>: signature values, addresses of contracts and keys, signing and recovery.
  The elliptic curve (\<open>btcec\<close>) and Keccak-256 are parameters, collected in a record; \<open>go\<close> is the
  outcome of a Go function that may panic or return an error.
\<close>

section \<open>Outcomes\<close>

datatype 'a go = Panic | Error | Ret 'a

primrec andThen :: "'a go \<Rightarrow> ('a \<Rightarrow> 'b go) \<Rightarrow> 'b go" where
  "andThen Panic f = Panic"
| "andThen Error f = Error"
| "andThen (Ret x) f = f x"

definition go_of :: "'a option \<Rightarrow> 'a go" where
  "go_of r = (case r of Some x \<Rightarrow> Ret x | None \<Rightarrow> Error)"

lemma go_of_simps [simp]: "go_of (Some x) = Ret x" "go_of None = Error"
  by (simp_all add: go_of_def)

lemma andThen_Ret: "andThen r f = Ret y \<longleftrightarrow> (\<exists>x. r = Ret x \<and> f x = Ret y)"
  by (cases r) auto

lemma andThen_Panic: "andThen r f = Panic \<longleftrightarrow> r = Panic \<or> (\<exists>x. r = Ret x \<and> f x = Panic)"
  by (cases r) auto

section \<open>The curve and the hash function\<close>

record ('prv, 'pub) curve =
  SignCompact :: "'prv \<Rightarrow> bytes \<Rightarrow> bytes option"
  RecoverCompact :: "bytes \<Rightarrow> bytes \<Rightarrow> 'pub option"
  MarshalPub :: "'pub \<Rightarrow> bytes"
  PublicKey :: "'prv \<Rightarrow> 'pub"
  keccak :: "bytes \<Rightarrow> bytes"

text \<open>What the code relies on: compact signatures have 65 bytes, start with 27 or 28, and recover to
  the key that made them.\<close>

definition curve_laws :: "('prv, 'pub) curve \<Rightarrow> bool" where
  "curve_laws c \<longleftrightarrow>
     (\<forall>prv hash sig. SignCompact c prv hash = Some sig \<longrightarrow>
        length sig = 65 \<and> (sig ! 0 = 27 \<or> sig ! 0 = 28) \<and>
        RecoverCompact c sig hash = Some (PublicKey c prv))"

section \<open>Big integers as bytes\<close>

text \<open>\<open>big.Int.Bytes\<close>: the magnitude, big-endian, without leading zeros.\<close>

fun nat_bytes :: "nat \<Rightarrow> bytes" where
  "nat_bytes n = (if n = 0 then [] else nat_bytes (n div 256) @ [word_of_nat n])"

declare nat_bytes.simps [simp del]

definition big_Bytes :: "int \<Rightarrow> bytes" where
  "big_Bytes x = nat_bytes (nat \<bar>x\<bar>)"

definition SetBytes :: "bytes \<Rightarrow> int" where
  "SetBytes b = be_value b"

text \<open>\<open>bytes.Compare\<close>: lexicographic.\<close>

fun bytes_Compare :: "bytes \<Rightarrow> bytes \<Rightarrow> int" where
  "bytes_Compare [] [] = 0"
| "bytes_Compare [] (y # ys) = - 1"
| "bytes_Compare (x # xs) [] = 1"
| "bytes_Compare (x # xs) (y # ys) =
     (if x < y then - 1 else if y < x then 1 else bytes_Compare xs ys)"

section \<open>Signature values\<close>

text \<open>The index of the first non-zero byte; the last index if there is none.\<close>

fun trim_index :: "nat \<Rightarrow> nat \<Rightarrow> bytes \<Rightarrow> nat" where
  "trim_index i k [] = i"
| "trim_index i k (x # xs) = (if x \<noteq> 0 then k else trim_index k (k + 1) xs)"

definition trimLeftZeros :: "bytes \<Rightarrow> bytes" where
  "trimLeftZeros b = drop (trim_index 0 0 b) b"

definition secp256k1N1 :: int where
  "secp256k1N1 = 0xfffffffffffffffffffffffffffffffebaaedce6af48a03bbfd25e8cd0364141"

definition secp256k1N :: bytes where
  "secp256k1N = be_bytes 32 secp256k1N1"

definition ValidateSignatureValues :: "u8 \<Rightarrow> int option \<Rightarrow> int option \<Rightarrow> bool" where
  "ValidateSignatureValues v r s =
     (case (r, s) of
        (Some r, Some s) \<Rightarrow>
          if v > 1 then False
          else let rr = trimLeftZeros (big_Bytes r) in
          if bytes_Compare rr secp256k1N \<ge> 0 \<or> bytes_Compare rr [1] < 0 then False
          else let ss = trimLeftZeros (big_Bytes s) in
          if bytes_Compare ss secp256k1N \<ge> 0 \<or> bytes_Compare ss [1] < 0 then False
          else True
      | _ \<Rightarrow> False)"

section \<open>Addresses\<close>

definition Keccak256 :: "('prv, 'pub) curve \<Rightarrow> bytes list \<Rightarrow> bytes" where
  "Keccak256 c v = keccak c (concat v)"

definition CreateAddress :: "'v rlp_api \<Rightarrow> ('prv, 'pub) curve \<Rightarrow> address \<Rightarrow> u64 \<Rightarrow> address" where
  "CreateAddress a c addr nonce =
     BytesToAddress (drop 12 (Keccak256 c
       [MarshalTo a (NewArray a [NewBytes a (Address_Bytes addr), NewUint a nonce]) []]))"

definition CreateAddress2 :: "('prv, 'pub) curve \<Rightarrow> address \<Rightarrow> bytes \<Rightarrow> bytes \<Rightarrow> address" where
  "CreateAddress2 c addr salt inithash =
     BytesToAddress (drop 12 (Keccak256 c [[0xff], Address_Bytes addr, salt, Keccak256 c [inithash]]))"

definition PubKeyToAddress :: "('prv, 'pub) curve \<Rightarrow> 'pub \<Rightarrow> address" where
  "PubKeyToAddress c pub = BytesToAddress (drop 12 (Keccak256 c [drop 1 (MarshalPub c pub)]))"

section \<open>Signing and recovery\<close>

text \<open>\<open>signature[size-1]\<close> panics on an empty signature.\<close>

definition RecoverPubkey :: "('prv, 'pub) curve \<Rightarrow> bytes \<Rightarrow> bytes \<Rightarrow> 'pub go" where
  "RecoverPubkey c signature hash =
     (let size = length signature in
      if size = 0 then Panic
      else let term = (if signature ! (size - 1) = 1 then 28 else 27);
               sig = term # take (size - 1) signature
           in go_of (RecoverCompact c sig hash))"

definition Ecrecover :: "('prv, 'pub) curve \<Rightarrow> bytes \<Rightarrow> bytes \<Rightarrow> bytes go" where
  "Ecrecover c hash sig = andThen (RecoverPubkey c sig hash) (\<lambda>pub. Ret (MarshalPub c pub))"

definition Sign :: "('prv, 'pub) curve \<Rightarrow> 'prv \<Rightarrow> bytes \<Rightarrow> bytes option" where
  "Sign c priv hash =
     (case SignCompact c priv hash of
        None \<Rightarrow> None
      | Some sig \<Rightarrow> let term = (if sig ! 0 = 28 then 1 else 0) in Some (drop 1 (sig @ [term])))"

section \<open>Facts about byte strings\<close>

lemma be_value_nat_bytes: "be_value (nat_bytes n) = int n"
proof (induction n rule: nat_bytes.induct)
  case (1 n)
  show ?case
  proof (cases "n = 0")
    case False
    have "be_value (nat_bytes n) = be_value (nat_bytes (n div 256)) * 256 + uint (word_of_nat n :: u8)"
      by (subst nat_bytes.simps) (simp add: False be_value_append be_value_Cons)
    also have "\<dots> = int (n div 256) * 256 + int (n mod 256)"
      using 1 [OF False] by (simp add: uint_nat unat_of_nat)
    also have "\<dots> = int n" by (metis div_mult_mod_eq of_nat_add of_nat_mult of_nat_numeral)
    finally show ?thesis .
  qed (simp add: nat_bytes.simps)
qed

lemma SetBytes_big_Bytes: "SetBytes (big_Bytes x) = \<bar>x\<bar>"
  by (simp add: SetBytes_def big_Bytes_def be_value_nat_bytes)

lemma hd_nat_bytes: "n \<noteq> 0 \<Longrightarrow> nat_bytes n \<noteq> [] \<and> hd (nat_bytes n) \<noteq> 0"
proof (induction n rule: nat_bytes.induct)
  case (1 n)
  show ?case
  proof (cases "n div 256 = 0")
    case True
    then have "n < 256" by (simp add: div_eq_0_iff)
    then have "unat (word_of_nat n :: u8) = n" by (simp add: unat_of_nat)
    then have "(word_of_nat n :: u8) \<noteq> 0" using "1.prems" by auto
    then show ?thesis
      using True "1.prems" by (subst (1 2) nat_bytes.simps) (simp add: nat_bytes.simps [of 0])
  next
    case False
    then show ?thesis using 1 by (subst (1 2) nat_bytes.simps) simp
  qed
qed

lemma be_value_inject: "length xs = length ys \<Longrightarrow> be_value xs = be_value ys \<Longrightarrow> xs = ys"
proof (induction xs ys rule: list_induct2)
  case (Cons x xs y ys)
  have b: "be_value xs < 256 ^ length xs" "be_value ys < 256 ^ length xs"
    using be_value_less [of xs] be_value_less [of ys] Cons.hyps by simp_all
  have e: "uint x * 256 ^ length xs + be_value xs = uint y * 256 ^ length xs + be_value ys"
    using Cons.prems Cons.hyps by (simp add: be_value_Cons)
  have "(uint x * 256 ^ length xs + be_value xs) div 256 ^ length xs = uint x"
    "(uint y * 256 ^ length xs + be_value ys) div 256 ^ length xs = uint y"
    using b by simp_all
  then have "uint x = uint y" using e by simp
  then show ?case using e Cons.IH by (simp add: word_uint_eq_iff)
qed simp

lemma length_nat_bytes: "n < 256 ^ k \<Longrightarrow> length (nat_bytes n) \<le> k"
proof (induction k arbitrary: n)
  case (Suc k)
  then have "n div 256 < 256 ^ k" by (simp add: less_mult_imp_div_less mult.commute)
  then show ?case using Suc.IH by (subst nat_bytes.simps) simp
qed (simp add: nat_bytes.simps)

lemma be_value_replicate_0 [simp]: "be_value (replicate k 0 @ b) = be_value b"
  by (induction k) (simp_all add: be_value_Cons)

lemma pad_big_Bytes:
  assumes "length b = k"
  shows "length (big_Bytes (be_value b)) \<le> k"
    and "replicate (k - length (big_Bytes (be_value b))) 0 @ big_Bytes (be_value b) = b"
proof -
  have "nat \<bar>be_value b\<bar> < 256 ^ k"
    using be_value_less [of b] assms by (simp add: nat_less_iff)
  then show l: "length (big_Bytes (be_value b)) \<le> k"
    unfolding big_Bytes_def by (rule length_nat_bytes)
  show "replicate (k - length (big_Bytes (be_value b))) 0 @ big_Bytes (be_value b) = b"
    using l assms by (intro be_value_inject)
      (simp_all add: big_Bytes_def be_value_nat_bytes)
qed

section \<open>Signatures recover to their maker\<close>

lemma Sign_RecoverPubkey:
  assumes "curve_laws c" "Sign c prv hash = Some sig"
  shows "length sig = 65 \<and> (sig ! 64 = 0 \<or> sig ! 64 = 1) \<and> RecoverPubkey c sig hash = Ret (PublicKey c prv)"
proof -
  obtain cs where cs: "SignCompact c prv hash = Some cs"
    "sig = drop 1 (cs @ [if cs ! 0 = 28 then 1 else 0])"
    using assms(2) by (auto simp: Sign_def Let_def split: option.splits)
  then have l: "length cs = 65" "cs ! 0 = 27 \<or> cs ! 0 = 28" "RecoverCompact c cs hash = Some (PublicKey c prv)"
    using assms(1) by (auto simp: curve_laws_def)
  have "sig = drop 1 cs @ [if cs ! 0 = 28 then 1 else 0]" using cs(2) l(1) by simp
  then have s: "length sig = 65" "sig ! 64 = (if cs ! 0 = 28 then 1 else 0)" "take 64 sig = drop 1 cs"
    using l(1) by (simp_all add: nth_append)
  have "(if sig ! 64 = 1 then 28 else 27) # take 64 sig = cs"
    using l(1,2) s(2,3) by (cases cs) auto
  then show ?thesis using s l(3) by (auto simp: RecoverPubkey_def Let_def)
qed

text \<open>An empty signature makes the recovery panic.\<close>

lemma RecoverPubkey_empty_panics: "RecoverPubkey c [] hash = Panic"
  by (simp add: RecoverPubkey_def)

section \<open>Which signature values are accepted\<close>

lemma trimLeftZeros_id: "b = [] \<or> hd b \<noteq> 0 \<Longrightarrow> trimLeftZeros b = b"
  by (cases b) (simp_all add: trimLeftZeros_def)

lemma trimLeftZeros_big_Bytes: "trimLeftZeros (big_Bytes x) = big_Bytes x"
proof (cases "x = 0")
  case False
  then show ?thesis using hd_nat_bytes [of "nat \<bar>x\<bar>"] by (intro trimLeftZeros_id) (simp add: big_Bytes_def)
qed (simp add: big_Bytes_def nat_bytes.simps trimLeftZeros_def)

lemma be_value_first:
  assumes "length xs = length ys" "uint x < uint y"
  shows "be_value (x # xs) < be_value (y # ys)"
proof -
  have "be_value (x # xs) < (uint x + 1) * 256 ^ length xs"
    using be_value_less [of xs] by (simp add: be_value_Cons algebra_simps)
  also have "\<dots> \<le> uint y * 256 ^ length xs" using assms(2) by (intro mult_right_mono) simp_all
  also have "\<dots> \<le> be_value (y # ys)" using assms(1) by (simp add: be_value_Cons)
  finally show ?thesis .
qed

lemma bytes_Compare_value:
  "length xs = length ys \<Longrightarrow> bytes_Compare xs ys < 0 \<longleftrightarrow> be_value xs < be_value ys"
proof (induction xs ys rule: list_induct2)
  case (Cons x xs y ys)
  consider "uint x < uint y" | "uint y < uint x" | "x = y" by (metis not_less_iff_gr_or_eq word_uint_eq_iff)
  then show ?case
  proof cases
    case 1
    then show ?thesis using be_value_first [OF Cons.hyps 1] by (simp add: word_less_def)
  next
    case 2
    then show ?thesis using be_value_first [OF Cons.hyps [symmetric] 2] by (simp add: word_less_def)
  next
    case 3
    then show ?thesis using Cons by (simp add: be_value_Cons)
  qed
qed simp

lemma bytes_Compare_Nil [simp]: "0 \<le> bytes_Compare xs []" "\<not> bytes_Compare xs [] < 0"
  by (cases xs; simp)+

lemma bytes_Compare_one: "bytes_Compare xs [1] < 0 \<longleftrightarrow> xs = [] \<or> (\<exists>ys. xs = 0 # ys)"
proof (cases xs)
  case (Cons x ys)
  have "x < 1 \<longleftrightarrow> x = 0" by (simp add: word_less_nat_alt unat_eq_0)
  then show ?thesis using Cons by auto
qed simp

lemma be_value_secp256k1N: "be_value secp256k1N = secp256k1N1"
  by (simp add: secp256k1N_def be_value_be_bytes secp256k1N1_def)

lemma length_secp256k1N: "length secp256k1N = 32"
  by (simp add: secp256k1N_def)

lemma big_Bytes_be_value:
  assumes "b = [] \<or> hd b \<noteq> 0"
  shows "big_Bytes (be_value b) = b"
proof -
  have "length b - length (big_Bytes (be_value b)) = 0"
  proof (rule ccontr)
    assume "length b - length (big_Bytes (be_value b)) \<noteq> 0"
    then obtain k where "length b - length (big_Bytes (be_value b)) = Suc k" using not0_implies_Suc by blast
    then have "b = 0 # replicate k 0 @ big_Bytes (be_value b)" using pad_big_Bytes(2) [of b] by simp
    then show False using assms by (metis list.distinct(1) list.sel(1))
  qed
  then show ?thesis using pad_big_Bytes(2) [of b] by simp
qed

text \<open>For values of 32 bytes the comparison is the numerical one; the values of a signature must lie
  strictly between zero and the order of the curve.\<close>

lemma ValidateSignatureValues_32:
  assumes "length (big_Bytes r) = 32" "length (big_Bytes s) = 32"
  shows "ValidateSignatureValues v (Some r) (Some s) \<longleftrightarrow> v \<le> 1 \<and> \<bar>r\<bar> < secp256k1N1 \<and> \<bar>s\<bar> < secp256k1N1"
proof -
  have "bytes_Compare (big_Bytes x) secp256k1N < 0 \<longleftrightarrow> \<bar>x\<bar> < secp256k1N1"
    "\<not> bytes_Compare (big_Bytes x) [1] < 0" if "length (big_Bytes x) = 32" for x
  proof -
    show "bytes_Compare (big_Bytes x) secp256k1N < 0 \<longleftrightarrow> \<bar>x\<bar> < secp256k1N1"
      using that SetBytes_big_Bytes [of x]
      by (simp add: bytes_Compare_value length_secp256k1N be_value_secp256k1N SetBytes_def)
    have "x \<noteq> 0" using that by (auto simp: big_Bytes_def nat_bytes.simps)
    then have "hd (big_Bytes x) \<noteq> 0" using hd_nat_bytes [of "nat \<bar>x\<bar>"] by (simp add: big_Bytes_def)
    then show "\<not> bytes_Compare (big_Bytes x) [1] < 0"
      using that by (auto simp: bytes_Compare_one)
  qed
  from this [OF assms(1)] this [OF assms(2)] show ?thesis
    by (auto simp: ValidateSignatureValues_def trimLeftZeros_big_Bytes Let_def not_le)
qed

text \<open>Longer values are compared lexicographically: a value above the order is accepted.\<close>

lemma ValidateSignatureValues_large: "ValidateSignatureValues 0 (Some (2 ^ 256)) (Some 1)"
proof -
  have "(2 :: int) ^ 256 = be_value (1 # replicate 32 0)"
    by (simp add: be_value_Cons numeral_eq_Suc)
  then have 1: "big_Bytes (2 ^ 256) = 1 # replicate 32 0"
    by (metis big_Bytes_be_value list.sel(1) zero_neq_one)
  have "(1 :: int) = be_value [1]" by (simp add: be_value_Cons)
  then have 2: "big_Bytes 1 = [1]"
    by (metis big_Bytes_be_value list.sel(1) zero_neq_one)
  have "secp256k1N = 0xff # tl secp256k1N" by code_simp
  then obtain t where t: "secp256k1N = 0xff # t" by blast
  have "(1 :: u8) < 0xff" by code_simp
  then have "bytes_Compare (1 # xs) secp256k1N < 0" for xs unfolding t by simp
  then show ?thesis
    by (simp only: ValidateSignatureValues_def Let_def trimLeftZeros_big_Bytes 1 2 option.case prod.case)
       (simp add: bytes_Compare_one not_le)
qed

end
