(* ===== verification/TxSigner.thy ===== *)
theory TxSigner
  imports Crypto
begin

text \<open>
  Transaction signatures, \<open>state/txsigner.go\<close>: the Frontier and EIP-155 signers. The RLP library and
  the curve are parameters. A slice expression with a negative bound panics.
\<close>

section \<open>The signers\<close>

definition calcTxHash :: "'v rlp_api \<Rightarrow> ('prv, 'pub) curve \<Rightarrow> transaction \<Rightarrow> u64 \<Rightarrow> hash" where
  "calcTxHash a c tx chainID =
     (let v = [NewUint a (txNonce tx),
               NewBigInt a (Some (txGasPrice tx)),
               NewUint a (txGas tx),
               (case txTo tx of None \<Rightarrow> NewNull a | Some to \<Rightarrow> NewBytes a (Address_Bytes to)),
               NewBigInt a (Some (txValue tx)),
               NewBytes a (txInput tx)];
          v = (if chainID \<noteq> 0 then v @ [NewUint a chainID, NewUint a 0, NewUint a 0] else v)
      in BytesToHash (keccak c (MarshalTo a (NewArray a v) [])))"

definition Frontier_Hash :: "'v rlp_api \<Rightarrow> ('prv, 'pub) curve \<Rightarrow> transaction \<Rightarrow> hash" where
  "Frontier_Hash a c tx = calcTxHash a c tx 0"

definition overwrite :: "nat \<Rightarrow> bytes \<Rightarrow> bytes \<Rightarrow> bytes" where
  "overwrite off b dst = take off dst @ b @ drop (off + length b) dst"

definition encodeSignature :: "int option \<Rightarrow> int option \<Rightarrow> u8 \<Rightarrow> bytes go" where
  "encodeSignature R S V =
     (if \<not> ValidateSignatureValues V R S then Error
      else let rb = big_Bytes (the R); sb = big_Bytes (the S); sig = replicate 65 0 in
      if 32 < length rb then Panic
      else let sig = overwrite (32 - length rb) rb sig in
      if 64 < length sb then Panic
      else let sig = overwrite (64 - length sb) sb sig
           in Ret (sig[64 := V]))"

definition bigV_of :: "int option \<Rightarrow> int" where
  "bigV_of V = (case V of Some v \<Rightarrow> SetBytes (big_Bytes v) | None \<Rightarrow> 0)"

definition recover_sender :: "('prv, 'pub) curve \<Rightarrow> hash \<Rightarrow> bytes \<Rightarrow> address go" where
  "recover_sender c h sig =
     andThen (Ecrecover c (Hash_Bytes h) sig) (\<lambda>pub.
       Ret (BytesToAddress (drop 12 (Keccak256 c [drop 1 pub]))))"

definition Frontier_Sender :: "'v rlp_api \<Rightarrow> ('prv, 'pub) curve \<Rightarrow> transaction \<Rightarrow> address go" where
  "Frontier_Sender a c tx =
     (let refV = bigV_of (txV tx) - 27
      in andThen (encodeSignature (txR tx) (txS tx) (word_of_int refV))
           (\<lambda>sig. recover_sender c (Frontier_Hash a c tx) sig))"

definition Frontier_CalculateV :: "u8 \<Rightarrow> bytes" where
  "Frontier_CalculateV parity = big_Bytes (uint parity + 27)"

definition with_signature :: "bytes \<Rightarrow> bytes \<Rightarrow> transaction \<Rightarrow> transaction" where
  "with_signature sig v tx = tx\<lparr>txV := Some (SetBytes v), txR := Some (SetBytes (take 32 sig)),
     txS := Some (SetBytes (take 32 (drop 32 sig)))\<rparr>"

definition Frontier_SignTx :: "'v rlp_api \<Rightarrow> ('prv, 'pub) curve \<Rightarrow> transaction \<Rightarrow> 'prv \<Rightarrow> transaction option" where
  "Frontier_SignTx a c tx privateKey =
     (let tx = tx_Copy tx; h = Frontier_Hash a c tx in
      case Sign c privateKey (Hash_Bytes h) of
        None \<Rightarrow> None
      | Some sig \<Rightarrow> Some (with_signature sig (Frontier_CalculateV (sig ! 64)) tx))"

definition EIP155_Hash :: "'v rlp_api \<Rightarrow> ('prv, 'pub) curve \<Rightarrow> u64 \<Rightarrow> transaction \<Rightarrow> hash" where
  "EIP155_Hash a c chainID tx = calcTxHash a c tx chainID"

text \<open>\<open>bits.Len (vv) <= 8\<close> says that \<open>vv\<close> fits in a byte; \<open>int64 (chainID)\<close> is the signed reading.\<close>

definition EIP155_Sender :: "'v rlp_api \<Rightarrow> ('prv, 'pub) curve \<Rightarrow> u64 \<Rightarrow> transaction \<Rightarrow> address go" where
  "EIP155_Sender a c chainID tx =
     (let bigV = bigV_of (txV tx);
          vv = (word_of_int bigV :: u64);
          protected = (if vv < 256 then vv \<noteq> 27 \<and> vv \<noteq> 28 else True)
      in if \<not> protected then Frontier_Sender a c tx
         else let bigV = bigV - sint chainID * 2 - 35
              in andThen (encodeSignature (txR tx) (txS tx) (word_of_int bigV))
                   (\<lambda>sig. recover_sender c (EIP155_Hash a c chainID tx) sig))"

definition EIP155_CalculateV :: "u64 \<Rightarrow> u8 \<Rightarrow> bytes" where
  "EIP155_CalculateV chainID parity = big_Bytes (uint parity + 35 + sint chainID * 2)"

definition EIP155_SignTx :: "'v rlp_api \<Rightarrow> ('prv, 'pub) curve \<Rightarrow> u64 \<Rightarrow> transaction \<Rightarrow> 'prv \<Rightarrow> transaction option" where
  "EIP155_SignTx a c chainID tx privateKey =
     (let tx = tx_Copy tx; h = EIP155_Hash a c chainID tx in
      case Sign c privateKey (Hash_Bytes h) of
        None \<Rightarrow> None
      | Some sig \<Rightarrow> Some (with_signature sig (EIP155_CalculateV chainID (sig ! 64)) tx))"

section \<open>The sender of a signed transaction is its signer\<close>

lemma calcTxHash_signature [simp]:
  "calcTxHash a c (with_signature sig v tx) chainID = calcTxHash a c tx chainID"
  by (simp add: calcTxHash_def with_signature_def)

lemma encodeSignature_decoded:
  assumes "length sig = 65"
    and "ValidateSignatureValues (sig ! 64) (Some (SetBytes (take 32 sig))) (Some (SetBytes (take 32 (drop 32 sig))))"
  shows "encodeSignature (Some (SetBytes (take 32 sig))) (Some (SetBytes (take 32 (drop 32 sig)))) (sig ! 64) = Ret sig"
proof -
  let ?r = "take 32 sig" and ?s = "take 32 (drop 32 sig)"
  let ?rb = "big_Bytes (be_value ?r)" and ?sb = "big_Bytes (be_value ?s)"
  have r: "length ?rb \<le> 32" "replicate (32 - length ?rb) 0 @ ?rb = ?r"
    using assms(1) by (simp_all add: pad_big_Bytes)
  have s: "length ?sb \<le> 32" "replicate (32 - length ?sb) 0 @ ?sb = ?s"
    using assms(1) by (simp_all add: pad_big_Bytes)
  have "overwrite (32 - length ?rb) ?rb (replicate 65 0) = ?r @ replicate 33 0"
    using r by (simp add: overwrite_def)
  moreover have "overwrite (64 - length ?sb) ?sb (?r @ replicate 33 0) = ?r @ ?s @ [0]"
    using s assms(1) by (simp add: overwrite_def)
  moreover have "(?r @ ?s @ [0])[64 := sig ! 64] = sig"
    using assms(1) by (intro nth_equalityI) (auto simp: nth_append nth_list_update)
  ultimately show ?thesis
    using assms(2) r(1) s(1) by (simp add: encodeSignature_def SetBytes_def Let_def)
qed

lemma bigV_of_calculated [simp]: "0 \<le> x \<Longrightarrow> bigV_of (Some (SetBytes (big_Bytes x))) = x"
  by (simp add: bigV_of_def SetBytes_big_Bytes)

lemma sint_chainID: "chainID < 2 ^ 62 \<Longrightarrow> sint (chainID :: u64) = uint chainID"
proof -
  assume "chainID < 2 ^ 62"
  then have "uint chainID < 2 ^ 62" by (simp add: word_less_def)
  then have "- (2 ^ 63) \<le> uint chainID" "uint chainID < 2 ^ 63"
    using order_trans [OF _ uint_ge_0 [of chainID], of "- (2 ^ 63)"] by simp_all
  then show ?thesis by (simp add: sint_uint signed_take_bit_int_eq_self)
qed

lemma ValidateSignatureValues_parity:
  "ValidateSignatureValues 0 r s \<Longrightarrow> p = 0 \<or> p = 1 \<Longrightarrow> ValidateSignatureValues p r s"
  by (auto simp: ValidateSignatureValues_def Let_def split: option.splits if_splits)

lemma protected_V: "35 \<le> V \<Longrightarrow> V < 2 ^ 64 \<Longrightarrow> (word_of_int V :: u64) \<noteq> 27 \<and> (word_of_int V :: u64) \<noteq> 28"
proof -
  assume "35 \<le> V" "V < 2 ^ 64"
  then have "uint (word_of_int V :: u64) = V" by (simp add: uint_word_of_int_eq take_bit_int_eq_self)
  then show ?thesis using \<open>35 \<le> V\<close> by auto
qed

lemma recover_signed:
  assumes "curve_laws c" "Sign c prv (Hash_Bytes h) = Some sig"
    and "ValidateSignatureValues 0 (Some (SetBytes (take 32 sig))) (Some (SetBytes (take 32 (drop 32 sig))))"
  shows "andThen (encodeSignature (Some (SetBytes (take 32 sig))) (Some (SetBytes (take 32 (drop 32 sig)))) (sig ! 64))
      (recover_sender c h) = Ret (PubKeyToAddress c (PublicKey c prv))"
proof -
  have s: "length sig = 65" "sig ! 64 = 0 \<or> sig ! 64 = 1" "RecoverPubkey c sig (Hash_Bytes h) = Ret (PublicKey c prv)"
    using Sign_RecoverPubkey [OF assms(1,2)] by simp_all
  have "ValidateSignatureValues (sig ! 64) (Some (SetBytes (take 32 sig))) (Some (SetBytes (take 32 (drop 32 sig))))"
    by (rule ValidateSignatureValues_parity [OF assms(3) s(2)])
  from encodeSignature_decoded [OF s(1) this] show ?thesis
    by (simp add: recover_sender_def Ecrecover_def s(3) PubKeyToAddress_def)
qed


text \<open>A small instance of the curve: one key, whose signatures are constant.\<close>

definition unit_curve :: "(unit, unit) curve" where
  "unit_curve = \<lparr>SignCompact = (\<lambda>_ _. Some (27 # replicate 64 1)), RecoverCompact = (\<lambda>_ _. Some ()),
     MarshalPub = (\<lambda>_. 4 # replicate 64 0), PublicKey = id, keccak = (\<lambda>_. replicate 32 7)\<rparr>"

lemma unit_curve_laws: "curve_laws unit_curve"
  by (simp add: curve_laws_def unit_curve_def)

lemma unit_curve_values:
  "ValidateSignatureValues 0 (Some (be_value (replicate 32 1))) (Some (be_value (replicate 32 1)))"
proof -
  have "big_Bytes (be_value (replicate 32 1)) = replicate 32 1" by (rule big_Bytes_be_value) simp
  moreover have "be_value (replicate 32 1) < secp256k1N1" by code_simp
  ultimately show ?thesis by (subst ValidateSignatureValues_32) simp_all
qed


section \<open>Malformed signatures\<close>

text \<open>A signature value of 33 bytes passes the check and makes the slice expression panic.\<close>

lemma encodeSignature_panics: "encodeSignature (Some (2 ^ 256)) (Some 1) 0 = Panic"
proof -
  have e: "(2 :: int) ^ 256 = be_value (1 # replicate 32 0)"
    by (simp add: be_value_Cons numeral_eq_Suc)
  have "big_Bytes (be_value (1 # replicate 32 0)) = 1 # replicate 32 0"
    by (rule big_Bytes_be_value) simp
  then have "length (big_Bytes (2 ^ 256)) = 33" by (simp only: e) simp
  then show ?thesis using ValidateSignatureValues_large unfolding encodeSignature_def Let_def by simp
qed

text \<open>The recovery value is reduced modulo 256, so a transaction has many valid encodings of it.\<close>

lemma EIP155_Sender_malleable:
  assumes "txV tx = Some v" "35 + 2 * uint chainID \<le> v" "v < 2 ^ 63" "chainID < 2 ^ 62" "0 \<le> k" "k < 2 ^ 54"
  shows "EIP155_Sender a c chainID (tx\<lparr>txV := Some (v + 256 * k)\<rparr>) = EIP155_Sender a c chainID tx"
proof -
  have e: "(word_of_int (v + 256 * k - sint chainID * 2 - 35) :: u8) = word_of_int (v - sint chainID * 2 - 35)"
  proof (rule word_uint_eqI)
    have "(v + 256 * k - sint chainID * 2 - 35) mod 256 = (v - sint chainID * 2 - 35) mod 256"
      by (metis (no_types) add.commute add_diff_eq mod_mult_self2)
    then show "uint (word_of_int (v + 256 * k - sint chainID * 2 - 35) :: u8) = uint (word_of_int (v - sint chainID * 2 - 35) :: u8)"
      by (simp only: uint_word_of_int) simp
  qed
  have "35 \<le> v" using assms(2) uint_ge_0 [of chainID] by linarith
  then have V: "35 \<le> v" "35 \<le> v + 256 * k" "v < 2 ^ 64" "v + 256 * k < 2 ^ 64" "0 \<le> v"
    using assms(3,5,6) by simp_all
  have b: "bigV_of (Some v) = v" "bigV_of (Some (v + 256 * k)) = v + 256 * k"
    using V by (simp_all add: bigV_of_def SetBytes_big_Bytes)
  show ?thesis
    using protected_V [OF V(1,3)] protected_V [OF V(2,4)]
    by (simp add: EIP155_Sender_def assms(1) b Let_def e EIP155_Hash_def calcTxHash_def del: of_int_add of_int_diff of_int_mult)
qed

end
