(* ===== verification/BftSign.thy ===== *)
theory BftSign
  imports BftState BftSnapshot TxSigner
begin

text \<open>
  The extra data of a header (\<open>consensus/pvbft/extra.go\<close>), the header hashes
  (\<open>consensus/pvbft/header_hash.go\<close>) and the seals (\<open>consensus/pvbft/sign.go\<close>). The RLP library, the
  curve, the verifiable random function and the protobuf encoding of a message are parameters.
\<close>

section \<open>Extra data\<close>

definition IstanbulExtraVanity :: nat where "IstanbulExtraVanity = 32"
definition IstanbulExtraSeal :: nat where "IstanbulExtraSeal = 65"

definition IstanbulDigest :: hash where
  "IstanbulDigest = StringToHash ''0x63746963616c2062797a616e74696e65206661756c7420746f6c6572616e6365''"

record IstanbulExtra =
  eValidators :: "address list"
  eSeal :: bytes
  eCommittedSeal :: "bytes list"
  eVrfValue :: bytes
  eVrfProof :: bytes

definition SetVrfInfo :: "bytes \<Rightarrow> bytes \<Rightarrow> IstanbulExtra \<Rightarrow> IstanbulExtra" where
  "SetVrfInfo val pr i = i\<lparr>eVrfValue := val, eVrfProof := pr\<rparr>"

definition null_or_bytes :: "'v rlp_api \<Rightarrow> bytes \<Rightarrow> 'v" where
  "null_or_bytes a b = (if length b = 0 then NewNull a else NewBytes a b)"

text \<open>An empty committed seal is written to the outer array, before the list of seals.\<close>

fun committed_loop :: "'v rlp_api \<Rightarrow> bytes list \<Rightarrow> 'v list \<Rightarrow> 'v list \<Rightarrow> 'v list \<times> 'v list" where
  "committed_loop a [] vv com = (vv, com)"
| "committed_loop a (s # seals) vv com =
     (if length s = 0 then committed_loop a seals (vv @ [NewNull a]) com
      else committed_loop a seals vv (com @ [NewBytes a s]))"

definition Extra_MarshalRLPWith :: "'v rlp_api \<Rightarrow> IstanbulExtra \<Rightarrow> 'v" where
  "Extra_MarshalRLPWith a i =
     (let vv = [NewArray a (map (\<lambda>v. NewBytes a (Address_Bytes v)) (eValidators i))];
          vv = vv @ [null_or_bytes a (eSeal i)];
          vv = (if length (eCommittedSeal i) = 0 then vv @ [NewNullArray a]
                else let (vv, com) = committed_loop a (eCommittedSeal i) vv []
                     in vv @ [NewArray a com]);
          vv = vv @ [null_or_bytes a (eVrfValue i)];
          vv = vv @ [null_or_bytes a (eVrfProof i)]
      in NewArray a vv)"

definition Extra_UnmarshalRLPFrom :: "'v rlp_api \<Rightarrow> 'v \<Rightarrow> IstanbulExtra option" where
  "Extra_UnmarshalRLPFrom a v = do {
     elems \<leftarrow> GetElems a v;
     if length elems \<noteq> 5 then None else do {
       vals \<leftarrow> GetElems a (elems ! 0);
       vs \<leftarrow> decode_all (\<lambda>x. map_option BytesToAddress (GetAddr a x)) vals;
       seal \<leftarrow> GetBytes a (elems ! 1);
       coms \<leftarrow> GetElems a (elems ! 2);
       cs \<leftarrow> decode_all (GetBytes a) coms;
       vrfValue \<leftarrow> GetBytes a (elems ! 3);
       vrfProof \<leftarrow> GetBytes a (elems ! 4);
       Some \<lparr>eValidators = vs, eSeal = seal, eCommittedSeal = cs, eVrfValue = vrfValue, eVrfProof = vrfProof\<rparr>
     }}"

definition Extra_UnmarshalRLP :: "'v rlp_api \<Rightarrow> bytes \<Rightarrow> IstanbulExtra option" where
  "Extra_UnmarshalRLP a input = UnmarshalRlp a (Extra_UnmarshalRLPFrom a) input"

definition Extra_MarshalRLPTo :: "'v rlp_api \<Rightarrow> IstanbulExtra \<Rightarrow> bytes \<Rightarrow> bytes" where
  "Extra_MarshalRLPTo a i dst = MarshalRLPTo a (Extra_MarshalRLPWith a i) dst"

definition vanity :: "bytes \<Rightarrow> bytes" where
  "vanity extra =
     (if length extra < IstanbulExtraVanity then extra @ replicate (IstanbulExtraVanity - length extra) 0
      else take IstanbulExtraVanity extra)"

definition putIbftExtraValidators :: "'v rlp_api \<Rightarrow> Header \<Rightarrow> address list \<Rightarrow> Header" where
  "putIbftExtraValidators a h vals =
     h\<lparr>ExtraData := Extra_MarshalRLPTo a
        \<lparr>eValidators = vals, eSeal = [], eCommittedSeal = [], eVrfValue = [], eVrfProof = []\<rparr>
        (vanity (ExtraData h))\<rparr>"

definition PutIbftExtra :: "'v rlp_api \<Rightarrow> Header \<Rightarrow> IstanbulExtra \<Rightarrow> Header" where
  "PutIbftExtra a h istanbulExtra =
     h\<lparr>ExtraData := vanity (ExtraData h) @ Extra_MarshalRLPTo a istanbulExtra []\<rparr>"

definition getIbftExtra :: "'v rlp_api \<Rightarrow> Header \<Rightarrow> IstanbulExtra option" where
  "getIbftExtra a h =
     (if length (ExtraData h) < IstanbulExtraVanity then None
      else Extra_UnmarshalRLP a (drop IstanbulExtraVanity (ExtraData h)))"

section \<open>Header hashes\<close>

definition sealed_fields :: "'v rlp_api \<Rightarrow> Header \<Rightarrow> 'v" where
  "sealed_fields a h = NewArray a
     [NewBytes a (Hash_Bytes (ParentHash h)),
      NewBytes a (Hash_Bytes (Sha3Uncles h)),
      NewBytes a (Address_Bytes (Miner h)),
      NewBytes a (Hash_Bytes (StateRoot h)),
      NewBytes a (Hash_Bytes (TxRoot h)),
      NewBytes a (Hash_Bytes (ReceiptsRoot h)),
      NewBytes a (LogsBloom h),
      NewUint a (Difficulty h),
      NewUint a (Number h),
      NewUint a (GasLimit h),
      NewUint a (GasUsed h),
      NewUint a (Timestamp h),
      NewBytes a (ExtraData h)]"

definition calculateHeaderHash :: "'v rlp_api \<Rightarrow> ('prv, 'pub) curve \<Rightarrow> Header \<Rightarrow> bytes option" where
  "calculateHeaderHash a c h =
     (let h = Header_Copy h in
      case getIbftExtra a h of
        None \<Rightarrow> None
      | Some extra \<Rightarrow>
          let h = putIbftExtraValidators a h (eValidators extra)
          in Some (keccak c (MarshalTo a (sealed_fields a h) [])))"

definition istanbulHeaderHash :: "'v rlp_api \<Rightarrow> ('prv, 'pub) curve \<Rightarrow> Header \<Rightarrow> hash" where
  "istanbulHeaderHash a c h =
     (let h = Header_Copy h in
      case getIbftExtra a h of
        None \<Rightarrow> 0
      | Some extra \<Rightarrow>
          let h = putIbftExtraValidators a h (eValidators extra)
          in BytesToHash (keccak c (MarshalTo a (sealed_fields a h) [])))"

section \<open>Seals\<close>

text \<open>The wire code of a commit message (\<open>proto.MessageReq_Commit\<close>).\<close>

definition commitMsg :: "('prv, 'pub) curve \<Rightarrow> bytes \<Rightarrow> bytes" where
  "commitMsg c b = Keccak256 c [b, [2]]"

definition ecrecoverImpl :: "('prv, 'pub) curve \<Rightarrow> bytes \<Rightarrow> bytes \<Rightarrow> 'pub go" where
  "ecrecoverImpl c sig msg = RecoverPubkey c sig (Keccak256 c [msg])"

definition ecrecoverFromHeader :: "'v rlp_api \<Rightarrow> ('prv, 'pub) curve \<Rightarrow> Header \<Rightarrow> 'pub go" where
  "ecrecoverFromHeader a c h =
     andThen (go_of (getIbftExtra a h)) (\<lambda>extra.
     andThen (go_of (calculateHeaderHash a c h)) (\<lambda>msg.
       ecrecoverImpl c (eSeal extra) msg))"

definition signSealImpl :: "'v rlp_api \<Rightarrow> ('prv, 'pub) curve \<Rightarrow> 'prv \<Rightarrow> Header \<Rightarrow> bool \<Rightarrow> bytes option" where
  "signSealImpl a c prv h com = do {
     hash \<leftarrow> calculateHeaderHash a c h;
     let msg = (if com then commitMsg c hash else hash);
     Sign c prv (Keccak256 c [msg])
   }"

definition writeSeal :: "'v rlp_api \<Rightarrow> ('prv, 'pub) curve \<Rightarrow> ('prv \<Rightarrow> bytes \<Rightarrow> (bytes \<times> bytes) option) \<Rightarrow>
    'prv \<Rightarrow> Header \<Rightarrow> bytes \<Rightarrow> Header option" where
  "writeSeal a c Vrf prv h vrfData = do {
     let h = Header_Copy h;
     seal \<leftarrow> signSealImpl a c prv h False;
     extra \<leftarrow> getIbftExtra a h;
     let extra = extra\<lparr>eSeal := seal\<rparr>;
     (vrfValue, vrfProof) \<leftarrow> Vrf prv vrfData;
     let extra = SetVrfInfo vrfValue vrfProof extra;
     Some (PutIbftExtra a h extra)
   }"

definition writeCommittedSeal :: "'v rlp_api \<Rightarrow> ('prv, 'pub) curve \<Rightarrow> 'prv \<Rightarrow> Header \<Rightarrow> bytes option" where
  "writeCommittedSeal a c prv h = signSealImpl a c prv h True"

definition writeCommittedSeals :: "'v rlp_api \<Rightarrow> Header \<Rightarrow> bytes list \<Rightarrow> Header option" where
  "writeCommittedSeals a h seals =
     (let h = Header_Copy h in
      if length seals = 0 then None
      else if \<not> list_all (\<lambda>seal. length seal = IstanbulExtraSeal) seals then None
      else do {
        extra \<leftarrow> getIbftExtra a h;
        let extra = extra\<lparr>eCommittedSeal := seals\<rparr>;
        Some (PutIbftExtra a h extra)
      })"

definition verifySigner :: "'v rlp_api \<Rightarrow> ('prv, 'pub) curve \<Rightarrow> Snapshot \<Rightarrow> Header \<Rightarrow> 'pub go" where
  "verifySigner a c snap header =
     andThen (ecrecoverFromHeader a c header) (\<lambda>signerPub.
       let signer = PubKeyToAddress c signerPub
       in if \<not> snap_Includes signer snap then Error else Ret signerPub)"

text \<open>The loop over the seals: \<open>visited\<close> are the validators seen so far.\<close>

fun seals_loop :: "('prv, 'pub) curve \<Rightarrow> Snapshot \<Rightarrow> bytes \<Rightarrow> bytes list \<Rightarrow> address list \<Rightarrow> address list go" where
  "seals_loop c snap rawMsg [] visited = Ret visited"
| "seals_loop c snap rawMsg (seal # seals) visited =
     andThen (ecrecoverImpl c seal rawMsg) (\<lambda>pub.
       let addr = PubKeyToAddress c pub
       in if addr \<in> set visited then Error
          else if \<not> snap_Includes addr snap then Error
          else seals_loop c snap rawMsg seals (addr # visited))"

definition verifyCommitedFields :: "'v rlp_api \<Rightarrow> ('prv, 'pub) curve \<Rightarrow> Snapshot \<Rightarrow> Header \<Rightarrow> unit go" where
  "verifyCommitedFields a c snap header =
     andThen (go_of (getIbftExtra a header)) (\<lambda>extra.
       if length (eCommittedSeal extra) = 0 then Error
       else andThen (go_of (calculateHeaderHash a c header)) (\<lambda>hash.
         let rawMsg = commitMsg c hash
         in andThen (seals_loop c snap rawMsg (eCommittedSeal extra) []) (\<lambda>visited.
              if int (length visited) \<le> 2 * snap_MaxFaultyNodes snap then Error else Ret ())))"

section \<open>Messages\<close>

definition PayloadNoSig :: "(MessageReq \<Rightarrow> bytes option) \<Rightarrow> MessageReq \<Rightarrow> bytes option" where
  "PayloadNoSig marshal m = marshal (m\<lparr>mSignature := ''''\<rparr>)"

definition validateMsg :: "(MessageReq \<Rightarrow> bytes option) \<Rightarrow> ('prv, 'pub) curve \<Rightarrow> MessageReq \<Rightarrow> MessageReq go" where
  "validateMsg marshal c msg =
     andThen (go_of (PayloadNoSig marshal msg)) (\<lambda>signMsg.
       let (buf, ok) = hex_DecodeHex (mSignature msg)
       in if \<not> ok then Error
          else andThen (ecrecoverImpl c buf signMsg) (\<lambda>pub.
            let addr = PubKeyToAddress c pub
            in Ret (msg\<lparr>mFrom := Address_String (\<lambda>b. BytesToHash (keccak c b)) addr\<rparr>)))"

definition signMsg :: "(MessageReq \<Rightarrow> bytes option) \<Rightarrow> ('prv, 'pub) curve \<Rightarrow> 'prv \<Rightarrow> MessageReq \<Rightarrow> MessageReq option" where
  "signMsg marshal c key msg = do {
     sign \<leftarrow> PayloadNoSig marshal msg;
     sig \<leftarrow> Sign c key (Keccak256 c [sign]);
     Some (msg\<lparr>mSignature := hex_EncodeToHex sig\<rparr>)
   }"

section \<open>The extra data survives its encoding\<close>

lemma length_vanity [simp]: "length (vanity b) = 32"
  by (simp add: vanity_def IstanbulExtraVanity_def)

lemma vanity_idem [simp]: "vanity (vanity b @ x) = vanity b"
  using length_vanity [of b] by (subst vanity_def) (simp add: IstanbulExtraVanity_def)

lemma committed_loop_eq:
  "committed_loop a seals vv com =
     (vv @ replicate (length (filter (\<lambda>s. s = []) seals)) (NewNull a),
      com @ map (NewBytes a) (filter (\<lambda>s. s \<noteq> []) seals))"
  by (induction a seals vv com rule: committed_loop.induct) (auto simp: replicate_app_Cons_same)

lemma reparse_null_or_bytes [rlp]:
  "rlp_laws a \<Longrightarrow> GetBytes a (reparse a (null_or_bytes a b)) = Some b"
  by (simp add: null_or_bytes_def rlp)

definition extra_ok :: "IstanbulExtra \<Rightarrow> bool" where
  "extra_ok i \<longleftrightarrow> list_all (\<lambda>s. s \<noteq> []) (eCommittedSeal i)"

lemma Extra_marshal_ok:
  assumes "extra_ok i"
  shows "Extra_MarshalRLPWith a i = NewArray a
    [NewArray a (map (\<lambda>v. NewBytes a (Address_Bytes v)) (eValidators i)), null_or_bytes a (eSeal i),
     if eCommittedSeal i = [] then NewNullArray a else NewArray a (map (NewBytes a) (eCommittedSeal i)),
     null_or_bytes a (eVrfValue i), null_or_bytes a (eVrfProof i)]"
proof -
  have "filter (\<lambda>s. s = []) (eCommittedSeal i) = []" "filter (\<lambda>s. s \<noteq> []) (eCommittedSeal i) = eCommittedSeal i"
    using assms by (auto simp: extra_ok_def list_all_iff filter_empty_conv filter_id_conv)
  then show ?thesis by (simp add: Extra_MarshalRLPWith_def committed_loop_eq)
qed

lemma Extra_round_trip:
  assumes "rlp_laws a" "extra_ok i"
  shows "Extra_UnmarshalRLPFrom a (reparse a (Extra_MarshalRLPWith a i)) = Some i"
proof -
  have "decode_all (\<lambda>x. map_option BytesToAddress (GetAddr a x))
      (map (\<lambda>v. reparse a (NewBytes a (Address_Bytes v))) (eValidators i)) = Some (eValidators i)"
    using assms(1) by (intro decode_all_map) (simp add: rlp BytesToAddress_Bytes)
  moreover have "decode_all (GetBytes a) (map (\<lambda>s. reparse a (NewBytes a s)) (eCommittedSeal i)) = Some (eCommittedSeal i)"
    using assms(1) by (intro decode_all_map) (simp add: rlp)
  ultimately show ?thesis
    using assms(1)
    by (simp add: Extra_marshal_ok [OF assms(2)] Extra_UnmarshalRLPFrom_def rlp comp_def)
qed

lemma getIbftExtra_appended:
  assumes "rlp_laws a" "extra_ok i"
  shows "getIbftExtra a (h\<lparr>ExtraData := vanity b @ MarshalTo a (Extra_MarshalRLPWith a i) []\<rparr>) = Some i"
proof -
  have "drop 32 (vanity b @ x) = x" for x using length_vanity [of b] by simp
  then show ?thesis
    using Extra_round_trip [OF assms] assms(1)
    by (simp add: getIbftExtra_def IstanbulExtraVanity_def Extra_UnmarshalRLP_def UnmarshalRlp_def rlp)
qed

lemma getIbftExtra_Put:
  assumes "rlp_laws a" "extra_ok i"
  shows "getIbftExtra a (PutIbftExtra a h i) = Some i"
  using getIbftExtra_appended [OF assms]
  by (simp add: PutIbftExtra_def Extra_MarshalRLPTo_def MarshalRLPTo_def)

text \<open>An empty committed seal is not written as such: the result has six elements and cannot be read.\<close>

lemma Extra_empty_seal_lost:
  "getIbftExtra item_api (PutIbftExtra item_api header0
     \<lparr>eValidators = [1], eSeal = [], eCommittedSeal = [[]], eVrfValue = [], eVrfProof = []\<rparr>) = None"
  by code_simp

section \<open>The signed hash does not depend on the seals\<close>

lemma putIbftExtraValidators_Put:
  "rlp_laws a \<Longrightarrow> putIbftExtraValidators a (PutIbftExtra a h e) vals = putIbftExtraValidators a h vals"
  by (simp add: putIbftExtraValidators_def PutIbftExtra_def)

lemma calculateHeaderHash_Put:
  assumes "rlp_laws a" "getIbftExtra a h = Some e" "extra_ok e'" "eValidators e' = eValidators e"
  shows "calculateHeaderHash a c (PutIbftExtra a h e') = calculateHeaderHash a c h"
  using assms
  by (simp add: calculateHeaderHash_def Header_Copy_def getIbftExtra_Put putIbftExtraValidators_Put)

lemma istanbulHeaderHash_calculate:
  "istanbulHeaderHash a c h = (case calculateHeaderHash a c h of None \<Rightarrow> 0 | Some b \<Rightarrow> BytesToHash b)"
  by (simp add: istanbulHeaderHash_def calculateHeaderHash_def Let_def split: option.split)


definition ex_extra :: IstanbulExtra where
  "ex_extra = \<lparr>eValidators = [1, 2, 3, 4], eSeal = [], eCommittedSeal = [], eVrfValue = [], eVrfProof = []\<rparr>"

definition ex_header :: Header where
  "ex_header = PutIbftExtra item_api (header0\<lparr>Number := 5\<rparr>) ex_extra"

lemma ex_header_extra: "getIbftExtra item_api ex_header = Some ex_extra"
  unfolding ex_header_def by (rule getIbftExtra_Put [OF item_laws]) (simp add: extra_ok_def ex_extra_def)


section \<open>Proposer seals\<close>



section \<open>Committed seals\<close>

lemma seals_loop_Ret:
  "seals_loop c snap raw seals visited = Ret vs \<Longrightarrow>
   \<exists>pubs. map (\<lambda>s. ecrecoverImpl c s raw) seals = map Ret pubs \<and>
     vs = rev (map (PubKeyToAddress c) pubs) @ visited \<and>
     (distinct visited \<longrightarrow> distinct vs) \<and> set (map (PubKeyToAddress c) pubs) \<subseteq> set (snSet snap)"
proof (induction c snap raw seals visited arbitrary: vs rule: seals_loop.induct)
  case (2 c snap raw seal seals visited)
  obtain pub where pub: "ecrecoverImpl c seal raw = Ret pub" "PubKeyToAddress c pub \<notin> set visited"
    "PubKeyToAddress c pub \<in> set (snSet snap)"
    and rec: "seals_loop c snap raw seals (PubKeyToAddress c pub # visited) = Ret vs"
    using "2.prems" by (auto simp: andThen_Ret Let_def split: if_splits)
  from "2.IH" [OF refl pub(2) _ rec] pub(3) obtain pubs where
    "map (\<lambda>s. ecrecoverImpl c s raw) seals = map Ret pubs"
    "vs = rev (map (PubKeyToAddress c) pubs) @ PubKeyToAddress c pub # visited"
    "distinct (PubKeyToAddress c pub # visited) \<longrightarrow> distinct vs" "set (map (PubKeyToAddress c) pubs) \<subseteq> set (snSet snap)"
    by auto
  then show ?case using pub by (intro exI [of _ "pub # pubs"]) auto
qed simp

lemma seals_loop_complete:
  assumes "map (\<lambda>s. ecrecoverImpl c s raw) seals = map Ret pubs"
    and "distinct (map (PubKeyToAddress c) pubs @ visited)" "set (map (PubKeyToAddress c) pubs) \<subseteq> set (snSet snap)"
  shows "seals_loop c snap raw seals visited = Ret (rev (map (PubKeyToAddress c) pubs) @ visited)"
  using assms
proof (induction pubs arbitrary: seals visited)
  case (Cons pub pubs)
  then obtain s seals' where s: "seals = s # seals'" "ecrecoverImpl c s raw = Ret pub"
    "map (\<lambda>s. ecrecoverImpl c s raw) seals' = map Ret pubs" by auto
  have "seals_loop c snap raw seals' (PubKeyToAddress c pub # visited)
      = Ret (rev (map (PubKeyToAddress c) pubs) @ PubKeyToAddress c pub # visited)"
    using Cons.prems(2,3) by (intro Cons.IH s(3)) auto
  then show ?case using Cons.prems(2,3) s(1,2) by simp
qed simp

text \<open>What it means that a header carries a quorum of commit seals.\<close>

definition commit_proof :: "'v rlp_api \<Rightarrow> ('prv, 'pub) curve \<Rightarrow> Snapshot \<Rightarrow> Header \<Rightarrow> address set \<Rightarrow> bool" where
  "commit_proof a c snap h Q \<longleftrightarrow>
     Q \<subseteq> set (snSet snap) \<and> 2 * snap_MaxFaultyNodes snap < int (card Q) \<and>
     (\<exists>hash e. calculateHeaderHash a c h = Some hash \<and> getIbftExtra a h = Some e \<and>
        (\<forall>addr\<in>Q. \<exists>seal\<in>set (eCommittedSeal e). \<exists>pub.
           RecoverPubkey c seal (Keccak256 c [commitMsg c hash]) = Ret pub \<and> PubKeyToAddress c pub = addr))"

text \<open>C27. \<open>verifyCommitedFields\<close> accepts a header only if its seals prove the commitment of more than
  \<open>2F\<close> different validators of the snapshot to the hash of this header. With \<open>3F + 1\<close> validators, the
  quorums of any two headers accepted under the snapshot share more than \<open>F\<close> validators.\<close>

theorem verifyCommitedFields_quorum:
  assumes "verifyCommitedFields a c snap h = Ret ()"
  shows "\<exists>Q. commit_proof a c snap h Q \<and>
    (distinct (snSet snap) \<longrightarrow> length (snSet snap) = 3 * f + 1 \<longrightarrow>
      (\<forall>h' Q'. commit_proof a c snap h' Q' \<longrightarrow> f < card (Q \<inter> Q')))"
proof -
  obtain e hash vs where e: "getIbftExtra a h = Some e" "calculateHeaderHash a c h = Some hash"
    "seals_loop c snap (commitMsg c hash) (eCommittedSeal e) [] = Ret vs"
    "2 * snap_MaxFaultyNodes snap < int (length vs)"
    using assms
    by (auto simp: verifyCommitedFields_def andThen_Ret Let_def go_of_def split: if_splits option.splits)
  from seals_loop_Ret [OF e(3)] obtain pubs where pubs:
    "map (\<lambda>s. ecrecoverImpl c s (commitMsg c hash)) (eCommittedSeal e) = map Ret pubs"
    "vs = rev (map (PubKeyToAddress c) pubs)" "distinct vs" "set (map (PubKeyToAddress c) pubs) \<subseteq> set (snSet snap)"
    by auto
  have "\<exists>seal\<in>set (eCommittedSeal e). \<exists>pub.
      RecoverPubkey c seal (Keccak256 c [commitMsg c hash]) = Ret pub \<and> PubKeyToAddress c pub = addr"
    if addr: "addr \<in> set vs" for addr
  proof -
    obtain pub where p: "pub \<in> set pubs" "addr = PubKeyToAddress c pub" using addr pubs(2) by auto
    have "Ret pub \<in> set (map (\<lambda>s. ecrecoverImpl c s (commitMsg c hash)) (eCommittedSeal e))"
      using p(1) by (simp add: pubs(1))
    then obtain s where "s \<in> set (eCommittedSeal e)" "ecrecoverImpl c s (commitMsg c hash) = Ret pub"
      by (metis (no_types, lifting) in_set_conv_nth length_map nth_map nth_mem)
    then show ?thesis using p(2) unfolding ecrecoverImpl_def by blast
  qed
  then have Q: "commit_proof a c snap h (set vs)"
    using e(1,2,4) pubs(2,4) distinct_card [OF pubs(3)] by (auto simp: commit_proof_def)
  moreover have "f < card (set vs \<inter> Q')"
    if "distinct (snSet snap)" "length (snSet snap) = 3 * f + 1" "commit_proof a c snap h' Q'" for h' Q'
  proof -
    have "card (set (snSet snap)) = 3 * f + 1" using that(1,2) by (simp add: distinct_card)
    then show ?thesis
      using Q that(2,3) by (intro quorum_intersection [of "set (snSet snap)"])
        (simp_all add: commit_proof_def snap_MaxFaultyNodes_def)
  qed
  ultimately show ?thesis by blast
qed

text \<open>C28. The seals that \<open>writeCommittedSeal\<close> makes with the keys of more than \<open>2F\<close> different
  validators, put in the header by \<open>writeCommittedSeals\<close>, are accepted by \<open>verifyCommitedFields\<close>.\<close>

theorem committed_seals_verify:
  assumes "rlp_laws a" "curve_laws c" "getIbftExtra a h = Some e"
    and "map (\<lambda>prv. writeCommittedSeal a c prv h) prvs = map Some seals"
    and "writeCommittedSeals a h seals = Some h'"
    and "distinct (map (\<lambda>prv. PubKeyToAddress c (PublicKey c prv)) prvs)"
    and "set (map (\<lambda>prv. PubKeyToAddress c (PublicKey c prv)) prvs) \<subseteq> set (snSet snap)"
    and "2 * snap_MaxFaultyNodes snap < int (length prvs)"
  shows "verifyCommitedFields a c snap h' = Ret ()"
proof -
  let ?e = "e\<lparr>eCommittedSeal := seals\<rparr>"
  have len: "length seals = length prvs" using assms(4) by (metis length_map)
  have h': "h' = PutIbftExtra a h ?e" and ne: "seals \<noteq> []" and l: "\<forall>s\<in>set seals. length s = 65"
    using assms(3,5)
    by (auto simp: writeCommittedSeals_def Header_Copy_def IstanbulExtraSeal_def list_all_iff Let_def split: if_splits)
  have e: "extra_ok ?e" "eValidators ?e = eValidators e"
    using l by (auto simp: extra_ok_def list_all_iff)
  obtain hash where hash: "calculateHeaderHash a c h = Some hash"
    using assms(3) by (simp add: calculateHeaderHash_def Header_Copy_def)
  have "map (\<lambda>s. ecrecoverImpl c s (commitMsg c hash)) seals = map Ret (map (PublicKey c) prvs)"
  proof (intro nth_equalityI)
    fix i
    assume i: "i < length (map (\<lambda>s. ecrecoverImpl c s (commitMsg c hash)) seals)"
    then have "writeCommittedSeal a c (prvs ! i) h = Some (seals ! i)"
      using assms(4) len by (metis length_map nth_map)
    then have "Sign c (prvs ! i) (Keccak256 c [commitMsg c hash]) = Some (seals ! i)"
      by (simp add: writeCommittedSeal_def signSealImpl_def hash)
    then show "map (\<lambda>s. ecrecoverImpl c s (commitMsg c hash)) seals ! i = map Ret (map (PublicKey c) prvs) ! i"
      using Sign_RecoverPubkey [OF assms(2)] i len by (simp add: ecrecoverImpl_def)
  qed (simp add: len)
  from seals_loop_complete [OF this, of "[]" snap] assms(6,7)
  have "seals_loop c snap (commitMsg c hash) seals []
      = Ret (rev (map (PubKeyToAddress c) (map (PublicKey c) prvs)))"
    by (simp add: comp_def)
  then show ?thesis
    using calculateHeaderHash_Put [OF assms(1,3) e, of c] getIbftExtra_Put [OF assms(1) e(1)] hash ne assms(8)
    by (simp add: verifyCommitedFields_def h')
qed

lemma ex_commit_seals:
  "writeCommittedSeal item_api unit_curve () ex_header = Some (replicate 64 1 @ [0])"
  by (simp add: writeCommittedSeal_def signSealImpl_def calculateHeaderHash_def Header_Copy_def
      ex_header_extra Sign_def unit_curve_def)

lemma ex_committed:
  "writeCommittedSeals item_api ex_header [replicate 64 1 @ [0]] =
     Some (PutIbftExtra item_api ex_header (ex_extra\<lparr>eCommittedSeal := [replicate 64 1 @ [0]]\<rparr>))"
  by (simp add: writeCommittedSeals_def Header_Copy_def IstanbulExtraSeal_def ex_header_extra)

definition ex_committed_snap :: Snapshot where
  "ex_committed_snap = (ex_snap 0)\<lparr>snSet := [PubKeyToAddress unit_curve ()]\<rparr>"

theorem committed_seals_verify_witness:
  "verifyCommitedFields item_api unit_curve ex_committed_snap
     (PutIbftExtra item_api ex_header (ex_extra\<lparr>eCommittedSeal := [replicate 64 1 @ [0]]\<rparr>)) = Ret ()"
proof -
  have "snap_MaxFaultyNodes ex_committed_snap = 0"
    by (simp add: ex_committed_snap_def snap_MaxFaultyNodes_def MaxFaulty_def)
  then show ?thesis
    using committed_seals_verify [OF item_laws unit_curve_laws ex_header_extra _ ex_committed,
        of "[()]" ex_committed_snap] ex_commit_seals
    by (simp add: ex_committed_snap_def unit_curve_def)
qed

lemma ex_committed_verified:
  "verifyCommitedFields item_api unit_curve ex_committed_snap
     (PutIbftExtra item_api ex_header (ex_extra\<lparr>eCommittedSeal := [replicate 64 1 @ [0]]\<rparr>)) = Ret ()"
proof -
  have g: "getIbftExtra item_api (PutIbftExtra item_api ex_header (ex_extra\<lparr>eCommittedSeal := [replicate 64 1 @ [0]]\<rparr>))
      = Some (ex_extra\<lparr>eCommittedSeal := [replicate 64 1 @ [0]]\<rparr>)"
    by (rule getIbftExtra_Put [OF item_laws]) (simp add: extra_ok_def)
  then show ?thesis
    by (simp add: verifyCommitedFields_def calculateHeaderHash_def Header_Copy_def ecrecoverImpl_def
        RecoverPubkey_def unit_curve_def ex_committed_snap_def snap_MaxFaultyNodes_def MaxFaulty_def)
qed

theorem verifyCommitedFields_quorum_witness:
  "\<exists>Q. commit_proof item_api unit_curve ex_committed_snap
     (PutIbftExtra item_api ex_header (ex_extra\<lparr>eCommittedSeal := [replicate 64 1 @ [0]]\<rparr>)) Q \<and> 0 < card Q"
proof -
  obtain Q where Q: "commit_proof item_api unit_curve ex_committed_snap
     (PutIbftExtra item_api ex_header (ex_extra\<lparr>eCommittedSeal := [replicate 64 1 @ [0]]\<rparr>)) Q"
    using verifyCommitedFields_quorum [OF ex_committed_verified, of 0] by blast
  moreover have "snap_MaxFaultyNodes ex_committed_snap = 0"
    by (simp add: ex_committed_snap_def snap_MaxFaultyNodes_def MaxFaulty_def)
  ultimately show ?thesis by (auto simp: commit_proof_def)
qed

section \<open>Messages\<close>

text \<open>A message with an empty signature, or a header with an empty seal, makes the node panic.\<close>

lemma validateMsg_empty_panics:
  assumes "marshal (m\<lparr>mSignature := ''''\<rparr>) \<noteq> None" "mSignature m = ''''"
  shows "validateMsg marshal c m = Panic"
  using assms
  by (auto simp: validateMsg_def PayloadNoSig_def ecrecoverImpl_def RecoverPubkey_empty_panics
      hex_DecodeHex_def TrimPrefix_def hex_DecodeString_def)

lemma StringToAddress_String: "StringToAddress (Address_String kec addr) = addr"
  by (simp add: StringToAddress_def stringToBytes_checksum BytesToAddress_Bytes)

lemma hex_DecodeHex_EncodeToHex: "hex_DecodeHex (hex_EncodeToHex b) = (b, True)"
  by (simp add: hex_DecodeHex_def hex_EncodeToHex_def TrimPrefix_def hex_DecodeString_def hex_Decode_encode)

text \<open>C31. A message signed by \<open>signMsg\<close> is accepted by \<open>validateMsg\<close>, which takes the sender from the
  signature and not from the message: the tallies then count it for the address of the key.\<close>

theorem signed_message_sender:
  assumes "curve_laws c" "signMsg marshal c key msg = Some msg'"
  shows "\<exists>m. validateMsg marshal c msg' = Ret m \<and> FromAddr m = PubKeyToAddress c (PublicKey c key) \<and>
    mType m = mType msg \<and> mView m = mView msg \<and> mSeal m = mSeal msg \<and> mProposal m = mProposal msg"
proof -
  obtain sign sig where s: "PayloadNoSig marshal msg = Some sign" "Sign c key (Keccak256 c [sign]) = Some sig"
    "msg' = msg\<lparr>mSignature := hex_EncodeToHex sig\<rparr>"
    using assms(2) by (auto simp: signMsg_def bind_eq_Some_conv)
  have "RecoverPubkey c sig (Keccak256 c [sign]) = Ret (PublicKey c key)"
    using Sign_RecoverPubkey [OF assms(1) s(2)] by simp
  moreover have "PayloadNoSig marshal msg' = Some sign" using s(1) by (simp add: s(3) PayloadNoSig_def)
  ultimately show ?thesis
    by (simp add: validateMsg_def s(3) hex_DecodeHex_EncodeToHex ecrecoverImpl_def FromAddr_def
        StringToAddress_String)
qed

theorem signed_message_sender_witness:
  "\<exists>msg' m. signMsg (\<lambda>_. Some [1]) unit_curve () (ex_msg MessageReq_Commit 1 0) = Some msg' \<and>
     validateMsg (\<lambda>_. Some [1]) unit_curve msg' = Ret m \<and> FromAddr m = PubKeyToAddress unit_curve ()"
proof -
  obtain msg' where m: "signMsg (\<lambda>_. Some [1]) unit_curve () (ex_msg MessageReq_Commit 1 0) = Some msg'"
    by (simp add: signMsg_def PayloadNoSig_def Sign_def unit_curve_def)
  show ?thesis
    using signed_message_sender [OF unit_curve_laws m] m by (auto simp: unit_curve_def)
qed

end
