(* ===== verification/BftReward.thy ===== *)
theory BftReward
  imports BftSign
begin

text \<open>
  Rewards: the block reward of \<open>consensus/pvbft/blockreward.go\<close>, the fee pool of \<open>state/fee_pool.go\<close>,
  the reward lock of \<open>state/reward_lock.go\<close>, the distribution of fees and the change of the validator
  set at the end of an epoch (\<open>consensus/pvbft/pos.go\<close>, \<open>validator.go\<close>).

  The fields of \<open>BlockReward\<close> share big integers and \<open>settlementReward\<close> changes one of them in place,
  so the integers live in an explicit heap and the fields are addresses in it. The key-value database
  is the two numbers that are read back; what \<open>getRewardList\<close> reads is never used, because the list
  is not nil.
\<close>

section \<open>Block rewards\<close>

definition WEI :: int where "WEI = 10 ^ 18"
definition OneYearEpoch :: int where "OneYearEpoch = 438000"
definition RewardTotal :: int where "RewardTotal = 660000000"

record BlockReward =
  br_heap :: "int list"
  br_reward :: int
  epochTotal :: nat
  remaining :: nat
  rewardList :: "nat list"
  db_reward :: int
  db_remaining :: int

definition deref :: "BlockReward \<Rightarrow> nat \<Rightarrow> int" where
  "deref br p = br_heap br ! p"

definition alloc :: "int \<Rightarrow> BlockReward \<Rightarrow> nat \<times> BlockReward" where
  "alloc v br = (length (br_heap br), br\<lparr>br_heap := br_heap br @ [v]\<rparr>)"

fun halvings :: "nat \<Rightarrow> int \<Rightarrow> int list" where
  "halvings 0 tot = [tot]"
| "halvings (Suc n) tot = (let tot = tot - tot div 2 in tot # halvings n tot)"

fun alloc_rewards :: "int list \<Rightarrow> BlockReward \<Rightarrow> BlockReward" where
  "alloc_rewards [] br = br"
| "alloc_rewards (v # vs) br =
     (let (p, br) = alloc (v * WEI) br
      in alloc_rewards vs (br\<lparr>rewardList := rewardList br @ [p]\<rparr>))"

definition initReward :: "BlockReward \<Rightarrow> BlockReward" where
  "initReward br = alloc_rewards (halvings 9 RewardTotal) br"

text \<open>\<open>dbReward\<close> and \<open>dbRemaining\<close> are what the database holds when the node starts, zero if nothing.\<close>

definition newBlockReward :: "int \<Rightarrow> int \<Rightarrow> BlockReward" where
  "newBlockReward dbReward dbRemaining =
     initReward \<lparr>br_heap = [0, 0], br_reward = 0, epochTotal = 0, remaining = 1, rewardList = [],
                 db_reward = dbReward, db_remaining = dbRemaining\<rparr>"

fun find_period :: "u64 \<Rightarrow> nat \<Rightarrow> nat list \<Rightarrow> nat option" where
  "find_period currentEpoch k [] = None"
| "find_period currentEpoch k (p # ps) =
     (if currentEpoch \<le> word_of_int ((int k + 1) * 2 * OneYearEpoch) then Some p
      else find_period currentEpoch (k + 1) ps)"

text \<open>\<open>None\<close>: division by zero.\<close>

definition calcEpochTotal :: "u64 \<Rightarrow> u64 \<Rightarrow> BlockReward \<Rightarrow> BlockReward option" where
  "calcEpochTotal blockTime currentEpoch br =
     (let br = (case find_period currentEpoch 0 (rewardList br) of
                  Some p \<Rightarrow> br\<lparr>epochTotal := p\<rparr> | None \<Rightarrow> br);
          br = br\<lparr>remaining := epochTotal br\<rparr>
      in if blockTime div 1000000000 = 0 then None
         else let outBlock = (86400 * 365 * 2) div (blockTime div 1000000000);
                  noWeiTotal = deref br (epochTotal br) div WEI
              in if outBlock = 0 then None
                 else let reward = noWeiTotal div uint outBlock * WEI
                      in Some (br\<lparr>br_reward := reward, db_reward := \<bar>reward\<bar>,
                                  db_remaining := \<bar>deref br (remaining br)\<bar>\<rparr>))"

definition getReward_db :: "BlockReward \<Rightarrow> int" where
  "getReward_db br = db_reward br"

definition getRemaining :: "BlockReward \<Rightarrow> int" where
  "getRemaining br = db_remaining br"

definition GetReward :: "u64 \<Rightarrow> u64 \<Rightarrow> BlockReward \<Rightarrow> (int \<times> BlockReward) option" where
  "GetReward blockTime currentEpoch br = do {
     br \<leftarrow> (if getRemaining br < br_reward br then calcEpochTotal blockTime currentEpoch br else Some br);
     br \<leftarrow> (if br_reward br = 0
           then let reward = getReward_db br
                in if reward > 0 then Some (br\<lparr>br_reward := reward\<rparr>)
                   else calcEpochTotal blockTime currentEpoch br
           else Some br);
     Some (br_reward br, br)
   }"

definition settlementReward :: "BlockReward \<Rightarrow> BlockReward" where
  "settlementReward br =
     (let br = (if deref br (remaining br) = 0
                then let (p, br) = alloc (getRemaining br) br in br\<lparr>remaining := p\<rparr>
                else br);
          v = deref br (remaining br) - br_reward br;
          br = br\<lparr>br_heap := (br_heap br)[remaining br := v]\<rparr>
      in br\<lparr>db_remaining := \<bar>v\<bar>\<rparr>)"

definition rewardTx :: "'v rlp_api \<Rightarrow> ('prv, 'pub) curve \<Rightarrow> u64 \<Rightarrow> 'prv \<Rightarrow> address \<Rightarrow> address \<Rightarrow> u64 \<Rightarrow> int
    \<Rightarrow> transaction option" where
  "rewardTx a c chainID prv miner rewardPool nonce amount =
     (let dat = fst (hex_DecodeHex FixedRewardMethod);
          tx = \<lparr>txNonce = nonce, txGasPrice = 0, txGas = 21000, txTo = Some rewardPool, txValue = amount,
                txInput = dat, txV = None, txR = None, txS = None, txHash = 0, txFrom = miner\<rparr>
      in EIP155_SignTx a c chainID tx prv)"

section \<open>The fee pool\<close>

record ValidatorFee =
  taximeter :: int
  feePool :: "address \<rightharpoonup> int"

definition NewValidatorFee :: ValidatorFee where
  "NewValidatorFee = \<lparr>taximeter = 0, feePool = Map.empty\<rparr>"

definition SetValidatorFee :: "address \<Rightarrow> int \<Rightarrow> ValidatorFee \<Rightarrow> ValidatorFee" where
  "SetValidatorFee validator amount v =
     (let temp = (case feePool v validator of None \<Rightarrow> 0 | Some t \<Rightarrow> t)
      in v\<lparr>feePool := (feePool v)(validator \<mapsto> temp + amount), taximeter := taximeter v + amount\<rparr>)"

definition IsHaveReward :: "address \<Rightarrow> ValidatorFee \<Rightarrow> bool" where
  "IsHaveReward validator v = (case feePool v validator of None \<Rightarrow> False | Some t \<Rightarrow> t > 0)"

definition SubTaximeter :: "int \<Rightarrow> ValidatorFee \<Rightarrow> ValidatorFee" where
  "SubTaximeter amount v = v\<lparr>taximeter := taximeter v - amount\<rparr>"

definition GetTaximeter :: "ValidatorFee \<Rightarrow> int" where
  "GetTaximeter v = taximeter v"

definition GetFeeReward :: "address \<Rightarrow> ValidatorFee \<Rightarrow> int option" where
  "GetFeeReward validator v = feePool v validator"

section \<open>The reward lock\<close>

record RewardLock =
  fixedLock :: "u64 \<rightharpoonup> int"
  rewardHash :: "u64 \<rightharpoonup> hash"

definition NewLock :: RewardLock where
  "NewLock = \<lparr>fixedLock = Map.empty, rewardHash = Map.empty\<rparr>"

definition SetHash :: "u64 \<Rightarrow> hash \<Rightarrow> RewardLock \<Rightarrow> RewardLock" where
  "SetHash block h r = r\<lparr>rewardHash := (rewardHash r)(block \<mapsto> h)\<rparr>"

definition lock_GetHash :: "u64 \<Rightarrow> RewardLock \<Rightarrow> hash" where
  "lock_GetHash block r = (case rewardHash r block of None \<Rightarrow> 0 | Some h \<Rightarrow> h)"

definition DelHash :: "u64 \<Rightarrow> RewardLock \<Rightarrow> RewardLock" where
  "DelHash block r = r\<lparr>rewardHash := (rewardHash r)(block := None)\<rparr>"

definition Tag :: "u64 \<Rightarrow> RewardLock \<Rightarrow> int" where
  "Tag block r = (case fixedLock r block of None \<Rightarrow> 0 | Some n \<Rightarrow> n)"

definition TagCount :: "u64 \<Rightarrow> RewardLock \<Rightarrow> RewardLock" where
  "TagCount block r = r\<lparr>fixedLock := (fixedLock r)(block \<mapsto> Tag block r + 1)\<rparr>"

definition CleanTag :: "u64 \<Rightarrow> RewardLock \<Rightarrow> RewardLock" where
  "CleanTag block r = r\<lparr>fixedLock := (fixedLock r)(block := None)\<rparr>"

section \<open>Distribution of fees\<close>

text \<open>
  The decimal library is a parameter; \<open>dDiv\<close> is \<open>None\<close> where it panics, on a zero divisor. The stake
  map is visited in the order of \<open>keys\<close>.
\<close>

record 'd decimal_api =
  dOfInt :: "int \<Rightarrow> 'd"
  dMul :: "'d \<Rightarrow> 'd \<Rightarrow> 'd"
  dDiv :: "'d \<Rightarrow> 'd \<Rightarrow> 'd option"
  dBigInt :: "'d \<Rightarrow> int"

fun stake_rates :: "'d decimal_api \<Rightarrow> int \<Rightarrow> (address \<rightharpoonup> int) \<Rightarrow> address list \<Rightarrow> (address \<times> 'd) list option" where
  "stake_rates d tot stakes [] = Some []"
| "stake_rates d tot stakes (account # keys) =
     (case stakes account of
        None \<Rightarrow> stake_rates d tot stakes keys
      | Some amount \<Rightarrow> do {
          rate \<leftarrow> dDiv d (dMul d (dOfInt d amount) (dOfInt d 100)) (dOfInt d tot);
          rest \<leftarrow> stake_rates d tot stakes keys;
          Some ((account, rate) # rest)
        })"

fun pay_rates :: "'d decimal_api \<Rightarrow> int \<Rightarrow> (address \<times> 'd) list \<Rightarrow> ValidatorFee \<Rightarrow> ValidatorFee option" where
  "pay_rates d tot [] vf = Some vf"
| "pay_rates d tot ((account, rate) # rest) vf = do {
     r \<leftarrow> dDiv d (dMul d (dOfInt d tot) rate) (dOfInt d 100);
     pay_rates d tot rest (SetValidatorFee account (dBigInt d r) vf)
   }"

definition DistributeRewardsByRate :: "'d decimal_api \<Rightarrow> address list \<Rightarrow> int \<Rightarrow> ValidatorSet \<Rightarrow> ValidatorFee
    \<Rightarrow> ValidatorFee option" where
  "DistributeRewardsByRate d keys tot v vf = do {
     indexList \<leftarrow> stake_rates d (stakeTotal v) (stakeList v) keys;
     pay_rates d tot indexList vf
   }"

text \<open>
  The chain and the executor as the epoch change uses them: headers by number, the validators of the
  staking contract at a header, a transaction on the state of a header and two queries on it.
\<close>

record 't chain_view =
  cv_GetHeaderByNumber :: "u64 \<Rightarrow> Header option"
  cv_NextValidators :: "Header \<Rightarrow> address list option"
  cv_BeginTxn :: "Header \<Rightarrow> 't option"
  cv_QueryAccountStake :: "address \<Rightarrow> 't \<Rightarrow> (int \<times> 't) option"
  cv_GetBalance :: "address \<Rightarrow> 't \<Rightarrow> int"

text \<open>What an epoch change writes.\<close>

record epoch_state =
  es_store :: snapshotStore
  es_vset :: ValidatorSet
  es_fee :: ValidatorFee

text \<open>The loop over the validators: the sum of the stakes, or an error that keeps what was recorded.\<close>

fun stake_loop :: "'t chain_view \<Rightarrow> address list \<Rightarrow> int \<Rightarrow> 't \<Rightarrow> ValidatorSet \<Rightarrow> (int \<times> 't) option \<times> ValidatorSet" where
  "stake_loop cv [] tot t v = (Some (tot, t), v)"
| "stake_loop cv (a # vals) tot t v =
     (case cv_QueryAccountStake cv a t of
        None \<Rightarrow> (None, v)
      | Some (amount, t) \<Rightarrow> stake_loop cv vals (tot + amount) t (AppendStakeList a amount v))"

definition FeePool :: address where
  "FeePool = StringToAddress ''0x89055606E4DD8F04C3014903C202AfF35691D2BA''"

text \<open>\<open>None\<close> is the panic of the division; the error of the other branches is dropped by the caller.\<close>

definition distributeFeeRewards :: "'d decimal_api \<Rightarrow> 't chain_view \<Rightarrow> address list \<Rightarrow> Header \<Rightarrow> address list
    \<Rightarrow> epoch_state \<Rightarrow> epoch_state option" where
  "distributeFeeRewards d cv keys header vals es =
     (case cv_BeginTxn cv header of
        None \<Rightarrow> Some es
      | Some t \<Rightarrow>
          (case stake_loop cv vals 0 t (es_vset es) of
             (None, v) \<Rightarrow> Some (es\<lparr>es_vset := v\<rparr>)
           | (Some (tot, t), v) \<Rightarrow>
               let es = es\<lparr>es_vset := SetStakeTotal tot v\<rparr>;
                   actualAmount = cv_GetBalance cv FeePool t - GetTaximeter (es_fee es)
               in if actualAmount > 0
                  then do {
                    vf \<leftarrow> DistributeRewardsByRate d keys actualAmount (es_vset es) (es_fee es);
                    Some (es\<lparr>es_fee := vf\<rparr>)
                  }
                  else Some es))"

section \<open>The end of an epoch\<close>

definition updateValidators :: "(Snapshot list \<Rightarrow> Snapshot list) \<Rightarrow> 'd decimal_api \<Rightarrow> 't chain_view \<Rightarrow> address list
    \<Rightarrow> u64 \<Rightarrow> epoch_state \<Rightarrow> (snap_error option \<times> epoch_state) option" where
  "updateValidators srt d cv keys block es =
     (case cv_GetHeaderByNumber cv block of
        None \<Rightarrow> Some (Some ErrHeaderNotFound, es)
      | Some header \<Rightarrow>
          (case cv_NextValidators cv header of
             None \<Rightarrow> Some (Some ErrNextValidators, es)
           | Some vals \<Rightarrow>
               (case store_find (Number header) (es_store es) of
                  None \<Rightarrow> Some (Some ErrSnapshotNotFound, es)
                | Some snap \<Rightarrow>
                    let s = es_store es;
                        s' = (if \<not> SetEqual vals snap
                              then let newSnap = (snap_Copy snap)\<lparr>snSet := vals, snNumber := Number header,
                                                  snHash := Hash_String (HHash header)\<rparr>
                                   in if snNumber snap \<noteq> Number header then store_add srt newSnap s
                                      else store_replace newSnap s
                              else s)
                    in do {
                      es \<leftarrow> distributeFeeRewards d cv keys header vals (es\<lparr>es_store := s'\<rparr>);
                      Some (None, es)
                    })))"

definition insertBlockHook :: "(Snapshot list \<Rightarrow> Snapshot list) \<Rightarrow> 'd decimal_api \<Rightarrow> 't chain_view \<Rightarrow> address list
    \<Rightarrow> u64 \<Rightarrow> u64 \<Rightarrow> epoch_state \<Rightarrow> (snap_error option \<times> epoch_state) option" where
  "insertBlockHook srt d cv keys epochSize headerNumber es =
     (if IsLastOfEpoch epochSize headerNumber then updateValidators srt d cv keys headerNumber es
      else Some (None, es))"

text \<open>A loop on \<open>uint64\<close> that does not end if \<open>to\<close> is the largest value: the outer \<open>None\<close>. The inner
  \<open>None\<close> is a panic.\<close>

partial_function (option) batchUpdateValidators :: "(Snapshot list \<Rightarrow> Snapshot list) \<Rightarrow> 'd decimal_api
    \<Rightarrow> 't chain_view \<Rightarrow> address list \<Rightarrow> u64 \<Rightarrow> u64 \<Rightarrow> u64 \<Rightarrow> epoch_state
    \<Rightarrow> (snap_error option \<times> epoch_state) option option" where
  "batchUpdateValidators srt d cv keys epochSize n to es =
     (if n \<le> to
      then if IsLastOfEpoch epochSize n
           then case updateValidators srt d cv keys n es of
                  None \<Rightarrow> Some None
                | Some (Some e, es') \<Rightarrow> Some (Some (Some e, es'))
                | Some (None, es') \<Rightarrow> batchUpdateValidators srt d cv keys epochSize (n + 1) to es'
           else batchUpdateValidators srt d cv keys epochSize (n + 1) to es
      else Some (Some (None, es)))"

text \<open>The hook of the sync state logs the error and returns nil.\<close>

definition syncStateHook :: "(Snapshot list \<Rightarrow> Snapshot list) \<Rightarrow> 'd decimal_api \<Rightarrow> 't chain_view \<Rightarrow> address list
    \<Rightarrow> u64 \<Rightarrow> u64 \<Rightarrow> u64 \<Rightarrow> epoch_state \<Rightarrow> epoch_state option option" where
  "syncStateHook srt d cv keys epochSize oldLatestNumber headerNumber es =
     (case batchUpdateValidators srt d cv keys epochSize (oldLatestNumber + 1) headerNumber es of
        None \<Rightarrow> None
      | Some r \<Rightarrow> Some (map_option snd r))"

section \<open>Block rewards stay within the quota\<close>

definition br_ok :: "BlockReward \<Rightarrow> bool" where
  "br_ok br \<longleftrightarrow>
     epochTotal br < length (br_heap br) \<and> remaining br < length (br_heap br) \<and>
     (\<forall>p\<in>set (rewardList br). p < length (br_heap br)) \<and> (\<forall>v\<in>set (br_heap br). 0 \<le> v) \<and>
     0 \<le> br_reward br \<and> 0 \<le> db_reward br \<and> 0 \<le> db_remaining br \<and>
     (deref br (remaining br) = 0 \<or> db_remaining br = deref br (remaining br))"

lemma find_period_in: "find_period e k ps = Some p \<Longrightarrow> p \<in> set ps"
  by (induction ps arbitrary: k) (auto split: if_splits)

lemma reward_le:
  fixes E :: int
  assumes "0 \<le> E" "0 < n"
  shows "E div WEI div n * WEI \<le> E" "0 \<le> E div WEI div n * WEI"
proof -
  have W: "0 < WEI" by (simp add: WEI_def)
  have 0: "0 \<le> E div WEI" using assms(1) W by (simp add: pos_imp_zdiv_nonneg_iff)
  then have "E div WEI div n \<le> E div WEI" using assms(2) by (metis div_by_1 int_one_le_iff_zero_less zdiv_mono2 zero_less_one)
  then have "E div WEI div n * WEI \<le> E div WEI * WEI" using W by (intro mult_right_mono) simp_all
  also have "\<dots> \<le> E" using W by (simp add: minus_mod_eq_div_mult [symmetric])
  finally show "E div WEI div n * WEI \<le> E" .
  show "0 \<le> E div WEI div n * WEI" using 0 assms(2) W by (simp add: pos_imp_zdiv_nonneg_iff)
qed

lemma calcEpochTotal_ok:
  assumes "br_ok br" "calcEpochTotal blockTime e br = Some br'"
  shows "br_ok br' \<and> br_reward br' \<le> db_remaining br' \<and> br_reward br' = db_reward br' \<and> br_heap br' = br_heap br"
proof -
  obtain p n where p: "p < length (br_heap br)" "0 < uint (n :: u64)"
    and br': "br' = br\<lparr>epochTotal := p, remaining := p, br_reward := br_heap br ! p div WEI div uint n * WEI,
      db_reward := \<bar>br_heap br ! p div WEI div uint n * WEI\<bar>, db_remaining := \<bar>br_heap br ! p\<bar>\<rparr>"
  proof -
    let ?n = "(86400 * 365 * 2) div (blockTime div 1000000000)"
    let ?p = "case find_period e 0 (rewardList br) of Some p \<Rightarrow> p | None \<Rightarrow> epochTotal br"
    have "?n \<noteq> 0" using assms(2) by (auto simp: calcEpochTotal_def Let_def split: if_splits)
    then have "0 < uint ?n" by (simp add: word_neq_0_conv word_less_def)
    moreover have "?p < length (br_heap br)"
      using assms(1) find_period_in [of e 0 "rewardList br"] by (auto simp: br_ok_def split: option.split)
    moreover have "br' = br\<lparr>epochTotal := ?p, remaining := ?p, br_reward := br_heap br ! ?p div WEI div uint ?n * WEI,
        db_reward := \<bar>br_heap br ! ?p div WEI div uint ?n * WEI\<bar>, db_remaining := \<bar>br_heap br ! ?p\<bar>\<rparr>"
      using assms(2)
      by (cases "find_period e 0 (rewardList br)") (auto simp: calcEpochTotal_def Let_def deref_def split: if_splits)
    ultimately show ?thesis using that [of ?p ?n] by blast
  qed
  have "0 \<le> br_heap br ! p" using assms(1) p(1) by (simp add: br_ok_def)
  then show ?thesis
    using assms(1) p(1) reward_le [OF _ p(2), of "br_heap br ! p"]
    by (auto simp: br' br_ok_def deref_def)
qed

lemma GetReward_ok:
  assumes "br_ok br" "br_reward br \<noteq> 0 \<or> db_reward br \<le> db_remaining br" "GetReward blockTime e br = Some (r, br')"
  shows "br_ok br' \<and> br_reward br' = r \<and> r \<le> db_remaining br'"
proof -
  obtain br1 where br1: "(if getRemaining br < br_reward br then calcEpochTotal blockTime e br else Some br) = Some br1"
    "(if br_reward br1 = 0 then if getReward_db br1 > 0 then Some (br1\<lparr>br_reward := getReward_db br1\<rparr>)
      else calcEpochTotal blockTime e br1 else Some br1) = Some br'" "br_reward br' = r"
    using assms(3) unfolding GetReward_def Let_def by (auto simp: bind_eq_Some_conv)
  have 1: "br_ok br1 \<and> br_reward br1 \<le> db_remaining br1 \<and> (br_reward br1 \<noteq> 0 \<or> db_reward br1 \<le> db_remaining br1)"
  proof (cases "getRemaining br < br_reward br")
    case True
    then have "calcEpochTotal blockTime e br = Some br1" using br1(1) by simp
    from calcEpochTotal_ok [OF assms(1) this] show ?thesis by (auto simp: br_ok_def)
  next
    case False
    then show ?thesis using br1(1) assms(1,2) by (simp add: getRemaining_def)
  qed
  show ?thesis
  proof (cases "br_reward br1 = 0")
    case True
    show ?thesis
    proof (cases "getReward_db br1 > 0")
      case t: True
      then have "br' = br1\<lparr>br_reward := db_reward br1\<rparr>" using br1(2) True by (simp add: getReward_db_def)
      then show ?thesis using 1 True br1(3) by (auto simp: br_ok_def deref_def)
    next
      case False
      then have "calcEpochTotal blockTime e br1 = Some br'" using br1(2) True by simp
      with calcEpochTotal_ok [of br1] 1 br1(3) show ?thesis by blast
    qed
  next
    case False
    then show ?thesis using br1(2,3) 1 by simp
  qed
qed

lemma settlementReward_ok:
  assumes "br_ok br" "br_reward br \<le> db_remaining br"
  shows "br_ok (settlementReward br) \<and> db_remaining (settlementReward br) = db_remaining br - br_reward br \<and>
    deref (settlementReward br) (remaining (settlementReward br)) = db_remaining br - br_reward br"
proof (cases "deref br (remaining br) = 0")
  case True
  then have "settlementReward br = br\<lparr>remaining := length (br_heap br),
      br_heap := br_heap br @ [db_remaining br - br_reward br], db_remaining := \<bar>db_remaining br - br_reward br\<bar>\<rparr>"
    by (simp add: settlementReward_def alloc_def deref_def getRemaining_def Let_def)
  then show ?thesis using assms by (auto simp: br_ok_def deref_def)
next
  case False
  then have "db_remaining br = br_heap br ! remaining br" using assms(1) by (simp add: br_ok_def deref_def)
  moreover from False have "settlementReward br = br\<lparr>br_heap := (br_heap br)[remaining br := br_heap br ! remaining br - br_reward br],
      db_remaining := \<bar>br_heap br ! remaining br - br_reward br\<bar>\<rparr>"
    by (simp add: settlementReward_def deref_def Let_def)
  ultimately show ?thesis using assms by (auto simp: br_ok_def deref_def dest!: set_update_subset_insert [THEN subsetD])
qed


lemma alloc_rewards_eq:
  "alloc_rewards vs br = br\<lparr>br_heap := br_heap br @ map (\<lambda>v. v * WEI) vs,
     rewardList := rewardList br @ [length (br_heap br)..<length (br_heap br) + length vs]\<rparr>"
  by (induction vs arbitrary: br) (simp_all add: alloc_def upt_conv_Cons del: upt_Suc)

lemma halvings_total:
  "halvings 9 RewardTotal = [330000000, 165000000, 82500000, 41250000, 20625000, 10312500, 5156250, 2578125,
     1289063, 1289063]"
  by code_simp

lemma newBlockReward_heap:
  "newBlockReward x y = \<lparr>br_heap = 0 # 0 # map (\<lambda>v. v * WEI) (halvings 9 RewardTotal), br_reward = 0,
     epochTotal = 0, remaining = 1, rewardList = [2..<12], db_reward = x, db_remaining = y\<rparr>"
  by (simp add: newBlockReward_def initReward_def alloc_rewards_eq halvings_total)

lemma newBlockReward_ok: "0 \<le> x \<Longrightarrow> 0 \<le> y \<Longrightarrow> br_ok (newBlockReward x y)"
  by (simp add: br_ok_def deref_def newBlockReward_heap halvings_total WEI_def)


text \<open>The quotas add up to one unit more than the total. After a restart with less left than one reward,
  the reward is overdrawn and the sign of the remainder is lost.\<close>

lemma quotas_exceed_total: "sum_list (halvings 9 RewardTotal) = RewardTotal + 1"
  by code_simp

lemma reward_overdrawn_after_restart:
  "\<exists>br'. GetReward 2000000000 1 (newBlockReward 100 30) = Some (100, br') \<and>
     deref (settlementReward br') (remaining (settlementReward br')) = - 70 \<and>
     db_remaining (settlementReward br') = 70"
  by (simp add: GetReward_def newBlockReward_heap getRemaining_def getReward_db_def settlementReward_def
      deref_def alloc_def Let_def nth_append)

section \<open>Fees\<close>

definition fee_of :: "ValidatorFee \<Rightarrow> address \<Rightarrow> int" where
  "fee_of vf a = (case feePool vf a of None \<Rightarrow> 0 | Some t \<Rightarrow> t)"

lemma SetValidatorFee_balance:
  assumes "finite S" "a \<in> S"
  shows "taximeter (SetValidatorFee a x vf) - (\<Sum>b\<in>S. fee_of (SetValidatorFee a x vf) b)
       = taximeter vf - (\<Sum>b\<in>S. fee_of vf b)"
proof -
  have "(\<Sum>b\<in>S. fee_of (SetValidatorFee a x vf) b) = (\<Sum>b\<in>S. fee_of vf b + (if b = a then x else 0))"
    by (rule sum.cong) (auto simp: SetValidatorFee_def fee_of_def Let_def split: option.split)
  then show ?thesis using assms by (simp add: sum.distrib SetValidatorFee_def Let_def)
qed

lemma pay_rates_balance:
  assumes "finite S"
  shows "pay_rates d tot rates vf = Some vf' \<Longrightarrow> fst ` set rates \<subseteq> S \<Longrightarrow>
    taximeter vf' - (\<Sum>b\<in>S. fee_of vf' b) = taximeter vf - (\<Sum>b\<in>S. fee_of vf b)"
  by (induction d tot rates vf rule: pay_rates.induct)
    (auto simp: bind_eq_Some_conv SetValidatorFee_balance [OF assms])

lemma stake_rates_keys:
  "stake_rates d tot stakes keys = Some rates \<Longrightarrow> fst ` set rates \<subseteq> set keys \<inter> dom stakes"
  by (induction keys arbitrary: rates) (fastforce simp: bind_eq_Some_conv split: option.splits)+

lemma pay_rates_other: "pay_rates d tot rates vf = Some vf' \<Longrightarrow> b \<notin> fst ` set rates \<Longrightarrow> fee_of vf' b = fee_of vf b"
  by (induction d tot rates vf rule: pay_rates.induct)
    (auto simp: bind_eq_Some_conv SetValidatorFee_def fee_of_def Let_def)

text \<open>C34. Distributing fees keeps the books: the taximeter grows by exactly what the accounts are credited
  together, so the difference between the two never changes, and an account without a recorded stake is
  not credited.\<close>

theorem DistributeRewardsByRate_balance:
  assumes "DistributeRewardsByRate d keys tot v vf = Some vf'" "finite S" "set keys \<subseteq> S"
  shows "taximeter vf' - (\<Sum>b\<in>S. fee_of vf' b) = taximeter vf - (\<Sum>b\<in>S. fee_of vf b) \<and>
    (stakeList v b = None \<longrightarrow> fee_of vf' b = fee_of vf b)"
proof -
  obtain rates where r: "stake_rates d (stakeTotal v) (stakeList v) keys = Some rates" "pay_rates d tot rates vf = Some vf'"
    using assms(1) by (auto simp: DistributeRewardsByRate_def bind_eq_Some_conv)
  have k: "fst ` set rates \<subseteq> set keys \<inter> dom (stakeList v)" by (rule stake_rates_keys [OF r(1)])
  then have "fst ` set rates \<subseteq> S" using assms(3) by blast
  moreover have "stakeList v b = None \<Longrightarrow> b \<notin> fst ` set rates" using k by auto
  ultimately show ?thesis using pay_rates_balance [OF assms(2) r(2)] pay_rates_other [OF r(2)] by blast
qed

text \<open>A concrete decimal: integers with truncating division.\<close>

definition int_decimal :: "int decimal_api" where
  "int_decimal = \<lparr>dOfInt = id, dMul = (*), dDiv = (\<lambda>a b. if b = 0 then None else Some (a div b)), dBigInt = id\<rparr>"

definition ex_stakes :: ValidatorSet where
  "ex_stakes = \<lparr>stakeTotal = 100, validators = [2, 3], randPools = [], stakeList = [2 \<mapsto> 25, 3 \<mapsto> 75]\<rparr>"

theorem DistributeRewardsByRate_balance_witness:
  "\<exists>vf'. DistributeRewardsByRate int_decimal [2, 3] 1000 ex_stakes NewValidatorFee = Some vf' \<and>
     taximeter vf' = 1000 \<and> (\<Sum>b\<in>{2, 3}. fee_of vf' b) = 1000 \<and> fee_of vf' 1 = 0"
proof -
  obtain vf' where vf': "DistributeRewardsByRate int_decimal [2, 3] 1000 ex_stakes NewValidatorFee = Some vf'"
    "taximeter vf' = 1000"
    by (simp add: DistributeRewardsByRate_def ex_stakes_def int_decimal_def SetValidatorFee_def NewValidatorFee_def)
  from DistributeRewardsByRate_balance [OF this(1), of "{2, 3}" 1] vf'(2) show ?thesis
    by (intro exI [of _ vf'] conjI vf') (simp_all add: ex_stakes_def NewValidatorFee_def fee_of_def)
qed

text \<open>The stake list keeps validators that left while the total counts only the current ones, so more
  than the collected fees can be credited.\<close>

lemma stale_stake_overpays:
  "map_option taximeter (DistributeRewardsByRate int_decimal [1, 2] 1000
     (SetStakeTotal 100 (AppendStakeList 2 100 (AppendStakeList 1 100 (ex_stakes\<lparr>stakeList := Map.empty\<rparr>))))
     NewValidatorFee) = Some 2000"
  by (simp add: DistributeRewardsByRate_def ex_stakes_def int_decimal_def SetValidatorFee_def NewValidatorFee_def
      SetStakeTotal_def AppendStakeList_def)

section \<open>The epoch change takes effect\<close>

lemma distributeFeeRewards_keeps:
  "distributeFeeRewards d cv keys header vals es = Some es' \<Longrightarrow> es_store es' = es_store es"
  by (auto simp: distributeFeeRewards_def Let_def bind_eq_Some_conv split: option.splits prod.splits if_splits)

lemma stake_loop_validators [simp]: "validators (snd (stake_loop cv vals tot t v)) = validators v"
  by (induction cv vals tot t v rule: stake_loop.induct) (auto simp: AppendStakeList_def split: option.split)

lemma distributeFeeRewards_validators:
  assumes "distributeFeeRewards d cv keys header vals es = Some es'"
  shows "validators (es_vset es') = validators (es_vset es)"
proof (cases "cv_BeginTxn cv header")
  case (Some t)
  have "validators (snd (stake_loop cv vals 0 t (es_vset es))) = validators (es_vset es)" by simp
  then show ?thesis using assms Some
    by (cases "stake_loop cv vals 0 t (es_vset es)")
      (auto simp: distributeFeeRewards_def Let_def bind_eq_Some_conv SetStakeTotal_def split: option.splits if_splits)
qed (use assms in \<open>simp add: distributeFeeRewards_def\<close>)

lemma in_force_lt:
  assumes "in_force num xs snap" "snNumber snap \<noteq> num" "t \<in> set xs" "snNumber t \<le> num"
  shows "snNumber t < num"
  proof -
  have "snNumber t \<le> snNumber snap" "snNumber snap \<le> num"
    using assms(1,3,4) unfolding in_force_def by (metis (full_types))+
  then show ?thesis using assms(2) by simp
qed

text \<open>C35. When the epoch change succeeds, the snapshot in force at the epoch's last block holds the validators
  that the staking contract returns, whether a snapshot of that height existed or not, and the snapshot
  list stays sorted. The validator list of the consensus state is not touched.\<close>

theorem epoch_change_in_force:
  assumes srt: "sorts srt" and sorted: "store_sorted (es_store es)"
    and hdr: "cv_GetHeaderByNumber cv block = Some header" and vals: "cv_NextValidators cv header = Some vals"
    and upd: "updateValidators srt d cv keys block es = Some (None, es')"
  shows "(\<exists>snap. store_find (Number header) (es_store es') = Some snap \<and> snSet snap = vals) \<and>
    store_sorted (es_store es') \<and> validators (es_vset es') = validators (es_vset es)"
proof -
  let ?s = "es_store es" and ?num = "Number header"
  obtain snap where snap: "store_find ?num ?s = Some snap"
    using upd hdr vals by (auto simp: updateValidators_def split: option.splits)
  then have ne: "snapList ?s \<noteq> []" by (auto simp: store_find_def)
  have inf: "in_force ?num (snapList ?s) snap" using store_find_spec [OF sorted ne, of ?num] snap by auto
  define new where "new = (snap_Copy snap)\<lparr>snSet := vals, snNumber := ?num, snHash := Hash_String (HHash header)\<rparr>"
  define s' where "s' = (if \<not> SetEqual vals snap then if snNumber snap \<noteq> ?num then store_add srt new ?s
      else store_replace new ?s else ?s)"
  have dist: "distributeFeeRewards d cv keys header vals (es\<lparr>es_store := s'\<rparr>) = Some es'"
    using upd hdr vals snap
    by (auto simp: updateValidators_def Let_def bind_eq_Some_conv s'_def new_def split: if_splits)
  have "es_store es' = s'" using distributeFeeRewards_keeps [OF dist] by simp
  moreover have "validators (es_vset es') = validators (es_vset es)"
    using distributeFeeRewards_validators [OF dist] by simp
  moreover have "store_sorted s' \<and> (\<exists>snap. store_find ?num s' = Some snap \<and> snSet snap = vals)"
  proof (cases "SetEqual vals snap")
    case True
    then show ?thesis using snap sorted by (auto simp: s'_def SetEqual_def)
  next
    case neq: False
    show ?thesis
    proof (cases "snNumber snap = ?num")
      case True
      have "store_find (snNumber new) (store_replace new ?s) = Some new"
        by (rule store_find_replace [OF sorted]) (use inf True in \<open>auto simp: new_def in_force_def\<close>)
      moreover have "store_sorted (store_replace new ?s)"
        using sorted by (simp add: store_sorted_def store_replace_def)
      ultimately show ?thesis using neq True by (auto simp: s'_def new_def)
    next
      case False
      have "store_find ?num (store_add srt new ?s) = Some new"
        by (rule store_find_add [OF srt]) (use in_force_lt [OF inf False] in \<open>auto simp: new_def\<close>)
      then show ?thesis using neq False store_add_sorted [OF srt] by (auto simp: s'_def new_def)
    qed
  qed
  ultimately show ?thesis by simp
qed

definition ex_view :: "unit chain_view" where
  "ex_view = \<lparr>cv_GetHeaderByNumber = (\<lambda>n. Some (ex_header\<lparr>Number := n\<rparr>)), cv_NextValidators = (\<lambda>_. Some [2, 3]),
     cv_BeginTxn = (\<lambda>_. Some ()), cv_QueryAccountStake = (\<lambda>a _. Some (10, ())), cv_GetBalance = (\<lambda>_ _. 100)\<rparr>"

definition ex_epoch :: epoch_state where
  "ex_epoch = \<lparr>es_store = \<lparr>lastNumber = 0, snapList = [ex_snap 0]\<rparr>, es_vset = ex_stakes, es_fee = NewValidatorFee\<rparr>"

theorem epoch_change_in_force_witness:
  "\<exists>es' snap. updateValidators (sort_key snNumber) int_decimal ex_view [2, 3] 20 ex_epoch = Some (None, es') \<and>
     store_find 20 (es_store es') = Some snap \<and> snSet snap = [2, 3]"
proof -
  obtain es' where u: "updateValidators (sort_key snNumber) int_decimal ex_view [2, 3] 20 ex_epoch = Some (None, es')"
    by (simp add: updateValidators_def ex_view_def ex_epoch_def Let_def store_find_def ex_snap_def SetEqual_def
        distributeFeeRewards_def DistributeRewardsByRate_def ex_stakes_def int_decimal_def SetStakeTotal_def
        AppendStakeList_def GetTaximeter_def NewValidatorFee_def)
  have h: "cv_GetHeaderByNumber ex_view 20 = Some (ex_header\<lparr>Number := 20\<rparr>)"
    "cv_NextValidators ex_view (ex_header\<lparr>Number := 20\<rparr>) = Some [2, 3]"
    by (simp_all add: ex_view_def)
  have "store_sorted (es_store ex_epoch)" by (simp add: ex_epoch_def store_sorted_def)
  from epoch_change_in_force [OF sorts_sort_key this h u] u show ?thesis by auto
qed



end
