(* ===== verification/EvmTypes.thy ===== *)
theory EvmTypes
  imports Crypto
begin

unbundle bit_operations_syntax

text \<open>
  The vocabulary of the virtual machine: the fork schedule of \<open>params/params.go\<close> and the contract,
  the result and the host interface of \<open>tievm/evm/evm.go\<close>. An \<open>int64\<close> is a \<open>64 word\<close> read by
  \<open>sint\<close>. The host is a record of operations over a state of type \<open>'h\<close>; the operations that may
  change it return the new state, \<open>Callx\<close> gives \<open>None\<close> if the called code panics.
\<close>

section \<open>Forks\<close>

type_synonym Fork = u64

record Forks =
  fHomestead :: "Fork option"
  fByzantium :: "Fork option"
  fConstantinople :: "Fork option"
  fPetersburg :: "Fork option"
  fIstanbul :: "Fork option"
  fEIP150 :: "Fork option"
  fEIP158 :: "Fork option"
  fEIP155 :: "Fork option"

record ForksInTime =
  Homestead :: bool
  Byzantium :: bool
  Constantinople :: bool
  Petersburg :: bool
  Istanbul :: bool
  EIP150 :: bool
  EIP158 :: bool
  EIP155 :: bool

definition NewFork :: "u64 \<Rightarrow> Fork option" where
  "NewFork n = Some n"

definition Fork_Active :: "Fork \<Rightarrow> u64 \<Rightarrow> bool" where
  "Fork_Active f block = (block \<ge> f)"

definition fork_active :: "Fork option \<Rightarrow> u64 \<Rightarrow> bool" where
  "fork_active ff block = (case ff of None \<Rightarrow> False | Some f \<Rightarrow> Fork_Active f block)"

definition Forks_At :: "Forks \<Rightarrow> u64 \<Rightarrow> ForksInTime" where
  "Forks_At f block =
     \<lparr>Homestead = fork_active (fHomestead f) block,
      Byzantium = fork_active (fByzantium f) block,
      Constantinople = fork_active (fConstantinople f) block,
      Petersburg = fork_active (fPetersburg f) block,
      Istanbul = fork_active (fIstanbul f) block,
      EIP150 = fork_active (fEIP150 f) block,
      EIP158 = fork_active (fEIP158 f) block,
      EIP155 = fork_active (fEIP155 f) block\<rparr>"

definition AllForksEnabled :: Forks where
  "AllForksEnabled =
     \<lparr>fHomestead = NewFork 0, fByzantium = NewFork 0, fConstantinople = NewFork 0, fPetersburg = NewFork 0,
      fIstanbul = NewFork 0, fEIP150 = NewFork 0, fEIP158 = NewFork 0, fEIP155 = NewFork 0\<rparr>"

section \<open>Contracts and results\<close>

datatype vm_error =
    ErrOutOfGas | ErrStackOverflow | ErrStackUnderflow | ErrNotEnoughFunds | ErrInsufficientBalance
  | ErrMaxCodeSizeExceeded | ErrContractAddressCollision | ErrDepth | ErrExecutionReverted
  | ErrCodeStoreOutOfGas
  | errGasUintOverflow | errWriteProtection | errInvalidJump | errOpCodeNotFound
  | errReturnDataOutOfBounds
  | errRuntimeNotFound | errPrecompiled
  | errRewardZero | errNotFeePool | errInsufficientReward | errInvalidTransaction

datatype CallType = Call | CallCode | DelegateCall | StaticCall | Create | Create2

datatype StorageStatus = StorageUnchanged | StorageModified | StorageModifiedAgain | StorageAdded | StorageDeleted

record TxContext =
  ctxGasPrice :: hash
  ctxOrigin :: address
  ctxCoinbase :: address
  ctxNumber :: u64
  ctxTimestamp :: u64
  ctxGasLimit :: u64
  ctxChainID :: u64
  ctxDifficulty :: hash

record Contract =
  cCode :: bytes
  cType :: CallType
  cCodeAddress :: address
  cAddress :: address
  cOrigin :: address
  cCaller :: address
  cDepth :: int
  cValue :: "int option"
  cInput :: bytes
  cGas :: u64
  cStatic :: bool

record ExecutionResult =
  rReturnValue :: bytes
  rGasLeft :: u64
  rGasUsed :: u64
  rErr :: "vm_error option"

definition Succeeded :: "ExecutionResult \<Rightarrow> bool" where "Succeeded r = (rErr r = None)"
definition Failed :: "ExecutionResult \<Rightarrow> bool" where "Failed r = (rErr r \<noteq> None)"
definition Reverted :: "ExecutionResult \<Rightarrow> bool" where "Reverted r = (rErr r = Some ErrExecutionReverted)"

definition UpdateGasUsed :: "u64 \<Rightarrow> u64 \<Rightarrow> ExecutionResult \<Rightarrow> ExecutionResult" where
  "UpdateGasUsed gasLimit refund r =
     (let used = gasLimit - rGasLeft r;
          maxRefund = used div 2;
          refund = (if refund > maxRefund then maxRefund else refund)
      in r\<lparr>rGasLeft := rGasLeft r + refund, rGasUsed := used - refund\<rparr>)"

definition NewContract :: "int \<Rightarrow> address \<Rightarrow> address \<Rightarrow> address \<Rightarrow> int option \<Rightarrow> u64 \<Rightarrow> bytes \<Rightarrow> Contract" where
  "NewContract depth origin from to val gas code =
     \<lparr>cCode = code, cType = Call, cCodeAddress = to, cAddress = to, cOrigin = origin, cCaller = from,
      cDepth = depth, cValue = val, cInput = [], cGas = gas, cStatic = False\<rparr>"

definition NewContractCreation :: "int \<Rightarrow> address \<Rightarrow> address \<Rightarrow> address \<Rightarrow> int option \<Rightarrow> u64 \<Rightarrow> bytes \<Rightarrow> Contract" where
  "NewContractCreation depth origin from to val gas code = NewContract depth origin from to val gas code"

definition NewContractCall :: "int \<Rightarrow> address \<Rightarrow> address \<Rightarrow> address \<Rightarrow> int option \<Rightarrow> u64 \<Rightarrow> bytes \<Rightarrow> bytes \<Rightarrow> Contract" where
  "NewContractCall depth origin from to val gas code input =
     (NewContract depth origin from to val gas code)\<lparr>cInput := input\<rparr>"

section \<open>The host\<close>

record 'h Host =
  AccountExists :: "address \<Rightarrow> 'h \<Rightarrow> bool"
  GetStorage :: "address \<Rightarrow> hash \<Rightarrow> 'h \<Rightarrow> hash"
  SetStorage :: "address \<Rightarrow> hash \<Rightarrow> hash \<Rightarrow> ForksInTime \<Rightarrow> 'h \<Rightarrow> StorageStatus \<times> 'h"
  GetBalance :: "address \<Rightarrow> 'h \<Rightarrow> int"
  GetCodeSize :: "address \<Rightarrow> 'h \<Rightarrow> nat \<times> 'h"
  GetCodeHash :: "address \<Rightarrow> 'h \<Rightarrow> hash"
  GetCode :: "address \<Rightarrow> 'h \<Rightarrow> bytes \<times> 'h"
  Selfdestruct :: "address \<Rightarrow> address \<Rightarrow> 'h \<Rightarrow> 'h"
  GetTxContext :: "'h \<Rightarrow> TxContext"
  GetBlockHash :: "u64 \<Rightarrow> 'h \<Rightarrow> hash"
  EmitLog :: "address \<Rightarrow> hash list \<Rightarrow> bytes \<Rightarrow> 'h \<Rightarrow> 'h"
  Callx :: "Contract \<Rightarrow> 'h \<Rightarrow> (ExecutionResult \<times> 'h) option"
  hEmpty :: "address \<Rightarrow> 'h \<Rightarrow> bool"
  GetNonce :: "address \<Rightarrow> 'h \<Rightarrow> u64"

section \<open>Gas accounting\<close>

text \<open>The gas limit is split into what is used and what is left, and the refund is at most half of what
  was used.\<close>

lemma UpdateGasUsed_split:
  assumes "rGasLeft r \<le> gasLimit"
  shows "rGasUsed (UpdateGasUsed gasLimit refund r) + rGasLeft (UpdateGasUsed gasLimit refund r) = gasLimit"
    "rGasLeft (UpdateGasUsed gasLimit refund r) \<le> gasLimit"
    "rGasLeft r \<le> rGasLeft (UpdateGasUsed gasLimit refund r)"
    "unat (rGasLeft (UpdateGasUsed gasLimit refund r)) + unat (rGasUsed (UpdateGasUsed gasLimit refund r)) = unat gasLimit"
proof -
  define used where "used = gasLimit - rGasLeft r"
  define rf where "rf = (if refund > used div 2 then used div 2 else refund)"
  have u: "unat used = unat gasLimit - unat (rGasLeft r)" using assms by (simp add: used_def u64_sub_unat)
  have le: "unat (rGasLeft r) \<le> unat gasLimit" using assms by (simp add: word_le_nat_alt)
  have "unat (used div 2) = unat used div 2" by (simp add: unat_div)
  then have rf: "unat rf \<le> unat used" by (auto simp: rf_def word_le_nat_alt not_less [symmetric] word_less_nat_alt)
  have r: "UpdateGasUsed gasLimit refund r = r\<lparr>rGasLeft := rGasLeft r + rf, rGasUsed := used - rf\<rparr>"
    by (simp add: UpdateGasUsed_def Let_def used_def rf_def)
  have "unat (rGasLeft r + rf) = unat (rGasLeft r) + unat rf"
    using le_less_trans [OF _ unat_u64_bound [of gasLimit], of "unat (rGasLeft r) + unat rf"] rf u le
    by (intro u64_add_unat) simp
  moreover have "unat (used - rf) = unat used - unat rf" using rf by (simp add: u64_sub_unat word_le_nat_alt)
  ultimately show "rGasUsed (UpdateGasUsed gasLimit refund r) + rGasLeft (UpdateGasUsed gasLimit refund r) = gasLimit"
    "rGasLeft (UpdateGasUsed gasLimit refund r) \<le> gasLimit"
    "rGasLeft r \<le> rGasLeft (UpdateGasUsed gasLimit refund r)"
    "unat (rGasLeft (UpdateGasUsed gasLimit refund r)) + unat (rGasUsed (UpdateGasUsed gasLimit refund r)) = unat gasLimit"
    using rf u le by (auto simp: r used_def word_le_nat_alt)
qed

end
