(* ===== verification/EvmState.thy ===== *)
theory EvmState
  imports EvmTypes
begin

text \<open>
  The machine state of \<open>tievm/evm/execute/state.go\<close> and the jump table of \<open>bitmap.go\<close>.

  The stack is the first \<open>sp\<close> slots of the Go slice, top first; a slot holds a big integer. The buffer
  \<open>tmp\<close> is a local of the instructions. Slicing of Go reads up to the capacity of a slice, so the
  memory carries its capacity, which \<open>append\<close> grows by the function \<open>grow\<close> of the Go runtime (old
  capacity and needed length to new capacity). The spare capacity is zero: \<open>reset\<close> clears the memory
  before it is shortened and \<open>append\<close> clears what it allocates.

  \<open>None\<close> as the result of an operation is a panic: a nil big integer, an index or a slice out of range.
\<close>

section \<open>Big integers\<close>

definition IsUint64 :: "int \<Rightarrow> bool" where "IsUint64 x = (0 \<le> x \<and> x < 2 ^ 64)"
definition IsInt64 :: "int \<Rightarrow> bool" where "IsInt64 x = (- (2 ^ 63) \<le> x \<and> x < 2 ^ 63)"
definition big_Int64 :: "int \<Rightarrow> u64" where "big_Int64 x = word_of_int x"

fun nat_bitlen :: "nat \<Rightarrow> nat" where
  "nat_bitlen n = (if n = 0 then 0 else Suc (nat_bitlen (n div 2)))"

declare nat_bitlen.simps [simp del]

definition BitLen :: "int \<Rightarrow> nat" where "BitLen x = nat_bitlen (nat \<bar>x\<bar>)"

text \<open>The Euclidean division of \<open>big.Int\<close>, for a divisor that is not zero.\<close>

definition big_Div :: "int \<Rightarrow> int \<Rightarrow> int" where
  "big_Div a b = (if b > 0 then a div b else - (a div (- b)))"

definition big_Mod :: "int \<Rightarrow> int \<Rightarrow> int" where
  "big_Mod a b = a mod \<bar>b\<bar>"

section \<open>The state\<close>

record 'h vm =
  vm_ip :: int
  vm_code :: bytes
  vm_host :: 'h
  vm_msg :: Contract
  vm_config :: ForksInTime
  vm_memory :: bytes
  vm_cap :: nat
  vm_lastGasCost :: u64
  vm_stack :: "int list"
  vm_err :: "vm_error option"
  vm_stop :: bool
  vm_gas :: u64
  vm_bitmap :: bytes
  vm_returnData :: bytes
  vm_ret :: bytes

definition stackSize :: nat where "stackSize = 1024"

definition halt :: "'h vm \<Rightarrow> 'h vm" where
  "halt c = c\<lparr>vm_stop := True\<rparr>"

definition exit :: "vm_error \<Rightarrow> 'h vm \<Rightarrow> 'h vm" where
  "exit err c = c\<lparr>vm_stop := True, vm_err := Some err\<rparr>"

definition push :: "int \<Rightarrow> 'h vm \<Rightarrow> 'h vm" where
  "push v c = c\<lparr>vm_stack := v # vm_stack c\<rparr>"

definition stackAtLeast :: "nat \<Rightarrow> 'h vm \<Rightarrow> bool" where
  "stackAtLeast n c = (length (vm_stack c) \<ge> n)"

definition vm_top :: "'h vm \<Rightarrow> int option" where
  "vm_top c = (case vm_stack c of [] \<Rightarrow> None | v # _ \<Rightarrow> Some v)"

definition pop :: "'h vm \<Rightarrow> int option \<times> 'h vm" where
  "pop c = (case vm_stack c of [] \<Rightarrow> (None, c) | v # vs \<Rightarrow> (Some v, c\<lparr>vm_stack := vs\<rparr>))"

text \<open>\<open>pop\<close> where the caller dereferences the result, and an assignment to the integer that \<open>top\<close> returns.\<close>

definition popv :: "'h vm \<Rightarrow> (int \<times> 'h vm) option" where
  "popv c = (case pop c of (None, _) \<Rightarrow> None | (Some v, c) \<Rightarrow> Some (v, c))"

definition set_top :: "int \<Rightarrow> 'h vm \<Rightarrow> 'h vm" where
  "set_top v c = c\<lparr>vm_stack := v # tl (vm_stack c)\<rparr>"

definition popHash :: "'h vm \<Rightarrow> (hash \<times> 'h vm) option" where
  "popHash c = do { (v, c) \<leftarrow> popv c; Some (BytesToHash (big_Bytes v), c) }"

definition popAddr :: "'h vm \<Rightarrow> address \<times> 'h vm" where
  "popAddr c = (case pop c of (None, c) \<Rightarrow> (0, c) | (Some v, c) \<Rightarrow> (BytesToAddress (big_Bytes v), c))"

definition peekAt :: "nat \<Rightarrow> 'h vm \<Rightarrow> int option" where
  "peekAt n c = (if 0 < n \<and> n \<le> length (vm_stack c) then Some (vm_stack c ! (n - 1)) else None)"

definition swap :: "nat \<Rightarrow> 'h vm \<Rightarrow> 'h vm option" where
  "swap n c = (let s = vm_stack c in
     if n < length s then Some (c\<lparr>vm_stack := s[0 := s ! n, n := s ! 0]\<rparr>) else None)"

definition consumeGas :: "u64 \<Rightarrow> 'h vm \<Rightarrow> bool \<times> 'h vm" where
  "consumeGas g c = (if vm_gas c < g then (False, exit ErrOutOfGas c) else (True, c\<lparr>vm_gas := vm_gas c - g\<rparr>))"

definition resetReturnData :: "'h vm \<Rightarrow> 'h vm" where
  "resetReturnData c = c\<lparr>vm_returnData := []\<rparr>"

definition inStaticCall :: "'h vm \<Rightarrow> bool" where
  "inStaticCall c = cStatic (vm_msg c)"

definition bigToHash :: "int \<Rightarrow> hash" where
  "bigToHash b = BytesToHash (big_Bytes b)"

definition vm_reset :: "'h vm \<Rightarrow> 'h vm" where
  "vm_reset c = c\<lparr>vm_stack := [], vm_ip := 0, vm_gas := 0, vm_lastGasCost := 0, vm_stop := False, vm_err := None,
     vm_bitmap := [], vm_ret := [], vm_code := [], vm_memory := []\<rparr>"

section \<open>Memory\<close>

definition extendByteSlice :: "(nat \<Rightarrow> nat \<Rightarrow> nat) \<Rightarrow> nat \<Rightarrow> bytes \<times> nat \<Rightarrow> bytes \<times> nat" where
  "extendByteSlice grow needLen = (\<lambda>(b, cap).
     let b = b @ replicate (cap - length b) 0
     in if needLen > cap then (b @ replicate (needLen - cap) 0, grow cap needLen)
        else (take needLen b, cap))"

definition checkMemory :: "(nat \<Rightarrow> nat \<Rightarrow> nat) \<Rightarrow> int \<Rightarrow> int \<Rightarrow> 'h vm \<Rightarrow> bool \<times> 'h vm" where
  "checkMemory grow offset sz c =
     (if sz = 0 then (True, c)
      else if \<not> IsUint64 offset \<or> \<not> IsUint64 sz then (False, exit errGasUintOverflow c)
      else let o' = big_Uint64 offset; s = big_Uint64 sz
           in if o' > 0xffffffffe0 \<or> s > 0xffffffffe0 then (False, exit errGasUintOverflow c)
              else let newSize = o' + s; m = of_nat (length (vm_memory c)) :: u64
                   in if m < newSize
                      then let w = (newSize + 31) div 32;
                               newCost = 3 * w + w * w div 512;
                               cost = newCost - vm_lastGasCost c;
                               (ok, c) = consumeGas cost (c\<lparr>vm_lastGasCost := newCost\<rparr>)
                           in if \<not> ok then (False, exit ErrOutOfGas c)
                              else let (b, cap) = extendByteSlice grow (unat (w * 32)) (vm_memory c, vm_cap c)
                                   in (True, c\<lparr>vm_memory := b, vm_cap := cap\<rparr>)
                      else (True, c))"

text \<open>\<open>get2\<close>: \<open>Inl\<close> if the memory is not available, else the bytes. The slice is inside the memory
  that \<open>checkMemory\<close> has made available.\<close>

definition get2 :: "(nat \<Rightarrow> nat \<Rightarrow> nat) \<Rightarrow> int \<Rightarrow> int \<Rightarrow> 'h vm \<Rightarrow> (bytes option \<times> 'h vm) option" where
  "get2 grow offset len c =
     (if len = 0 then Some (Some [], c)
      else let (ok, c) = checkMemory grow offset len c
           in if \<not> ok then Some (None, c)
              else let o' = big_Uint64 offset; l = big_Uint64 len
                   in if unat o' \<le> unat (o' + l) \<and> unat (o' + l) \<le> length (vm_memory c)
                      then Some (Some (take (unat l) (drop (unat o') (vm_memory c))), c)
                      else None)"

section \<open>Jump destinations\<close>

definition isPushOp :: "u8 \<Rightarrow> bool" where
  "isPushOp i = (drop_bit 5 i = 3)"

definition bitmap_isSet :: "nat \<Rightarrow> bytes \<Rightarrow> bool option" where
  "bitmap_isSet i buf = (if i div 8 < length buf then Some ((buf ! (i div 8)) AND push_bit (i mod 8) 1 \<noteq> 0) else None)"

definition bitmap_set :: "nat \<Rightarrow> bytes \<Rightarrow> bytes" where
  "bitmap_set i buf = buf[i div 8 := (buf ! (i div 8)) OR push_bit (i mod 8) 1]"

lemma isPushOp_range: "isPushOp c \<longleftrightarrow> 0x60 \<le> unat c \<and> unat c \<le> 0x7f"
proof -
  have "isPushOp c \<longleftrightarrow> unat (drop_bit 5 c) = unat (3 :: u8)" by (simp only: isPushOp_def word_unat_eq_iff)
  also have "\<dots> \<longleftrightarrow> unat c div 32 = 3" by (simp add: drop_bit_eq_div unat_div)
  also have "\<dots> \<longleftrightarrow> 0x60 \<le> unat c \<and> unat c \<le> 0x7f" by auto
  finally show ?thesis .
qed

lemma push_skip: "isPushOp c \<Longrightarrow> unat (c - 94) = unat c - 94"
  by (subst unat_sub) (simp_all add: isPushOp_range word_le_nat_alt)

function setCode_loop :: "bytes \<Rightarrow> nat \<Rightarrow> bytes \<Rightarrow> bytes" where
  "setCode_loop code i buf =
     (if i < length code
      then let c = code ! i
           in if isPushOp c then setCode_loop code (i + unat (c - 0x60 + 2)) buf
              else setCode_loop code (i + 1) (if c = 0x5B then bitmap_set i buf else buf)
      else buf)"
  by pat_completeness auto
termination
  by (relation "measure (\<lambda>(code, i, _). length code - i)") (auto simp: push_skip isPushOp_range)

declare setCode_loop.simps [simp del]

definition setCode :: "bytes \<Rightarrow> bytes" where
  "setCode code = setCode_loop code 0 (replicate (length code div 8 + 1) 0)"

definition validJumpdest :: "int \<Rightarrow> 'h vm \<Rightarrow> bool option" where
  "validJumpdest dest c =
     (let udest = big_Uint64 dest
      in if BitLen dest \<ge> 63 \<or> udest \<ge> of_nat (length (vm_code c)) then Some False
         else bitmap_isSet (unat udest) (vm_bitmap c))"

end
