(* ===== verification/EvmInstr.thy ===== *)
theory EvmInstr
  imports EvmState
begin

text \<open>
  The instructions of \<open>tievm/evm/execute/instructions.go\<close>, one definition each, as functions on the
  machine state; \<open>None\<close> is a panic. The environment holds the host, the RLP and hashing parameters
  that contract addresses need, and the growth of slices. \<open>with_gas\<close> and \<open>with_mem\<close> are the guards
  \<open>if !c.consumeGas(...) { return }\<close> and \<open>if !c.checkMemory(...) { return }\<close>.
\<close>

record ('h, 'v, 'prv, 'pub) env =
  eHost :: "'h Host"
  eRlp :: "'v rlp_api"
  eCurve :: "('prv, 'pub) curve"
  eGrow :: "nat \<Rightarrow> nat \<Rightarrow> nat"

definition with_gas :: "u64 \<Rightarrow> 'h vm \<Rightarrow> ('h vm \<Rightarrow> 'h vm option) \<Rightarrow> 'h vm option" where
  "with_gas g c k = (let (ok, c) = consumeGas g c in if ok then k c else Some c)"

definition with_mem :: "(nat \<Rightarrow> nat \<Rightarrow> nat) \<Rightarrow> int \<Rightarrow> int \<Rightarrow> 'h vm \<Rightarrow> ('h vm \<Rightarrow> 'h vm option) \<Rightarrow> 'h vm option" where
  "with_mem grow off sz c k = (let (ok, c) = checkMemory grow off sz c in if ok then k c else Some c)"

definition tt256 :: int where "tt256 = push_bit 256 1"
definition tt256m1 :: int where "tt256m1 = tt256 - 1"

definition toU256 :: "int \<Rightarrow> int" where
  "toU256 x = (if x < 0 \<or> BitLen x > 256 then x AND tt256m1 else x)"

definition to256 :: "int \<Rightarrow> int" where
  "to256 x = (if BitLen x > 255 then x - tt256 else x)"

section \<open>Arithmetic\<close>

definition opAdd :: "'h vm \<Rightarrow> 'h vm option" where
  "opAdd c = do { (a, c) \<leftarrow> popv c; b \<leftarrow> vm_top c; Some (set_top (toU256 (a + b)) c) }"

definition opMul :: "'h vm \<Rightarrow> 'h vm option" where
  "opMul c = do { (a, c) \<leftarrow> popv c; b \<leftarrow> vm_top c; Some (set_top (toU256 (a * b)) c) }"

definition opSub :: "'h vm \<Rightarrow> 'h vm option" where
  "opSub c = do { (a, c) \<leftarrow> popv c; b \<leftarrow> vm_top c; Some (set_top (toU256 (a - b)) c) }"

definition opDiv :: "'h vm \<Rightarrow> 'h vm option" where
  "opDiv c = do { (a, c) \<leftarrow> popv c; b \<leftarrow> vm_top c;
     Some (set_top (if b = 0 then 0 else toU256 (big_Div a b)) c) }"

definition opSDiv :: "'h vm \<Rightarrow> 'h vm option" where
  "opSDiv c = do { (a, c) \<leftarrow> popv c; b \<leftarrow> vm_top c;
     let a = to256 a; b = to256 b;
         v = (if b = 0 then 0
              else let neg = (sgn a \<noteq> sgn b); q = big_Div \<bar>a\<bar> \<bar>b\<bar>
                   in toU256 (if neg then - q else q))
     in Some (set_top v c) }"

definition opMod :: "'h vm \<Rightarrow> 'h vm option" where
  "opMod c = do { (a, c) \<leftarrow> popv c; b \<leftarrow> vm_top c;
     Some (set_top (if b = 0 then 0 else toU256 (big_Mod a b)) c) }"

definition opSMod :: "'h vm \<Rightarrow> 'h vm option" where
  "opSMod c = do { (a, c) \<leftarrow> popv c; b \<leftarrow> vm_top c;
     let a = to256 a; b = to256 b;
         v = (if b = 0 then 0
              else let neg = (a < 0); m = big_Mod \<bar>a\<bar> \<bar>b\<bar>
                   in toU256 (if neg then - m else m))
     in Some (set_top v c) }"

text \<open>\<open>Bits\<close> gives the 64-bit limbs of a number, least significant first.\<close>

fun nat_limbs :: "nat \<Rightarrow> u64 list" where
  "nat_limbs n = (if n = 0 then [] else word_of_nat n # nat_limbs (n div 2 ^ 64))"

declare nat_limbs.simps [simp del]

definition big_Bits :: "int \<Rightarrow> u64 list" where
  "big_Bits x = nat_limbs (nat \<bar>x\<bar>)"

fun exp_bits :: "nat \<Rightarrow> u64 \<Rightarrow> int \<Rightarrow> int \<Rightarrow> int \<times> int" where
  "exp_bits 0 d x z = (x, z)"
| "exp_bits (Suc n) d x z =
     exp_bits n (drop_bit 1 d) (toU256 (x * x)) (if d AND 1 = 1 then toU256 (z * x) else z)"

fun exp_words :: "u64 list \<Rightarrow> int \<Rightarrow> int \<Rightarrow> int" where
  "exp_words [] x z = z"
| "exp_words (d # ds) x z = (let (x, z) = exp_bits 64 d x z in exp_words ds x z)"

definition opExp :: "'h vm \<Rightarrow> 'h vm option" where
  "opExp c = do { (x, c) \<leftarrow> popv c; y \<leftarrow> vm_top c;
     let g = (if EIP158 (vm_config c) then 50 else 10)
     in with_gas (of_nat ((BitLen y + 7) div 8) * g) c (\<lambda>c. Some (set_top (exp_words (big_Bits y) x 1) c)) }"

definition opAddMod :: "'h vm \<Rightarrow> 'h vm option" where
  "opAddMod c = do { (a, c) \<leftarrow> popv c; (b, c) \<leftarrow> popv c; z \<leftarrow> vm_top c;
     Some (set_top (if z = 0 then 0 else toU256 (big_Mod (a + b) z)) c) }"

definition opMulMod :: "'h vm \<Rightarrow> 'h vm option" where
  "opMulMod c = do { (a, c) \<leftarrow> popv c; (b, c) \<leftarrow> popv c; z \<leftarrow> vm_top c;
     Some (set_top (if z = 0 then 0 else toU256 (big_Mod (a * b) z)) c) }"

definition opAnd :: "'h vm \<Rightarrow> 'h vm option" where
  "opAnd c = do { (a, c) \<leftarrow> popv c; b \<leftarrow> vm_top c; Some (set_top (a AND b) c) }"

definition opOr :: "'h vm \<Rightarrow> 'h vm option" where
  "opOr c = do { (a, c) \<leftarrow> popv c; b \<leftarrow> vm_top c; Some (set_top (a OR b) c) }"

definition opXor :: "'h vm \<Rightarrow> 'h vm option" where
  "opXor c = do { (a, c) \<leftarrow> popv c; b \<leftarrow> vm_top c; Some (set_top (a XOR b) c) }"

definition opByte :: "'h vm \<Rightarrow> 'h vm option" where
  "opByte c = do { (x, c) \<leftarrow> popv c; y \<leftarrow> vm_top c;
     let indx = big_Int64 x
     in Some (set_top (if sint indx > 31 then 0
                       else let sh = (31 - indx) * 8 in drop_bit (unat sh) y AND 255) c) }"

definition opNot :: "'h vm \<Rightarrow> 'h vm option" where
  "opNot c = do { a \<leftarrow> vm_top c; Some (set_top (toU256 (NOT a)) c) }"

definition opIsZero :: "'h vm \<Rightarrow> 'h vm option" where
  "opIsZero c = do { a \<leftarrow> vm_top c; Some (set_top (if a = 0 then 1 else 0) c) }"

definition opEq :: "'h vm \<Rightarrow> 'h vm option" where
  "opEq c = do { (a, c) \<leftarrow> popv c; b \<leftarrow> vm_top c; Some (set_top (if a = b then 1 else 0) c) }"

definition opLt :: "'h vm \<Rightarrow> 'h vm option" where
  "opLt c = do { (a, c) \<leftarrow> popv c; b \<leftarrow> vm_top c; Some (set_top (if a < b then 1 else 0) c) }"

definition opGt :: "'h vm \<Rightarrow> 'h vm option" where
  "opGt c = do { (a, c) \<leftarrow> popv c; b \<leftarrow> vm_top c; Some (set_top (if a > b then 1 else 0) c) }"

definition opSlt :: "'h vm \<Rightarrow> 'h vm option" where
  "opSlt c = do { (a, c) \<leftarrow> popv c; b \<leftarrow> vm_top c; Some (set_top (if to256 a < to256 b then 1 else 0) c) }"

definition opSgt :: "'h vm \<Rightarrow> 'h vm option" where
  "opSgt c = do { (a, c) \<leftarrow> popv c; b \<leftarrow> vm_top c; Some (set_top (if to256 a > to256 b then 1 else 0) c) }"

definition opSignExtension :: "'h vm \<Rightarrow> 'h vm option" where
  "opSignExtension c = do { (ext, c) \<leftarrow> popv c;
     if ext > 32 then Some c
     else case vm_top c of
            None \<Rightarrow> Some c
          | Some x \<Rightarrow>
              let n = unat (big_Uint64 ext * 8 + 7);
                  mask = push_bit n 1 - 1;
                  x = (if bit x n then x OR NOT mask else x AND mask)
              in Some (set_top (toU256 x) c) }"

definition equalOrOverflowsUint256 :: "int \<Rightarrow> bool" where
  "equalOrOverflowsUint256 b = (BitLen b > 8)"

definition opShl :: "'h vm \<Rightarrow> 'h vm option" where
  "opShl c =
     (if \<not> Constantinople (vm_config c) then Some (exit errOpCodeNotFound c)
      else do { (shift, c) \<leftarrow> popv c; val \<leftarrow> vm_top c;
        Some (set_top (if equalOrOverflowsUint256 shift then 0
                       else toU256 (push_bit (unat (big_Uint64 shift)) val)) c) })"

definition opShr :: "'h vm \<Rightarrow> 'h vm option" where
  "opShr c =
     (if \<not> Constantinople (vm_config c) then Some (exit errOpCodeNotFound c)
      else do { (shift, c) \<leftarrow> popv c; val \<leftarrow> vm_top c;
        Some (set_top (if equalOrOverflowsUint256 shift then 0
                       else toU256 (drop_bit (unat (big_Uint64 shift)) val)) c) })"

definition opSar :: "'h vm \<Rightarrow> 'h vm option" where
  "opSar c =
     (if \<not> Constantinople (vm_config c) then Some (exit errOpCodeNotFound c)
      else do { (shift, c) \<leftarrow> popv c; val \<leftarrow> vm_top c;
        let val = to256 val
        in Some (set_top (if equalOrOverflowsUint256 shift then if val \<ge> 0 then 0 else tt256m1
                          else toU256 (drop_bit (unat (big_Uint64 shift)) val)) c) })"

section \<open>Memory\<close>

definition opMload :: "('h, 'v, 'prv, 'pub) env \<Rightarrow> 'h vm \<Rightarrow> 'h vm option" where
  "opMload E c = do { (offset, c) \<leftarrow> popv c;
     (tmp, c) \<leftarrow> get2 (eGrow E) offset 32 c;
     case tmp of None \<Rightarrow> Some c | Some b \<Rightarrow> Some (push (SetBytes b) c) }"

text \<open>The loops of \<open>opMStore\<close>: the bytes of the limbs are written from the end of the buffer; index
  \<open>-1\<close> is out of range.\<close>

fun mstore_bytes :: "nat \<Rightarrow> u64 \<Rightarrow> nat \<times> bytes \<Rightarrow> (nat \<times> bytes) option" where
  "mstore_bytes 0 d r = Some r"
| "mstore_bytes (Suc n) d (i, buf) =
     (if i = 0 then None else mstore_bytes n (drop_bit 8 d) (i - 1, buf[i - 1 := ucast d]))"

fun mstore_words :: "u64 list \<Rightarrow> nat \<times> bytes \<Rightarrow> (nat \<times> bytes) option" where
  "mstore_words [] r = Some r"
| "mstore_words (d # ds) r = do { r \<leftarrow> mstore_bytes 8 d r; mstore_words ds r }"

definition opMStore :: "('h, 'v, 'prv, 'pub) env \<Rightarrow> 'h vm \<Rightarrow> 'h vm option" where
  "opMStore E c = do { (offset, c) \<leftarrow> popv c; (val, c) \<leftarrow> popv c;
     with_mem (eGrow E) offset 32 c (\<lambda>c.
       let p = unat (big_Uint64 offset); mem = vm_memory c
       in if p + 32 \<le> length mem
          then do {
            (i, buf) \<leftarrow> mstore_words (big_Bits val) (32, take 32 (drop p mem));
            Some (c\<lparr>vm_memory := take p mem @ replicate i 0 @ drop i buf @ drop (p + 32) mem\<rparr>)
          }
          else None) }"

definition opMStore8 :: "('h, 'v, 'prv, 'pub) env \<Rightarrow> 'h vm \<Rightarrow> 'h vm option" where
  "opMStore8 E c = do { (offset, c) \<leftarrow> popv c; (val, c) \<leftarrow> popv c;
     with_mem (eGrow E) offset 1 c (\<lambda>c.
       let p = unat (big_Uint64 offset)
       in if p < length (vm_memory c)
          then Some (c\<lparr>vm_memory := (vm_memory c)[p := ucast (big_Uint64 val AND 0xff)]\<rparr>)
          else None) }"

section \<open>Storage\<close>

definition opSload :: "('h, 'v, 'prv, 'pub) env \<Rightarrow> 'h vm \<Rightarrow> 'h vm option" where
  "opSload E c = do { loc \<leftarrow> vm_top c;
     let g = (if Istanbul (vm_config c) then 800 else if EIP150 (vm_config c) then 200 else 50)
     in with_gas g c (\<lambda>c.
       Some (set_top (SetBytes (Hash_Bytes (GetStorage (eHost E) (cAddress (vm_msg c)) (bigToHash loc) (vm_host c)))) c)) }"

definition opSStore :: "('h, 'v, 'prv, 'pub) env \<Rightarrow> 'h vm \<Rightarrow> 'h vm option" where
  "opSStore E c =
     (if inStaticCall c then Some (exit errWriteProtection c)
      else if Istanbul (vm_config c) \<and> vm_gas c \<le> 2300 then Some (exit ErrOutOfGas c)
      else do {
        (key, c) \<leftarrow> popHash c;
        (val, c) \<leftarrow> popHash c;
        let cfg = vm_config c;
            legacyGasMetering = (\<not> Istanbul cfg \<and> (Petersburg cfg \<or> \<not> Constantinople cfg));
            (status, h) = SetStorage (eHost E) (cAddress (vm_msg c)) key val cfg (vm_host c);
            c = c\<lparr>vm_host := h\<rparr>;
            cost = (case status of
                      StorageUnchanged \<Rightarrow> if Istanbul cfg then 800 else if legacyGasMetering then 5000 else 200
                    | StorageModified \<Rightarrow> 5000
                    | StorageModifiedAgain \<Rightarrow> if Istanbul cfg then 800 else if legacyGasMetering then 5000 else 200
                    | StorageAdded \<Rightarrow> 20000
                    | StorageDeleted \<Rightarrow> 5000)
        in with_gas cost c Some
      })"

definition sha3WordGas :: u64 where "sha3WordGas = 6"

definition opSha3 :: "('h, 'v, 'prv, 'pub) env \<Rightarrow> 'h vm \<Rightarrow> 'h vm option" where
  "opSha3 E c = do { (offset, c) \<leftarrow> popv c; (len, c) \<leftarrow> popv c;
     (tmp, c) \<leftarrow> get2 (eGrow E) offset len c;
     case tmp of
       None \<Rightarrow> Some c
     | Some b \<Rightarrow>
         with_gas ((big_Uint64 len + 31) div 32 * sha3WordGas) c
           (\<lambda>c. Some (push (SetBytes (keccak (eCurve E) b)) c)) }"

definition opPop :: "'h vm \<Rightarrow> 'h vm option" where
  "opPop c = Some (snd (pop c))"

section \<open>Context\<close>

definition opAddress :: "'h vm \<Rightarrow> 'h vm option" where
  "opAddress c = Some (push (SetBytes (Address_Bytes (cAddress (vm_msg c)))) c)"

definition opBalance :: "('h, 'v, 'prv, 'pub) env \<Rightarrow> 'h vm \<Rightarrow> 'h vm option" where
  "opBalance E c =
     (let (addr, c) = popAddr c;
          g = (if Istanbul (vm_config c) then 700 else if EIP150 (vm_config c) then 400 else 20)
      in with_gas g c (\<lambda>c. Some (push (GetBalance (eHost E) addr (vm_host c)) c)))"

definition opSelfBalance :: "('h, 'v, 'prv, 'pub) env \<Rightarrow> 'h vm \<Rightarrow> 'h vm option" where
  "opSelfBalance E c =
     (if \<not> Istanbul (vm_config c) then Some (exit errOpCodeNotFound c)
      else Some (push (GetBalance (eHost E) (cAddress (vm_msg c)) (vm_host c)) c))"

definition opChainID :: "('h, 'v, 'prv, 'pub) env \<Rightarrow> 'h vm \<Rightarrow> 'h vm option" where
  "opChainID E c =
     (if \<not> Istanbul (vm_config c) then Some (exit errOpCodeNotFound c)
      else Some (push (uint (ctxChainID (GetTxContext (eHost E) (vm_host c)))) c))"

definition opOrigin :: "('h, 'v, 'prv, 'pub) env \<Rightarrow> 'h vm \<Rightarrow> 'h vm option" where
  "opOrigin E c = Some (push (SetBytes (Address_Bytes (ctxOrigin (GetTxContext (eHost E) (vm_host c))))) c)"

definition opCaller :: "'h vm \<Rightarrow> 'h vm option" where
  "opCaller c = Some (push (SetBytes (Address_Bytes (cCaller (vm_msg c)))) c)"

definition opCallValue :: "'h vm \<Rightarrow> 'h vm option" where
  "opCallValue c = Some (push (case cValue (vm_msg c) of Some v \<Rightarrow> v | None \<Rightarrow> 0) c)"

definition min_u64 :: "u64 \<Rightarrow> u64 \<Rightarrow> u64" where
  "min_u64 i j = (if i < j then i else j)"

text \<open>The built-in \<open>copy\<close>.\<close>

definition go_copy :: "bytes \<Rightarrow> bytes \<Rightarrow> bytes" where
  "go_copy dst src = take (length dst) src @ drop (length src) dst"

definition setBytes :: "bytes \<Rightarrow> bytes \<Rightarrow> u64 \<Rightarrow> int \<Rightarrow> bytes option" where
  "setBytes dst input sz dataOffset =
     (if \<not> IsUint64 dataOffset
      then if unat sz \<le> length dst then Some (replicate (unat sz) 0 @ drop (unat sz) dst) else None
      else let inputSize = of_nat (length input);
               beg = min_u64 (big_Uint64 dataOffset) inputSize;
               copySize = min_u64 sz (inputSize - beg);
               dst = (if copySize > 0 then go_copy dst (take (unat copySize) (drop (unat beg) input)) else dst)
           in if sz - copySize > 0
              then if unat sz \<le> length dst
                   then Some (take (unat copySize) dst @ replicate (unat (sz - copySize)) 0 @ drop (unat sz) dst)
                   else None
              else Some dst)"

definition opCallDataLoad :: "'h vm \<Rightarrow> 'h vm option" where
  "opCallDataLoad c = do { offset \<leftarrow> vm_top c;
     buf \<leftarrow> setBytes (replicate 32 0) (cInput (vm_msg c)) 32 offset;
     Some (set_top (SetBytes buf) c) }"

definition opCallDataSize :: "'h vm \<Rightarrow> 'h vm option" where
  "opCallDataSize c = Some (push (int (length (cInput (vm_msg c)))) c)"

definition opCodeSize :: "'h vm \<Rightarrow> 'h vm option" where
  "opCodeSize c = Some (push (int (length (vm_code c))) c)"

definition opExtCodeSize :: "('h, 'v, 'prv, 'pub) env \<Rightarrow> 'h vm \<Rightarrow> 'h vm option" where
  "opExtCodeSize E c =
     (let (addr, c) = popAddr c;
          g = (if EIP150 (vm_config c) then 700 else 20)
      in with_gas g c (\<lambda>c. let (n, h) = GetCodeSize (eHost E) addr (vm_host c)
                            in Some (push (int n) (c\<lparr>vm_host := h\<rparr>))))"

definition opGasPrice :: "('h, 'v, 'prv, 'pub) env \<Rightarrow> 'h vm \<Rightarrow> 'h vm option" where
  "opGasPrice E c = Some (push (SetBytes (Hash_Bytes (ctxGasPrice (GetTxContext (eHost E) (vm_host c))))) c)"

definition opReturnDataSize :: "'h vm \<Rightarrow> 'h vm option" where
  "opReturnDataSize c =
     (if \<not> Byzantium (vm_config c) then Some (exit errOpCodeNotFound c)
      else Some (push (int (length (vm_returnData c))) c))"

definition opExtCodeHash :: "('h, 'v, 'prv, 'pub) env \<Rightarrow> 'h vm \<Rightarrow> 'h vm option" where
  "opExtCodeHash E c =
     (if \<not> Constantinople (vm_config c) then Some (exit errOpCodeNotFound c)
      else let (addr, c) = popAddr c;
               g = (if Istanbul (vm_config c) then 700 else 400)
           in with_gas g c (\<lambda>c.
                Some (push (if hEmpty (eHost E) addr (vm_host c) then 0
                            else SetBytes (Hash_Bytes (GetCodeHash (eHost E) addr (vm_host c)))) c)))"

definition opPC :: "'h vm \<Rightarrow> 'h vm option" where
  "opPC c = Some (push (vm_ip c) c)"

definition opMSize :: "'h vm \<Rightarrow> 'h vm option" where
  "opMSize c = Some (push (int (length (vm_memory c))) c)"

definition opGas :: "'h vm \<Rightarrow> 'h vm option" where
  "opGas c = Some (push (uint (vm_gas c)) c)"

definition copyGas :: u64 where "copyGas = 3"

text \<open>\<open>c.setBytes(c.memory[off:], ...)\<close>: slicing beyond the length panics.\<close>

definition memory_setBytes :: "u64 \<Rightarrow> bytes \<Rightarrow> u64 \<Rightarrow> int \<Rightarrow> 'h vm \<Rightarrow> 'h vm option" where
  "memory_setBytes off input sz dataOffset c =
     (let p = unat off; mem = vm_memory c
      in if p \<le> length mem
         then do { b \<leftarrow> setBytes (drop p mem) input sz dataOffset; Some (c\<lparr>vm_memory := take p mem @ b\<rparr>) }
         else None)"

definition opExtCodeCopy :: "('h, 'v, 'prv, 'pub) env \<Rightarrow> 'h vm \<Rightarrow> 'h vm option" where
  "opExtCodeCopy E c =
     (let (addr, c) = popAddr c in do {
        (memOffset, c) \<leftarrow> popv c; (codeOffset, c) \<leftarrow> popv c; (len, c) \<leftarrow> popv c;
        with_mem (eGrow E) memOffset len c (\<lambda>c.
          let sz = big_Uint64 len; g = (if EIP150 (vm_config c) then 700 else 20)
          in with_gas ((sz + 31) div 32 * copyGas) c (\<lambda>c. with_gas g c (\<lambda>c.
               let (code, h) = GetCode (eHost E) addr (vm_host c);
                   c = c\<lparr>vm_host := h\<rparr>
               in if sz \<noteq> 0 then memory_setBytes (big_Uint64 memOffset) code sz codeOffset c else Some c))) })"

definition opCallDataCopy :: "('h, 'v, 'prv, 'pub) env \<Rightarrow> 'h vm \<Rightarrow> 'h vm option" where
  "opCallDataCopy E c = do {
     (memOffset, c) \<leftarrow> popv c; (dataOffset, c) \<leftarrow> popv c; (len, c) \<leftarrow> popv c;
     with_mem (eGrow E) memOffset len c (\<lambda>c.
       let sz = big_Uint64 len
       in with_gas ((sz + 31) div 32 * copyGas) c (\<lambda>c.
            if sz \<noteq> 0 then memory_setBytes (big_Uint64 memOffset) (cInput (vm_msg c)) sz dataOffset c else Some c)) }"

definition opReturnDataCopy :: "('h, 'v, 'prv, 'pub) env \<Rightarrow> 'h vm \<Rightarrow> 'h vm option" where
  "opReturnDataCopy E c =
     (if \<not> Byzantium (vm_config c) then Some (exit errOpCodeNotFound c)
      else do {
        (memOffset, c) \<leftarrow> popv c; (dataOffset, c) \<leftarrow> popv c; (len, c) \<leftarrow> popv c;
        with_mem (eGrow E) memOffset len c (\<lambda>c.
          with_gas ((big_Uint64 len + 31) div 32 * copyGas) c (\<lambda>c.
            let end' = dataOffset + len
            in if \<not> IsUint64 end' then Some (exit errReturnDataOutOfBounds c)
               else let sz = unat (big_Uint64 end'); beg = unat (big_Uint64 dataOffset); p = unat (big_Uint64 memOffset)
                    in if length (vm_returnData c) < sz then Some (exit errReturnDataOutOfBounds c)
                       else if sz < beg \<or> length (vm_memory c) < p then None
                       else let mem = vm_memory c; dat = take (sz - beg) (drop beg (vm_returnData c))
                            in Some (c\<lparr>vm_memory := take p mem @ go_copy (drop p mem) dat\<rparr>))) })"

definition opCodeCopy :: "('h, 'v, 'prv, 'pub) env \<Rightarrow> 'h vm \<Rightarrow> 'h vm option" where
  "opCodeCopy E c = do {
     (memOffset, c) \<leftarrow> popv c; (dataOffset, c) \<leftarrow> popv c; (len, c) \<leftarrow> popv c;
     with_mem (eGrow E) memOffset len c (\<lambda>c.
       let sz = big_Uint64 len
       in with_gas ((sz + 31) div 32 * copyGas) c (\<lambda>c.
            if sz \<noteq> 0 then memory_setBytes (big_Uint64 memOffset) (vm_code c) sz dataOffset c else Some c)) }"

section \<open>Block information\<close>

definition opBlockHash :: "('h, 'v, 'prv, 'pub) env \<Rightarrow> 'h vm \<Rightarrow> 'h vm option" where
  "opBlockHash E c = do { num \<leftarrow> vm_top c;
     if \<not> IsInt64 num then Some (set_top 0 c)
     else let n = big_Int64 num; lastBlock = ctxNumber (GetTxContext (eHost E) (vm_host c))
          in Some (set_top (if sint (lastBlock - 257) < sint n \<and> sint n < sint lastBlock
                            then SetBytes (Hash_Bytes (GetBlockHash (eHost E) n (vm_host c))) else 0) c) }"

definition opCoinbase :: "('h, 'v, 'prv, 'pub) env \<Rightarrow> 'h vm \<Rightarrow> 'h vm option" where
  "opCoinbase E c = Some (push (SetBytes (Address_Bytes (ctxCoinbase (GetTxContext (eHost E) (vm_host c))))) c)"

definition opTimestamp :: "('h, 'v, 'prv, 'pub) env \<Rightarrow> 'h vm \<Rightarrow> 'h vm option" where
  "opTimestamp E c = Some (push (sint (ctxTimestamp (GetTxContext (eHost E) (vm_host c)))) c)"

definition opNumber :: "('h, 'v, 'prv, 'pub) env \<Rightarrow> 'h vm \<Rightarrow> 'h vm option" where
  "opNumber E c = Some (push (sint (ctxNumber (GetTxContext (eHost E) (vm_host c)))) c)"

definition opDifficulty :: "('h, 'v, 'prv, 'pub) env \<Rightarrow> 'h vm \<Rightarrow> 'h vm option" where
  "opDifficulty E c = Some (push (SetBytes (Hash_Bytes (ctxDifficulty (GetTxContext (eHost E) (vm_host c))))) c)"

definition opGasLimit :: "('h, 'v, 'prv, 'pub) env \<Rightarrow> 'h vm \<Rightarrow> 'h vm option" where
  "opGasLimit E c = Some (push (sint (ctxGasLimit (GetTxContext (eHost E) (vm_host c)))) c)"

definition opSelfDestruct :: "('h, 'v, 'prv, 'pub) env \<Rightarrow> 'h vm \<Rightarrow> 'h vm option" where
  "opSelfDestruct E c =
     (if inStaticCall c then Some (exit errWriteProtection c)
      else let (addr, c) = popAddr c; h = vm_host c; cfg = vm_config c;
               g = (if EIP150 cfg
                    then 5000 + (if EIP158 cfg
                                 then if hEmpty (eHost E) addr h \<and> GetBalance (eHost E) (cAddress (vm_msg c)) h \<noteq> 0
                                      then 25000 else 0
                                 else if \<not> AccountExists (eHost E) addr h then 25000 else 0)
                    else 0)
           in with_gas g c (\<lambda>c.
                Some (halt (c\<lparr>vm_host := Selfdestruct (eHost E) (cAddress (vm_msg c)) addr (vm_host c)\<rparr>))))"

section \<open>Control and stack\<close>

definition jump_to :: "int \<Rightarrow> 'h vm \<Rightarrow> 'h vm option" where
  "jump_to dest c = do { ok \<leftarrow> validJumpdest dest c;
     Some (if ok then c\<lparr>vm_ip := sint (big_Uint64 dest - 1)\<rparr> else exit errInvalidJump c) }"

definition opJump :: "'h vm \<Rightarrow> 'h vm option" where
  "opJump c = do { (dest, c) \<leftarrow> popv c; jump_to dest c }"

definition opJumpi :: "'h vm \<Rightarrow> 'h vm option" where
  "opJumpi c = do { (dest, c) \<leftarrow> popv c; (cond, c) \<leftarrow> popv c; if cond \<noteq> 0 then jump_to dest c else Some c }"

definition opJumpDest :: "'h vm \<Rightarrow> 'h vm option" where
  "opJumpDest c = Some c"

definition opPush :: "nat \<Rightarrow> 'h vm \<Rightarrow> 'h vm option" where
  "opPush n c =
     (let ins = vm_code c; p = nat (vm_ip c + 1);
          v = (if p + n > length ins then SetBytes (drop p ins @ replicate n 0) else SetBytes (take n (drop p ins)))
      in Some ((push v c)\<lparr>vm_ip := vm_ip c + int n\<rparr>))"

definition opDup :: "nat \<Rightarrow> 'h vm \<Rightarrow> 'h vm option" where
  "opDup n c =
     (if \<not> stackAtLeast n c then Some (exit ErrStackUnderflow c)
      else do { v \<leftarrow> peekAt n c; Some (push v c) })"

definition opSwap :: "nat \<Rightarrow> 'h vm \<Rightarrow> 'h vm option" where
  "opSwap n c = (if \<not> stackAtLeast (n + 1) c then Some (exit ErrStackUnderflow c) else swap n c)"

fun pop_topics :: "nat \<Rightarrow> 'h vm \<Rightarrow> (hash list \<times> 'h vm) option" where
  "pop_topics 0 c = Some ([], c)"
| "pop_topics (Suc n) c = do { (v, c) \<leftarrow> popv c; (ts, c) \<leftarrow> pop_topics n c; Some (bigToHash v # ts, c) }"

definition opLog :: "('h, 'v, 'prv, 'pub) env \<Rightarrow> nat \<Rightarrow> 'h vm \<Rightarrow> 'h vm option" where
  "opLog E n c =
     (let sz = n - 1 in
      if inStaticCall c then Some (exit errWriteProtection c)
      else if \<not> stackAtLeast (2 + sz) c then Some (exit ErrStackUnderflow c)
      else do {
        (mStart, c) \<leftarrow> popv c; (mSize, c) \<leftarrow> popv c;
        (topics, c) \<leftarrow> pop_topics sz c;
        (tmp, c) \<leftarrow> get2 (eGrow E) mStart mSize c;
        case tmp of
          None \<Rightarrow> Some c
        | Some b \<Rightarrow>
            with_gas (of_nat sz * 375) (c\<lparr>vm_host := EmitLog (eHost E) (cAddress (vm_msg c)) topics b (vm_host c)\<rparr>)
              (\<lambda>c. with_gas (big_Uint64 mSize * 8) c Some)
      })"

definition opStop :: "'h vm \<Rightarrow> 'h vm option" where
  "opStop c = Some (halt c)"

section \<open>Opcodes\<close>

text \<open>The opcodes that an instruction compares with; the dispatch table uses the numbers.\<close>

definition CREATE :: u8 where "CREATE = 0xF0"
definition CALL :: u8 where "CALL = 0xF1"
definition CALLCODE :: u8 where "CALLCODE = 0xF2"
definition RETURN :: u8 where "RETURN = 0xF3"
definition DELEGATECALL :: u8 where "DELEGATECALL = 0xF4"
definition CREATE2 :: u8 where "CREATE2 = 0xF5"
definition STATICCALL :: u8 where "STATICCALL = 0xFA"
definition REVERT :: u8 where "REVERT = 0xFD"

lemmas opcode_defs = CREATE_def CALL_def CALLCODE_def RETURN_def DELEGATECALL_def CREATE2_def STATICCALL_def REVERT_def

section \<open>Calls\<close>

text \<open>
  What \<open>buildCallContract\<close> and \<open>buildCreateContract\<close> return: the contract or nil, the return range,
  and whether the error is set.
\<close>

record build =
  bContract :: "Contract option"
  bOffset :: u64
  bSize :: u64
  bErr :: bool

definition build_nil :: build where
  "build_nil = \<lparr>bContract = None, bOffset = 0, bSize = 0, bErr = False\<rparr>"

definition call_gasCost :: "('h, 'v, 'prv, 'pub) env \<Rightarrow> u8 \<Rightarrow> address \<Rightarrow> bool \<Rightarrow> 'h vm \<Rightarrow> u64" where
  "call_gasCost E op addr transfersValue c =
     (let cfg = vm_config c; h = vm_host c
      in (if EIP150 cfg then 700 else 40) +
         (if op = CALL
          then if EIP158 cfg
               then if transfersValue \<and> hEmpty (eHost E) addr h then 25000 else 0
               else if \<not> AccountExists (eHost E) addr h then 25000 else 0
          else 0) +
         (if transfersValue then 9000 else 0))"

text \<open>The gas for the callee, \<open>None\<close> if the request does not fit before EIP-150.\<close>

definition call_gas :: "u64 \<Rightarrow> int \<Rightarrow> 'h vm \<Rightarrow> u64 option" where
  "call_gas gasCost initialGas c =
     (let ok = IsUint64 initialGas
      in if EIP150 (vm_config c)
         then let availableGas = vm_gas c - gasCost;
                  availableGas = availableGas - availableGas div 64
              in Some (if \<not> ok \<or> availableGas < big_Uint64 initialGas then availableGas else big_Uint64 initialGas)
         else if \<not> ok then None else Some (big_Uint64 initialGas))"

text \<open>\<open>buildCallContract\<close> after the memory checks: the price, the gas for the callee and the contract.\<close>

definition call_contract :: "('h, 'v, 'prv, 'pub) env \<Rightarrow> u8 \<Rightarrow> int \<Rightarrow> address \<Rightarrow> int option \<Rightarrow> bytes \<Rightarrow> int \<Rightarrow> int \<Rightarrow> 'h vm
    \<Rightarrow> build \<times> 'h vm" where
  "call_contract E op initialGas addr val args retOffset retSize c =
     (let transfersValue = ((op = CALL \<or> op = CALLCODE) \<and> (case val of None \<Rightarrow> False | Some v \<Rightarrow> v \<noteq> 0));
          gasCost = call_gasCost E op addr transfersValue c
      in case call_gas gasCost initialGas c of
           None \<Rightarrow> (build_nil, exit ErrOutOfGas c)
         | Some g \<Rightarrow>
             let (ok, c) = consumeGas (gasCost + g) c
             in if \<not> ok then (build_nil, c)
                else
                  let g = (if transfersValue then g + 2300 else g);
                      (code, h) = GetCode (eHost E) addr (vm_host c);
                      c = c\<lparr>vm_host := h\<rparr>;
                      m = vm_msg c;
                      contract = NewContractCall (cDepth m + 1) (cOrigin m) (cAddress m) addr val g code args;
                      contract = (if op = STATICCALL \<or> cStatic m then contract\<lparr>cStatic := True\<rparr> else contract);
                      contract = (if op = CALLCODE \<or> op = DELEGATECALL
                                  then let k = contract\<lparr>cAddress := cAddress m\<rparr>
                                       in if op = DELEGATECALL then k\<lparr>cValue := cValue m, cCaller := cCaller m\<rparr> else k
                                  else contract)
                  in if transfersValue \<and> GetBalance (eHost E) (cAddress m) (vm_host c) < (case val of Some v \<Rightarrow> v | None \<Rightarrow> 0)
                     then (\<lparr>bContract = Some contract, bOffset = 0, bSize = 0, bErr = True\<rparr>, c)
                     else (\<lparr>bContract = Some contract, bOffset = big_Uint64 retOffset, bSize = big_Uint64 retSize, bErr = False\<rparr>, c))"

definition buildCallContract :: "('h, 'v, 'prv, 'pub) env \<Rightarrow> u8 \<Rightarrow> 'h vm \<Rightarrow> (build \<times> 'h vm) option" where
  "buildCallContract E op c = do {
     (initialGas, c) \<leftarrow> popv c;
     let (addr, c) = popAddr c; (val, c) = (if op = CALL \<or> op = CALLCODE then pop c else (None, c)) in do {
     (inOffset, c) \<leftarrow> popv c; (inSize, c) \<leftarrow> popv c;
     (retOffset, c) \<leftarrow> popv c; (retSize, c) \<leftarrow> popv c;
     (args, c) \<leftarrow> get2 (eGrow E) inOffset inSize c;
     case args of
       None \<Rightarrow> Some (build_nil, c)
     | Some args \<Rightarrow>
         let (ok, c) = checkMemory (eGrow E) retOffset retSize c
         in Some (if \<not> ok then (build_nil, c)
                  else call_contract E op initialGas addr val args retOffset retSize c) } }"

text \<open>\<open>buildCreateContract\<close> after the memory check.\<close>

definition create_contract :: "('h, 'v, 'prv, 'pub) env \<Rightarrow> u8 \<Rightarrow> int option \<Rightarrow> int \<Rightarrow> int \<Rightarrow> bytes \<Rightarrow> 'h vm \<Rightarrow> build \<times> 'h vm" where
  "create_contract E op val len salt input c =
     (let (ok, c) = consumeGas 0 c
      in if \<not> ok then (build_nil, c)
         else if (case val of None \<Rightarrow> False | Some v \<Rightarrow> v \<noteq> 0 \<and> GetBalance (eHost E) (cAddress (vm_msg c)) (vm_host c) < v)
         then (build_nil\<lparr>bErr := True\<rparr>, c)
         else
           let (ok, c) = (if op = CREATE2 then consumeGas ((big_Uint64 len + 31) div 32 * sha3WordGas) c else (True, c))
           in if \<not> ok then (build_nil, c)
              else
                let g = vm_gas c;
                    g = (if EIP150 (vm_config c) \<or> op = CREATE2 then g - g div 64 else g);
                    (ok, c) = consumeGas g c
                in if \<not> ok then (build_nil, c)
                   else
                     let m = vm_msg c;
                         addr = (if op = CREATE
                                 then CreateAddress (eRlp E) (eCurve E) (cAddress m) (GetNonce (eHost E) (cAddress m) (vm_host c))
                                 else CreateAddress2 (eCurve E) (cAddress m) (Hash_Bytes (bigToHash salt)) input);
                         contract = NewContractCreation (cDepth m + 1) (cOrigin m) (cAddress m) addr val g input
                     in (\<lparr>bContract = Some contract, bOffset = 0, bSize = 0, bErr = False\<rparr>, c))"

definition buildCreateContract :: "('h, 'v, 'prv, 'pub) env \<Rightarrow> u8 \<Rightarrow> 'h vm \<Rightarrow> (build \<times> 'h vm) option" where
  "buildCreateContract E op c =
     (let (val, c) = pop c in do {
     (offset, c) \<leftarrow> popv c; (len, c) \<leftarrow> popv c;
     (salt, c) \<leftarrow> (if op = CREATE2 then popv c else Some (0, c));
     (input, c) \<leftarrow> get2 (eGrow E) offset len c;
     case input of
       None \<Rightarrow> Some (build_nil, c)
     | Some input \<Rightarrow> Some (create_contract E op val len salt input c) })"

text \<open>Both callers: an error pushes zero and gives back the gas of the contract if there is one.\<close>

definition build_failed :: "build \<Rightarrow> 'h vm \<Rightarrow> 'h vm" where
  "build_failed b c =
     (let c = push 0 c
      in case bContract b of None \<Rightarrow> c | Some k \<Rightarrow> c\<lparr>vm_gas := vm_gas c + cGas k\<rparr>)"

definition opCreate :: "('h, 'v, 'prv, 'pub) env \<Rightarrow> u8 \<Rightarrow> 'h vm \<Rightarrow> 'h vm option" where
  "opCreate E op c =
     (if inStaticCall c then Some (exit errWriteProtection c)
      else if op = CREATE2 \<and> \<not> Constantinople (vm_config c) then Some (exit errOpCodeNotFound c)
      else do {
        (b, c) \<leftarrow> buildCreateContract E op (resetReturnData c);
        if bErr b then Some (build_failed b c)
        else case bContract b of
               None \<Rightarrow> Some c
             | Some contract \<Rightarrow> do {
                 (result, h) \<leftarrow> Callx (eHost E) (contract\<lparr>cType := Create\<rparr>) (vm_host c);
                 let c = c\<lparr>vm_host := h\<rparr>;
                     storeOOG = (rErr result = Some ErrCodeStoreOutOfGas);
                     v = (if op = CREATE \<and> Homestead (vm_config c) \<and> storeOOG then 0
                          else if Failed result \<and> \<not> storeOOG then 0
                          else SetBytes (Address_Bytes (cAddress contract)));
                     c = push v c;
                     c = c\<lparr>vm_gas := vm_gas c + rGasLeft result\<rparr>
                 in Some (if Reverted result then c\<lparr>vm_returnData := rReturnValue result\<rparr> else c)
               }
      })"

definition callType_of :: "u8 \<Rightarrow> CallType" where
  "callType_of op = (if op = CALL then Call else if op = CALLCODE then CallCode
     else if op = DELEGATECALL then DelegateCall else StaticCall)"

text \<open>The slice \<open>c.memory[offset:offset+size]\<close> may reach up to the capacity. The return range was made
  available before unless it is empty, so nothing is written beyond the length.\<close>

definition opCall :: "('h, 'v, 'prv, 'pub) env \<Rightarrow> u8 \<Rightarrow> 'h vm \<Rightarrow> 'h vm option" where
  "opCall E op c =
     (let c = resetReturnData c in do {
      blocked \<leftarrow> (if op = CALL \<and> inStaticCall c then do { v \<leftarrow> peekAt 3 c; Some (BitLen v > 0) } else Some False);
      if blocked then Some (exit errWriteProtection c)
      else if op = DELEGATECALL \<and> \<not> Homestead (vm_config c) then Some (exit errOpCodeNotFound c)
      else if op = STATICCALL \<and> \<not> Byzantium (vm_config c) then Some (exit errOpCodeNotFound c)
      else do {
        (b, c) \<leftarrow> buildCallContract E op c;
        if bErr b then Some (build_failed b c)
        else case bContract b of
               None \<Rightarrow> Some c
             | Some contract \<Rightarrow> do {
                 (result, h) \<leftarrow> Callx (eHost E) (contract\<lparr>cType := callType_of op\<rparr>) (vm_host c);
                 let c = push (if Succeeded result then 1 else 0) (c\<lparr>vm_host := h\<rparr>) in do {
                 c \<leftarrow> (if (Succeeded result \<or> Reverted result) \<and> rReturnValue result \<noteq> []
                      then let p = unat (bOffset b); q = unat (bOffset b + bSize b); mem = vm_memory c
                           in if p \<le> q \<and> q \<le> vm_cap c
                              then Some (c\<lparr>vm_memory := take p mem @ go_copy (take (q - p) (drop p mem)) (rReturnValue result) @ drop q mem\<rparr>)
                              else None
                      else Some c);
                 Some (c\<lparr>vm_gas := vm_gas c + rGasLeft result, vm_returnData := rReturnValue result\<rparr>) }
               }
      } })"

definition opHalt :: "('h, 'v, 'prv, 'pub) env \<Rightarrow> u8 \<Rightarrow> 'h vm \<Rightarrow> 'h vm option" where
  "opHalt E op c =
     (if op = REVERT \<and> \<not> Byzantium (vm_config c) then Some (exit errOpCodeNotFound c)
      else do {
        (offset, c) \<leftarrow> popv c; (sz, c) \<leftarrow> popv c;
        (r, c) \<leftarrow> get2 (eGrow E) offset sz c;
        case r of
          None \<Rightarrow> Some (c\<lparr>vm_ret := []\<rparr>)
        | Some b \<Rightarrow>
            let c = c\<lparr>vm_ret := b\<rparr>
            in Some (if op = REVERT then exit ErrExecutionReverted c else halt c)
      })"

section \<open>The dispatch table\<close>

record 'h handler =
  inst :: "'h vm \<Rightarrow> 'h vm option"
  hstack :: nat
  hgas :: u64

definition register :: "u8 \<Rightarrow> ('h vm \<Rightarrow> 'h vm option) \<Rightarrow> nat \<Rightarrow> u64 \<Rightarrow> u8 \<times> 'h handler" where
  "register op f n g = (op, \<lparr>inst = f, hstack = n, hgas = g\<rparr>)"

definition registerRange :: "nat \<Rightarrow> nat \<Rightarrow> (nat \<Rightarrow> 'h vm \<Rightarrow> 'h vm option) \<Rightarrow> u64 \<Rightarrow> (u8 \<times> 'h handler) list" where
  "registerRange from to factory g = map (\<lambda>i. register (of_nat i) (factory (i - from + 1)) 0 g) [from..<to + 1]"

definition handlers :: "('h, 'v, 'prv, 'pub) env \<Rightarrow> (u8 \<times> 'h handler) list" where
  "handlers E =
     [register 0x00 opStop 0 0, register 0x01 opAdd 2 3, register 0x03 opSub 2 3, register 0x02 opMul 2 5,
      register 0x04 opDiv 2 5, register 0x05 opSDiv 2 5, register 0x06 opMod 2 5, register 0x07 opSMod 2 5,
      register 0x0A opExp 2 10] @
     registerRange 0x60 0x7F opPush 3 @ registerRange 0x80 0x8F opDup 3 @ registerRange 0x90 0x9F opSwap 3 @
     registerRange 0xA0 0xA4 (opLog E) 375 @
     [register 0x08 opAddMod 3 8, register 0x09 opMulMod 3 8, register 0x16 opAnd 2 3, register 0x17 opOr 2 3,
      register 0x18 opXor 2 3, register 0x1A opByte 2 3, register 0x19 opNot 1 3, register 0x15 opIsZero 1 3,
      register 0x14 opEq 2 3, register 0x10 opLt 2 3, register 0x11 opGt 2 3, register 0x12 opSlt 2 3,
      register 0x13 opSgt 2 3, register 0x0B opSignExtension 1 5, register 0x1B opShl 2 3, register 0x1C opShr 2 3,
      register 0x1D opSar 2 3, register CREATE (opCreate E CREATE) 3 32000, register CREATE2 (opCreate E CREATE2) 4 32000,
      register CALL (opCall E CALL) 7 0, register CALLCODE (opCall E CALLCODE) 7 0,
      register DELEGATECALL (opCall E DELEGATECALL) 6 0, register STATICCALL (opCall E STATICCALL) 6 0,
      register REVERT (opHalt E REVERT) 2 0, register RETURN (opHalt E RETURN) 2 0, register 0x51 (opMload E) 1 3,
      register 0x52 (opMStore E) 2 3, register 0x53 (opMStore8 E) 2 3, register 0x54 (opSload E) 1 0,
      register 0x55 (opSStore E) 2 0, register 0x20 (opSha3 E) 2 30, register 0x50 opPop 1 2,
      register 0x3F (opExtCodeHash E) 1 0, register 0x30 opAddress 0 2, register 0x31 (opBalance E) 1 0,
      register 0x47 (opSelfBalance E) 0 5, register 0x32 (opOrigin E) 0 2, register 0x33 opCaller 0 2,
      register 0x34 opCallValue 0 2, register 0x35 opCallDataLoad 1 3, register 0x36 opCallDataSize 0 2,
      register 0x38 opCodeSize 0 2, register 0x3B (opExtCodeSize E) 1 0, register 0x3A (opGasPrice E) 0 2,
      register 0x3D opReturnDataSize 0 2, register 0x46 (opChainID E) 0 2, register 0x58 opPC 0 2,
      register 0x59 opMSize 0 2, register 0x5A opGas 0 2, register 0x3C (opExtCodeCopy E) 4 0,
      register 0x37 (opCallDataCopy E) 3 3, register 0x3E (opReturnDataCopy E) 3 3, register 0x39 (opCodeCopy E) 3 3,
      register 0x40 (opBlockHash E) 1 20, register 0x41 (opCoinbase E) 0 2, register 0x42 (opTimestamp E) 0 2,
      register 0x43 (opNumber E) 0 2, register 0x44 (opDifficulty E) 0 2, register 0x45 (opGasLimit E) 0 2,
      register 0xFF (opSelfDestruct E) 1 0, register 0x56 opJump 1 8, register 0x57 opJumpi 2 10,
      register 0x5B opJumpDest 0 1]"

definition dispatchTable :: "('h, 'v, 'prv, 'pub) env \<Rightarrow> u8 \<Rightarrow> 'h handler option" where
  "dispatchTable E op = map_of (handlers E) op"

section \<open>The interpreter\<close>

text \<open>One turn of the loop of \<open>Run\<close>, for a machine that is not stopped.\<close>

definition run_step :: "('h, 'v, 'prv, 'pub) env \<Rightarrow> 'h vm \<Rightarrow> 'h vm option" where
  "run_step E c =
     (if vm_ip c \<ge> int (length (vm_code c)) then Some (halt c)
      else if vm_ip c < 0 then None
      else case dispatchTable E (vm_code c ! nat (vm_ip c)) of
             None \<Rightarrow> Some (exit errOpCodeNotFound c)
           | Some i \<Rightarrow>
               if length (vm_stack c) < hstack i then Some (exit ErrStackUnderflow c)
               else let (ok, c) = consumeGas (hgas i) c
                    in if \<not> ok then Some (exit ErrOutOfGas c)
                       else do {
                         c \<leftarrow> inst i c;
                         Some (if length (vm_stack c) > stackSize then exit ErrStackOverflow c
                               else c\<lparr>vm_ip := vm_ip c + 1\<rparr>)
                       })"

text \<open>The outer \<open>None\<close>: the loop does not end. The inner one: a panic.\<close>

partial_function (option) run_loop :: "('h, 'v, 'prv, 'pub) env \<Rightarrow> 'h vm \<Rightarrow> 'h vm option option" where
  "run_loop E c =
     (if vm_stop c then Some (Some c)
      else case run_step E c of None \<Rightarrow> Some None | Some c' \<Rightarrow> run_loop E c')"

text \<open>\<open>EVM.Run\<close>, on a state \<open>p\<close> of the pool that \<open>releaseState\<close> has reset.\<close>

definition vm_init :: "'h vm \<Rightarrow> Contract \<Rightarrow> 'h \<Rightarrow> ForksInTime \<Rightarrow> 'h vm" where
  "vm_init p c h config =
     (resetReturnData p)\<lparr>vm_msg := c, vm_code := cCode c, vm_gas := cGas c, vm_host := h, vm_config := config,
       vm_bitmap := setCode (cCode c)\<rparr>"

definition vm_result :: "'h vm \<Rightarrow> ExecutionResult" where
  "vm_result c =
     \<lparr>rReturnValue = vm_ret c,
      rGasLeft = (if vm_err c \<noteq> None \<and> vm_err c \<noteq> Some ErrExecutionReverted then 0 else vm_gas c),
      rGasUsed = 0, rErr = vm_err c\<rparr>"

definition EVM_Run :: "('h, 'v, 'prv, 'pub) env \<Rightarrow> 'h vm \<Rightarrow> Contract \<Rightarrow> ForksInTime \<Rightarrow> 'h
    \<Rightarrow> (ExecutionResult \<times> 'h) option option" where
  "EVM_Run E p c config h =
     (case run_loop E (vm_init (vm_reset p) c h config) of
        None \<Rightarrow> None
      | Some None \<Rightarrow> Some None
      | Some (Some s) \<Rightarrow> Some (Some (vm_result s, vm_host s)))"

end
