(* ===== verification/EvmArith.thy ===== *)
theory EvmArith
  imports EvmInstr "HOL-Library.Signed_Division"
begin

text \<open>
  The arithmetic, comparison and bitwise instructions compute the operations of 256-bit machine words:
  on the values of words they give the value of the word operation, signed where the instruction is.
\<close>

section \<open>Big integers as words\<close>

lemma nat_bitlen_le: "nat_bitlen n \<le> k \<longleftrightarrow> n < 2 ^ k"
proof (induction n arbitrary: k rule: nat_bitlen.induct)
  case (1 n)
  show ?case
  proof (cases "n = 0 \<or> k = 0")
    case True
    then show ?thesis by (auto simp: nat_bitlen.simps [of n])
  next
    case False
    then obtain j where j: "k = Suc j" "n \<noteq> 0" by (cases k) auto
    then have "nat_bitlen n \<le> k \<longleftrightarrow> nat_bitlen (n div 2) \<le> j" by (simp add: nat_bitlen.simps [of n])
    also have "\<dots> \<longleftrightarrow> n div 2 < 2 ^ j" using 1 j by simp
    also have "\<dots> \<longleftrightarrow> n < 2 ^ k" by (auto simp: j(1))
    finally show ?thesis .
  qed
qed

lemma BitLen_le: "BitLen x \<le> k \<longleftrightarrow> \<bar>x\<bar> < 2 ^ k"
  by (simp add: BitLen_def nat_bitlen_le nat_less_iff)

lemma BitLen_gt: "k < BitLen x \<longleftrightarrow> 2 ^ k \<le> \<bar>x\<bar>"
  using BitLen_le [of x k] by linarith

lemma BitLen_0 [simp]: "BitLen x = 0 \<longleftrightarrow> x = 0"
  using BitLen_le [of x 0] by auto

lemma tt256_eq: "tt256 = 2 ^ 256"
  by (simp add: tt256_def push_bit_eq_mult)

lemma tt256m1_mask: "tt256m1 = mask 256"
  by (simp only: tt256m1_def tt256_eq mask_eq_exp_minus_1)

lemma toU256_mod: "toU256 x = x mod 2 ^ 256"
proof (cases "x < 0 \<or> BitLen x > 256")
  case True
  then show ?thesis by (simp only: toU256_def if_True tt256m1_mask take_bit_eq_mask [symmetric] take_bit_eq_mod)
next
  case False
  then have "0 \<le> x" "x < 2 ^ 256" by (auto simp only: not_less BitLen_le)
  then show ?thesis using False by (simp only: toU256_def if_False mod_pos_pos_trivial)
qed

lemma toU256_word: "toU256 x = uint (word_of_int x :: 256 word)"
  by (simp add: toU256_mod uint_word_of_int)

lemma uint_256 [simp]: "uint (a :: 256 word) < 2 ^ 256"
  using uint_lt2p [of a] by simp

lemma to256_sint: "to256 (uint a) = sint (a :: 256 word)"
proof -
  have r: "0 \<le> uint a" "uint a < 2 ^ 256" by (simp_all only: unsigned_greater_eq uint_256)
  have "sint a = take_bit (Suc 255) (uint a) - 2 ^ Suc 255 * of_bool (bit (uint a) 255)"
    by (simp only: sint_uint) (simp add: signed_take_bit_eq_take_bit_minus)
  also have "take_bit (Suc 255) (uint a) = uint a" using r by (intro take_bit_int_eq_self) simp_all
  also have "bit (uint a) 255 \<longleftrightarrow> 2 ^ 255 \<le> uint a"
  proof (cases "2 ^ 255 \<le> uint a")
    case True
    then have "uint a div 2 ^ 255 = 1" using r by (intro int_div_pos_eq [where r = "uint a - 2 ^ 255"]) simp_all
    then show ?thesis using True by (simp only: bit_iff_odd) simp
  next
    case False
    then have "uint a div 2 ^ 255 = 0" using r by (intro div_pos_pos_trivial) simp_all
    then show ?thesis using False by (simp only: bit_iff_odd) simp
  qed
  finally show ?thesis using r by (simp only: to256_def BitLen_gt tt256_eq) simp
qed

lemma big_Div_pos: "0 \<le> b \<Longrightarrow> b \<noteq> 0 \<Longrightarrow> big_Div a b = a div b"
  by (simp add: big_Div_def)

lemma uint_word_of_uint: "uint (word_of_int (uint (a :: 256 word)) :: 256 word) = uint a"
  by simp

section \<open>Symbolic execution\<close>

text \<open>A binary instruction on a stack that holds the values of two words.\<close>

definition binop :: "('h vm \<Rightarrow> 'h vm option) \<Rightarrow> 256 word \<Rightarrow> 256 word \<Rightarrow> 256 word \<Rightarrow> bool" where
  "binop f a b r \<longleftrightarrow> (\<forall>c s. vm_stack c = uint a # uint b # s \<longrightarrow> f c = Some (c\<lparr>vm_stack := uint r # s\<rparr>))"

lemmas stack_defs = popv_def pop_def vm_top_def set_top_def push_def

lemma binop_arith:
  "binop opAdd a b (a + b)" "binop opMul a b (a * b)" "binop opSub a b (a - b)"
  by (auto simp: binop_def opAdd_def opMul_def opSub_def stack_defs toU256_word)

lemma binop_div: "binop opDiv a b (a div b)" "binop opMod a b (if b = 0 then 0 else a mod b)"
  by (auto simp: binop_def opDiv_def opMod_def stack_defs toU256_word big_Div_pos big_Mod_def word_div_def word_mod_def
      uint_0_iff)

lemma sdiv_sign: "(if sgn x \<noteq> sgn y then - (\<bar>x\<bar> div \<bar>y\<bar>) else \<bar>x\<bar> div \<bar>y\<bar>) = x sdiv y" if "y \<noteq> 0" for x y :: int
  using that by (cases "x = 0") (auto simp: signed_divide_int_def sgn_if split: if_splits)

lemma smod_sign: "(if x < 0 then - (\<bar>x\<bar> mod \<bar>y\<bar>) else \<bar>x\<bar> mod \<bar>y\<bar>) = x smod y" for x y :: int
  by (cases "x = 0") (auto simp: signed_modulo_int_def sgn_if)

lemma binop_sdiv: "binop opSDiv a b (word_of_int (sint a sdiv sint b))"
  "binop opSMod a b (if b = 0 then 0 else word_of_int (sint a smod sint b))"
proof -
  have z: "sint b = 0 \<longleftrightarrow> b = 0" by (metis signed_0 signed_word_eqI)
  show "binop opSDiv a b (word_of_int (sint a sdiv sint b))"
    using sdiv_sign [of "sint b" "sint a"] z
    by (auto simp: binop_def opSDiv_def stack_defs to256_sint toU256_word big_Div_def Let_def signed_divide_int_def)
  show "binop opSMod a b (if b = 0 then 0 else word_of_int (sint a smod sint b))"
    using smod_sign [of "sint a" "sint b"] z
    by (auto simp: binop_def opSMod_def stack_defs to256_sint toU256_word big_Mod_def Let_def)
qed

lemma binop_bits: "binop opAnd a b (a AND b)" "binop opOr a b (a OR b)" "binop opXor a b (a XOR b)"
  by (auto simp: binop_def opAnd_def opOr_def opXor_def stack_defs uint_and uint_or uint_xor)

lemma binop_compare:
  "binop opEq a b (of_bool (a = b))" "binop opLt a b (of_bool (a < b))" "binop opGt a b (of_bool (b < a))"
  "binop opSlt a b (of_bool (a <s b))" "binop opSgt a b (of_bool (b <s a))"
  by (auto simp: binop_def opEq_def opLt_def opGt_def opSlt_def opSgt_def stack_defs to256_sint word_less_def
      word_sless_alt dest: unsigned_word_eqI)

lemma uint_le_unat: "256 \<le> uint s \<longleftrightarrow> 256 \<le> unat (s :: 'a::len word)"
  using uint_nat [of s] by linarith

lemma bitlen_8: "equalOrOverflowsUint256 (uint (s :: 256 word)) \<longleftrightarrow> 256 \<le> unat s"
  by (simp add: equalOrOverflowsUint256_def BitLen_gt uint_le_unat)

lemma big_Uint64_small: "unat s < 2 ^ 64 \<Longrightarrow> unat (big_Uint64 (uint (s :: 256 word))) = unat s"
  by (simp add: big_Uint64_def unsigned_ucast_eq take_bit_nat_eq_self)

text \<open>Shifting by the width or more.\<close>

lemma bit_sint_high: "256 \<le> n \<Longrightarrow> bit (sint (a :: 256 word)) n \<longleftrightarrow> sint a < 0"
  using bit_last_iff [of a] bit_imp_le_length [of a n] by (auto simp: bit_sint_iff)

lemma shift_out:
  assumes "256 \<le> n"
  shows "push_bit n (a :: 256 word) = 0" "drop_bit n a = 0" "drop_bit n (sint a) = (if 0 \<le> sint a then 0 else - 1)"
proof -
  show "push_bit n a = 0" using assms by (intro bit_word_eqI) (auto simp: bit_push_bit_iff)
  show "drop_bit n a = 0" using assms by (intro bit_word_eqI) (auto simp: bit_drop_bit_eq dest: bit_imp_le_length)
  show "drop_bit n (sint a) = (if 0 \<le> sint a then 0 else - 1)"
    using assms bit_sint_high [of _ a] by (intro bit_eqI) (simp add: bit_drop_bit_eq)
qed

lemma shift_words:
  "toU256 (push_bit n (uint a)) = uint (push_bit n (a :: 256 word))"
  "toU256 (drop_bit n (uint a)) = uint (drop_bit n a)"
  "toU256 (drop_bit n (sint a)) = uint (signed_drop_bit n a)"
proof -
  show "toU256 (push_bit n (uint a)) = uint (push_bit n a)"
    by (simp only: unsigned_push_bit_eq toU256_mod take_bit_eq_mod) simp
  have "drop_bit n a = word_of_int (drop_bit n (uint a))" by (rule bit_word_eqI) (auto simp: bit_simps)
  then show "toU256 (drop_bit n (uint a)) = uint (drop_bit n a)" by (simp only: toU256_word)
  show "toU256 (drop_bit n (sint a)) = uint (signed_drop_bit n a)"
    by (simp add: toU256_word sint_signed_drop_bit_eq [symmetric])
qed

lemma toU256_minus_1: "toU256 (- 1) = tt256m1"
  by (simp add: toU256_mod tt256m1_def tt256_eq)

lemma toU256_0 [simp]: "toU256 0 = 0"
  by (simp add: toU256_mod)

lemma binop_shift:
  assumes "Constantinople (vm_config c)" "vm_stack c = uint (s :: 256 word) # uint (a :: 256 word) # r"
  shows "opShl c = Some (c\<lparr>vm_stack := uint (push_bit (unat s) a) # r\<rparr>)"
    "opShr c = Some (c\<lparr>vm_stack := uint (drop_bit (unat s) a) # r\<rparr>)"
    "opSar c = Some (c\<lparr>vm_stack := uint (signed_drop_bit (unat s) a) # r\<rparr>)"
proof -
  note defs = assms stack_defs bitlen_8 big_Uint64_small shift_words shift_out toU256_minus_1
  show "opShl c = Some (c\<lparr>vm_stack := uint (push_bit (unat s) a) # r\<rparr>)"
    by (simp add: opShl_def defs)
  show "opShr c = Some (c\<lparr>vm_stack := uint (drop_bit (unat s) a) # r\<rparr>)"
    by (simp add: opShr_def defs)
  show "opSar c = Some (c\<lparr>vm_stack := uint (signed_drop_bit (unat s) a) # r\<rparr>)"
  proof (cases "256 \<le> unat s")
    case True
    then have "uint (signed_drop_bit (unat s) a) = (if 0 \<le> sint a then 0 else tt256m1)"
      using shift_words(3) [of "unat s" a] by (simp add: shift_out(3) toU256_minus_1 split: if_splits)
    then show ?thesis using True by (simp add: opSar_def assms stack_defs bitlen_8 to256_sint Let_def)
  next
    case False
    then show ?thesis by (simp add: opSar_def assms stack_defs bitlen_8 to256_sint Let_def big_Uint64_small shift_words)
  qed
qed

lemma opNot_word: "vm_stack c = uint (a :: 256 word) # s \<Longrightarrow> opNot c = Some (c\<lparr>vm_stack := uint (NOT a) # s\<rparr>)"
proof -
  assume "vm_stack c = uint a # s"
  moreover have "toU256 (NOT (uint a)) = uint (NOT a)"
    by (simp add: toU256_word of_int_not_eq)
  ultimately show ?thesis by (simp add: opNot_def stack_defs)
qed

lemma opIsZero_word:
  "vm_stack c = uint (a :: 256 word) # s \<Longrightarrow> opIsZero c = Some (c\<lparr>vm_stack := uint (of_bool (a = 0) :: 256 word) # s\<rparr>)"
  by (simp add: opIsZero_def stack_defs uint_0_iff)

lemma ternary:
  assumes "vm_stack c = uint (a :: 256 word) # uint (b :: 256 word) # uint (m :: 256 word) # s"
  shows "opAddMod c = Some (c\<lparr>vm_stack := (if m = 0 then 0 else (uint a + uint b) mod uint m) # s\<rparr>)"
    "opMulMod c = Some (c\<lparr>vm_stack := (if m = 0 then 0 else (uint a * uint b) mod uint m) # s\<rparr>)"
proof -
  have "toU256 (x mod uint m) = x mod uint m" if "m \<noteq> 0" for x
  proof -
    have "0 < uint m" using that by (simp add: word_gt_0_no uint_0_iff order_le_neq_trans)
    then have "0 \<le> x mod uint m" "x mod uint m < uint m" by simp_all
    moreover have "uint m < 2 ^ 256" by (rule uint_256)
    ultimately show ?thesis unfolding toU256_mod by (intro mod_pos_pos_trivial) linarith+
  qed
  then show "opAddMod c = Some (c\<lparr>vm_stack := (if m = 0 then 0 else (uint a + uint b) mod uint m) # s\<rparr>)"
    "opMulMod c = Some (c\<lparr>vm_stack := (if m = 0 then 0 else (uint a * uint b) mod uint m) # s\<rparr>)"
    using assms by (simp_all add: opAddMod_def opMulMod_def stack_defs big_Mod_def uint_0_iff)
qed

section \<open>Sign extension\<close>

lemma signext_bits:
  fixes x :: int
  shows "bit x n \<Longrightarrow> toU256 (x OR NOT (2 ^ n - 1)) = uint (word_of_int (signed_take_bit n x) :: 256 word)"
    "\<not> bit x n \<Longrightarrow> toU256 (x AND (2 ^ n - 1)) = uint (word_of_int (signed_take_bit n x) :: 256 word)"
proof -
  have m: "2 ^ n - 1 = (mask n :: int)" by (simp add: mask_eq_exp_minus_1)
  have "x OR NOT (mask n) = signed_take_bit n x" if "bit x n"
    using that by (intro bit_eqI) (auto simp: bit_simps min_def)
  then show "bit x n \<Longrightarrow> toU256 (x OR NOT (2 ^ n - 1)) = uint (word_of_int (signed_take_bit n x) :: 256 word)"
    by (simp add: toU256_word m)
  have "x AND mask n = signed_take_bit n x" if "\<not> bit x n"
    using that by (intro bit_eqI) (auto simp: bit_simps min_def)
  then show "\<not> bit x n \<Longrightarrow> toU256 (x AND (2 ^ n - 1)) = uint (word_of_int (signed_take_bit n x) :: 256 word)"
    by (simp add: toU256_word m)
qed

text \<open>For a position below 32 the instruction extends the sign from that byte; beyond it leaves the word.\<close>

lemma opSignExtension_word:
  assumes "vm_stack c = uint (e :: 256 word) # uint (x :: 256 word) # s"
  shows "opSignExtension c = Some (c\<lparr>vm_stack :=
    uint (if unat e < 32 then word_of_int (signed_take_bit (8 * unat e + 7) (uint x)) else x) # s\<rparr>)"
proof (cases "unat e \<le> 32")
  case False
  then have "32 < uint e" using uint_nat [of e] by linarith
  then show ?thesis using assms False by (simp add: opSignExtension_def stack_defs)
next
  case True
  have le: "\<not> 32 < uint e" using True uint_nat [of e] by linarith
  have 64: "unat (big_Uint64 (uint e)) = unat e" using True by (intro big_Uint64_small) simp
  then have n: "unat (big_Uint64 (uint e) * 8 + 7) = 8 * unat e + 7" using True by (simp add: unat_word_ariths)
  have "opSignExtension c = Some (c\<lparr>vm_stack := uint (word_of_int (signed_take_bit (8 * unat e + 7) (uint x)) :: 256 word) # s\<rparr>)"
    using assms le by (simp add: opSignExtension_def stack_defs Let_def n signext_bits del: not_less)
  moreover have "signed_take_bit (8 * unat e + 7) (uint x) = uint x" if "unat e = 32"
    using that uint_256 [of x]
    by (intro signed_take_bit_int_eq_self order_trans [OF _ unsigned_greater_eq [of x]]) simp_all
  ultimately show ?thesis using True by (cases "unat e = 32") simp_all
qed

section \<open>Exponentiation\<close>

fun limbs_val :: "u64 list \<Rightarrow> nat" where
  "limbs_val [] = 0"
| "limbs_val (d # ds) = unat d + 2 ^ 64 * limbs_val ds"

lemma limbs_val_nat_limbs: "limbs_val (nat_limbs n) = n"
proof (induction n rule: nat_limbs.induct)
  case (1 n)
  have "unat (word_of_nat n :: u64) = n mod 2 ^ 64" by (simp add: unsigned_of_nat take_bit_eq_mod)
  then show ?case using 1 by (simp add: nat_limbs.simps [of n])
qed

lemma odd_u64: "d AND 1 = 1 \<longleftrightarrow> odd (unat (d :: u64))"
proof -
  have "odd d \<longleftrightarrow> odd (unat d)" by (simp only: bit_0 [symmetric] bit_unsigned_iff) simp
  then show ?thesis by (simp add: and_one_eq odd_iff_mod_2_eq_one [symmetric])
qed

lemma exp_bits_words:
  "exp_bits n d (uint (X :: 256 word)) (uint Z) = (uint (X ^ (2 ^ n)), uint (Z * X ^ take_bit n (unat d)))"
proof (induction n arbitrary: d X Z)
  case 0
  then show ?case by simp
next
  case (Suc n)
  have half: "unat (drop_bit (Suc 0) d) = unat d div 2" by (simp add: drop_bit_eq_div unat_div)
  have tb: "take_bit (Suc n) (unat d) = 2 * take_bit n (unat d div 2) + of_bool (odd (unat d))"
    by (simp add: take_bit_Suc mod_2_eq_odd)
  have z: "(if d AND 1 = 1 then toU256 (uint Z * uint X) else uint Z) = uint (if odd (unat d) then Z * X else Z)"
    by (simp add: odd_u64 toU256_word)
  have "exp_bits (Suc n) d (uint X) (uint Z)
      = exp_bits n (drop_bit 1 d) (uint (X * X)) (uint (if odd (unat d) then Z * X else Z))"
    by (simp add: z) (simp add: toU256_word)
  also have "\<dots> = (uint ((X * X) ^ (2 ^ n)), uint ((if odd (unat d) then Z * X else Z) * (X * X) ^ take_bit n (unat d div 2)))"
    by (simp add: Suc half)
  also have "(X * X) ^ (2 ^ n) = X ^ (2 ^ Suc n)" by (simp add: power2_eq_square [symmetric] power_mult [symmetric])
  also have "(if odd (unat d) then Z * X else Z) * (X * X) ^ take_bit n (unat d div 2) = Z * X ^ take_bit (Suc n) (unat d)"
    by (simp add: tb power_add power_mult power2_eq_square mult.assoc)
  finally show ?case .
qed

lemma exp_words_power: "exp_words ds (uint (X :: 256 word)) (uint Z) = uint (Z * X ^ limbs_val ds)"
proof (induction ds arbitrary: X Z)
  case (Cons d ds)
  have "take_bit 64 (unat d) = unat d" by (rule take_bit_nat_eq_self) simp
  then have "exp_bits 64 d (uint X) (uint Z) = (uint (X ^ 2 ^ 64), uint (Z * X ^ unat d))"
    using exp_bits_words [of 64 d X Z] by simp
  then show ?case using Cons [of "X ^ 2 ^ 64" "Z * X ^ unat d"]
    by (simp add: power_add power_mult mult.assoc)
qed simp

lemma opExp_word:
  assumes "vm_stack c = uint (x :: 256 word) # uint (y :: 256 word) # s"
    and "of_nat ((BitLen (uint y) + 7) div 8) * (if EIP158 (vm_config c) then 50 else 10) \<le> vm_gas c"
  shows "opExp c = Some (c\<lparr>vm_stack := uint (x ^ unat y) # s,
    vm_gas := vm_gas c - of_nat ((BitLen (uint y) + 7) div 8) * (if EIP158 (vm_config c) then 50 else 10)\<rparr>)"
proof -
  have "exp_words (big_Bits (uint y)) (uint x) 1 = uint (x ^ unat y)"
    using exp_words_power [of "big_Bits (uint y)" x 1]
    by (simp add: big_Bits_def limbs_val_nat_limbs)
  then show ?thesis using assms
    by (auto simp: opExp_def stack_defs with_gas_def consumeGas_def Let_def leD not_less)
qed

section \<open>The instructions compute on words\<close>



text \<open>A machine for examples.\<close>

definition ex_vm :: "bytes \<Rightarrow> int list \<Rightarrow> unit vm" where
  "ex_vm code stk =
     \<lparr>vm_ip = 0, vm_code = code, vm_host = (), vm_msg = NewContract 1 0 0 0 None 100000 code,
      vm_config = Forks_At AllForksEnabled 0, vm_memory = [], vm_cap = 0, vm_lastGasCost = 0, vm_stack = stk,
      vm_err = None, vm_stop = False, vm_gas = 100000, vm_bitmap = setCode code, vm_returnData = [], vm_ret = []\<rparr>"


text \<open>C39. The square-and-multiply loop of \<open>EXP\<close>, over the 64-bit limbs of the exponent, gives the power
  modulo \<open>2 ^ 256\<close>, and it costs the base price per byte of the exponent.\<close>

theorem exponentiation_by_squaring:
  fixes x y :: "256 word"
  assumes "vm_stack c = uint x # uint y # s"
    and "g = of_nat ((BitLen (uint y) + 7) div 8) * (if EIP158 (vm_config c) then 50 else 10)" "g \<le> vm_gas c"
  shows "opExp c = Some (c\<lparr>vm_stack := uint (x ^ unat y) # s, vm_gas := vm_gas c - g\<rparr>)"
  using opExp_word [OF assms(1)] assms(2,3) by simp

theorem exponentiation_by_squaring_witness:
  "opExp (ex_vm [] [3, 5]) = Some ((ex_vm [] [243])\<lparr>vm_gas := 99950\<rparr>)"
proof -
  have "opExp (ex_vm [] [3, 5]) = Some ((ex_vm [] [3, 5])\<lparr>vm_stack := [uint ((3 :: 256 word) ^ unat (5 :: 256 word))],
      vm_gas := vm_gas (ex_vm [] [3, 5]) - 50\<rparr>)"
  proof (rule exponentiation_by_squaring)
    show "50 = of_nat ((BitLen (uint (5 :: 256 word)) + 7) div 8) * (if EIP158 (vm_config (ex_vm [] [3, 5])) then 50 else 10)"
      by (simp add: BitLen_def nat_bitlen.simps ex_vm_def Forks_At_def AllForksEnabled_def fork_active_def NewFork_def Fork_Active_def)
  qed (simp_all add: ex_vm_def)
  then show ?thesis by (simp add: ex_vm_def)
qed

text \<open>\<open>BYTE\<close> reads its position through \<open>Int64\<close>: a position of \<open>2 ^ 64\<close> selects the first byte, where
  every position above 31 should give zero.\<close>

lemma opByte_truncates: "opByte (ex_vm [] [2 ^ 64, 0xab * 2 ^ 248]) = Some (ex_vm [] [0xab])"
  by (simp add: opByte_def stack_defs ex_vm_def big_Int64_def drop_bit_eq_div)

text \<open>\<open>SIGNEXTEND\<close> is registered with one operand and does nothing on a stack with a single element.\<close>

lemma opSignExtension_underflow: "opSignExtension (ex_vm [] [5]) = Some (ex_vm [] [])"
  by (simp add: opSignExtension_def stack_defs ex_vm_def)

end
