(* ===== verification/Blake2f.thy ===== *)
theory Blake2f
  imports EvmTypes
begin

text \<open>
  The compression function of BLAKE2b as \<open>precompiled/blake2f.go\<close> unrolls it, and its equivalence with the
  definition of RFC 7693. The rounds are written out there with the two halves of the mixing function
  interleaved over the columns, and with message indices permuted to match.
\<close>

section \<open>The code\<close>

type_synonym blake_vec = "u64 \<times> u64 \<times> u64 \<times> u64 \<times> u64 \<times> u64 \<times> u64 \<times> u64 \<times> u64 \<times> u64 \<times> u64 \<times> u64 \<times> u64 \<times> u64 \<times> u64 \<times> u64"

definition IV :: "u64 list" where
  "IV = [0x6a09e667f3bcc908, 0xbb67ae8584caa73b, 0x3c6ef372fe94f82b, 0xa54ff53a5f1d36f1,
         0x510e527fade682d1, 0x9b05688c2b3e6c1f, 0x1f83d9abfb41bd6b, 0x5be0cd19137e2179]"

definition precomputed :: "nat list list" where
  "precomputed =
     [[0, 2, 4, 6, 1, 3, 5, 7, 8, 10, 12, 14, 9, 11, 13, 15],
      [14, 4, 9, 13, 10, 8, 15, 6, 1, 0, 11, 5, 12, 2, 7, 3],
      [11, 12, 5, 15, 8, 0, 2, 13, 10, 3, 7, 9, 14, 6, 1, 4],
      [7, 3, 13, 11, 9, 1, 12, 14, 2, 5, 4, 15, 6, 10, 0, 8],
      [9, 5, 2, 10, 0, 7, 4, 15, 14, 11, 6, 3, 1, 12, 8, 13],
      [2, 6, 0, 8, 12, 10, 11, 3, 4, 7, 15, 1, 13, 5, 14, 9],
      [12, 1, 14, 4, 5, 15, 13, 10, 0, 6, 9, 8, 7, 3, 2, 11],
      [13, 7, 12, 3, 11, 14, 1, 9, 5, 15, 8, 2, 0, 4, 6, 10],
      [6, 14, 11, 0, 15, 9, 3, 8, 12, 13, 1, 10, 2, 7, 4, 5],
      [10, 8, 7, 1, 2, 4, 6, 5, 15, 9, 3, 13, 11, 14, 12, 0]]"

text \<open>The body of the loop of \<open>F\<close>: \<open>m\<close> reads the message block and \<open>s\<close> the row of the table.\<close>

definition F_round :: "(nat \<Rightarrow> u64) \<Rightarrow> (nat \<Rightarrow> nat) \<Rightarrow> blake_vec \<Rightarrow> blake_vec" where
  "F_round m s v =
     (case v of (v0, v1, v2, v3, v4, v5, v6, v7, v8, v9, v10, v11, v12, v13, v14, v15) \<Rightarrow>
      let
          v0 = v0 + m (s 0); v0 = v0 + v4; v12 = v12 XOR v0; v12 = word_rotr 32 v12;
          v8 = v8 + v12; v4 = v4 XOR v8; v4 = word_rotr 24 v4; v1 = v1 + m (s 1);
          v1 = v1 + v5; v13 = v13 XOR v1; v13 = word_rotr 32 v13; v9 = v9 + v13;
          v5 = v5 XOR v9; v5 = word_rotr 24 v5; v2 = v2 + m (s 2); v2 = v2 + v6;
          v14 = v14 XOR v2; v14 = word_rotr 32 v14; v10 = v10 + v14; v6 = v6 XOR v10;
          v6 = word_rotr 24 v6; v3 = v3 + m (s 3); v3 = v3 + v7; v15 = v15 XOR v3;
          v15 = word_rotr 32 v15; v11 = v11 + v15; v7 = v7 XOR v11; v7 = word_rotr 24 v7;
          v0 = v0 + m (s 4); v0 = v0 + v4; v12 = v12 XOR v0; v12 = word_rotr 16 v12;
          v8 = v8 + v12; v4 = v4 XOR v8; v4 = word_rotr 63 v4; v1 = v1 + m (s 5);
          v1 = v1 + v5; v13 = v13 XOR v1; v13 = word_rotr 16 v13; v9 = v9 + v13;
          v5 = v5 XOR v9; v5 = word_rotr 63 v5; v2 = v2 + m (s 6); v2 = v2 + v6;
          v14 = v14 XOR v2; v14 = word_rotr 16 v14; v10 = v10 + v14; v6 = v6 XOR v10;
          v6 = word_rotr 63 v6; v3 = v3 + m (s 7); v3 = v3 + v7; v15 = v15 XOR v3;
          v15 = word_rotr 16 v15; v11 = v11 + v15; v7 = v7 XOR v11; v7 = word_rotr 63 v7;
          v0 = v0 + m (s 8); v0 = v0 + v5; v15 = v15 XOR v0; v15 = word_rotr 32 v15;
          v10 = v10 + v15; v5 = v5 XOR v10; v5 = word_rotr 24 v5; v1 = v1 + m (s 9);
          v1 = v1 + v6; v12 = v12 XOR v1; v12 = word_rotr 32 v12; v11 = v11 + v12;
          v6 = v6 XOR v11; v6 = word_rotr 24 v6; v2 = v2 + m (s 10); v2 = v2 + v7;
          v13 = v13 XOR v2; v13 = word_rotr 32 v13; v8 = v8 + v13; v7 = v7 XOR v8;
          v7 = word_rotr 24 v7; v3 = v3 + m (s 11); v3 = v3 + v4; v14 = v14 XOR v3;
          v14 = word_rotr 32 v14; v9 = v9 + v14; v4 = v4 XOR v9; v4 = word_rotr 24 v4;
          v0 = v0 + m (s 12); v0 = v0 + v5; v15 = v15 XOR v0; v15 = word_rotr 16 v15;
          v10 = v10 + v15; v5 = v5 XOR v10; v5 = word_rotr 63 v5; v1 = v1 + m (s 13);
          v1 = v1 + v6; v12 = v12 XOR v1; v12 = word_rotr 16 v12; v11 = v11 + v12;
          v6 = v6 XOR v11; v6 = word_rotr 63 v6; v2 = v2 + m (s 14); v2 = v2 + v7;
          v13 = v13 XOR v2; v13 = word_rotr 16 v13; v8 = v8 + v13; v7 = v7 XOR v8;
          v7 = word_rotr 63 v7; v3 = v3 + m (s 15); v3 = v3 + v4; v14 = v14 XOR v3;
          v14 = word_rotr 16 v14; v9 = v9 + v14; v4 = v4 XOR v9; v4 = word_rotr 63 v4
      in (v0, v1, v2, v3, v4, v5, v6, v7, v8, v9, v10, v11, v12, v13, v14, v15))"

fun F_loop :: "(nat \<Rightarrow> u64) \<Rightarrow> nat \<Rightarrow> nat \<Rightarrow> blake_vec \<Rightarrow> blake_vec" where
  "F_loop m j 0 v = v"
| "F_loop m j (Suc n) v = F_loop m (Suc j) n (F_round m (\<lambda>i. precomputed ! (j mod 10) ! i) v)"

definition F_compress :: "u64 list \<Rightarrow> u64 list \<Rightarrow> u64 list \<Rightarrow> bool \<Rightarrow> 32 word \<Rightarrow> u64 list" where
  "F_compress h m c f rounds =
     (let v12 = IV ! 4 XOR c ! 0; v13 = IV ! 5 XOR c ! 1;
          v14 = (if f then IV ! 6 XOR 0xffffffffffffffff else IV ! 6)
      in case F_loop (\<lambda>i. m ! i) 0 (unat rounds)
                (h ! 0, h ! 1, h ! 2, h ! 3, h ! 4, h ! 5, h ! 6, h ! 7, IV ! 0, IV ! 1, IV ! 2, IV ! 3, v12, v13, v14, IV ! 7)
         of (v0, v1, v2, v3, v4, v5, v6, v7, v8, v9, v10, v11, v12, v13, v14, v15) \<Rightarrow>
           [h ! 0 XOR (v0 XOR v8), h ! 1 XOR (v1 XOR v9), h ! 2 XOR (v2 XOR v10), h ! 3 XOR (v3 XOR v11),
            h ! 4 XOR (v4 XOR v12), h ! 5 XOR (v5 XOR v13), h ! 6 XOR (v6 XOR v14), h ! 7 XOR (v7 XOR v15)])"

section \<open>The definition of RFC 7693\<close>

definition sigma_table :: "nat list list" where
  "sigma_table =
     [[0, 1, 2, 3, 4, 5, 6, 7, 8, 9, 10, 11, 12, 13, 14, 15],
      [14, 10, 4, 8, 9, 15, 13, 6, 1, 12, 0, 2, 11, 7, 5, 3],
      [11, 8, 12, 0, 5, 2, 15, 13, 10, 14, 3, 6, 7, 1, 9, 4],
      [7, 9, 3, 1, 13, 12, 11, 14, 2, 6, 5, 10, 4, 0, 15, 8],
      [9, 0, 5, 7, 2, 4, 10, 15, 14, 1, 11, 12, 6, 8, 3, 13],
      [2, 12, 6, 10, 0, 11, 8, 3, 4, 13, 7, 5, 15, 14, 1, 9],
      [12, 5, 1, 15, 14, 13, 4, 10, 0, 7, 6, 3, 9, 2, 8, 11],
      [13, 11, 7, 14, 12, 1, 3, 9, 5, 0, 15, 4, 8, 6, 2, 10],
      [6, 15, 14, 9, 11, 3, 0, 8, 12, 2, 13, 7, 1, 4, 10, 5],
      [10, 2, 8, 4, 7, 6, 1, 5, 15, 11, 9, 14, 3, 12, 13, 0]]"

text \<open>The mixing function \<open>G\<close> on a vector of 16 words, and a round of eight applications.\<close>

definition blake_G :: "u64 list \<Rightarrow> nat \<Rightarrow> nat \<Rightarrow> nat \<Rightarrow> nat \<Rightarrow> u64 \<Rightarrow> u64 \<Rightarrow> u64 list" where
  "blake_G v a b c d x y =
     (let v = v[a := v ! a + v ! b + x]; v = v[d := word_rotr 32 (v ! d XOR v ! a)];
          v = v[c := v ! c + v ! d]; v = v[b := word_rotr 24 (v ! b XOR v ! c)];
          v = v[a := v ! a + v ! b + y]; v = v[d := word_rotr 16 (v ! d XOR v ! a)];
          v = v[c := v ! c + v ! d]; v = v[b := word_rotr 63 (v ! b XOR v ! c)]
      in v)"

definition blake_round :: "(nat \<Rightarrow> u64) \<Rightarrow> (nat \<Rightarrow> nat) \<Rightarrow> u64 list \<Rightarrow> u64 list" where
  "blake_round m s v =
     (let v = blake_G v 0 4 8 12 (m (s 0)) (m (s 1)); v = blake_G v 1 5 9 13 (m (s 2)) (m (s 3));
          v = blake_G v 2 6 10 14 (m (s 4)) (m (s 5)); v = blake_G v 3 7 11 15 (m (s 6)) (m (s 7));
          v = blake_G v 0 5 10 15 (m (s 8)) (m (s 9)); v = blake_G v 1 6 11 12 (m (s 10)) (m (s 11));
          v = blake_G v 2 7 8 13 (m (s 12)) (m (s 13)); v = blake_G v 3 4 9 14 (m (s 14)) (m (s 15))
      in v)"

definition blake_rounds :: "(nat \<Rightarrow> u64) \<Rightarrow> nat \<Rightarrow> u64 list \<Rightarrow> u64 list" where
  "blake_rounds m n v = foldl (\<lambda>v i. blake_round m (\<lambda>k. sigma_table ! (i mod 10) ! k) v) v [0..<n]"

definition blake_F :: "u64 list \<Rightarrow> u64 list \<Rightarrow> u64 \<Rightarrow> u64 \<Rightarrow> bool \<Rightarrow> nat \<Rightarrow> u64 list" where
  "blake_F h m t0 t1 f n =
     (let v = h @ IV; v = v[12 := v ! 12 XOR t0]; v = v[13 := v ! 13 XOR t1];
          v = (if f then v[14 := NOT (v ! 14)] else v);
          v = blake_rounds (\<lambda>i. m ! i) n v
      in map (\<lambda>i. h ! i XOR v ! i XOR v ! (i + 8)) [0..<8])"

section \<open>Equivalence\<close>

fun vec_list :: "blake_vec \<Rightarrow> u64 list" where
  "vec_list (v0, v1, v2, v3, v4, v5, v6, v7, v8, v9, v10, v11, v12, v13, v14, v15) = [v0, v1, v2, v3, v4, v5, v6, v7, v8, v9, v10, v11, v12, v13, v14, v15]"

text \<open>How the code permutes a row of the table.\<close>

definition row_perm :: "nat list" where
  "row_perm = [0, 2, 4, 6, 1, 3, 5, 7, 8, 10, 12, 14, 9, 11, 13, 15]"

lemma precomputed_sigma: "j < 10 \<Longrightarrow> i < 16 \<Longrightarrow> precomputed ! j ! i = sigma_table ! j ! (row_perm ! i)"
proof -
  have "\<forall>j<10. \<forall>i<16. precomputed ! j ! i = sigma_table ! j ! (row_perm ! i)" by code_simp
  then show "j < 10 \<Longrightarrow> i < 16 \<Longrightarrow> precomputed ! j ! i = sigma_table ! j ! (row_perm ! i)" by blast
qed

text \<open>The two halves of the mixing function.\<close>

definition half1 :: "u64 \<Rightarrow> u64 \<times> u64 \<times> u64 \<times> u64 \<Rightarrow> u64 \<times> u64 \<times> u64 \<times> u64" where
  "half1 x v = (case v of (a, b, c, d) \<Rightarrow>
     let a = a + x + b; d = word_rotr 32 (d XOR a); c = c + d; b = word_rotr 24 (b XOR c) in (a, b, c, d))"

definition half2 :: "u64 \<Rightarrow> u64 \<times> u64 \<times> u64 \<times> u64 \<Rightarrow> u64 \<times> u64 \<times> u64 \<times> u64" where
  "half2 x v = (case v of (a, b, c, d) \<Rightarrow>
     let a = a + x + b; d = word_rotr 16 (d XOR a); c = c + d; b = word_rotr 63 (b XOR c) in (a, b, c, d))"

lemma list_update_numeral: "(x # xs)[numeral k := y] = x # xs[pred_numeral k := y]"
  by (simp add: numeral_eq_Suc)

lemma blake_G_halves:
  "blake_G [v0, v1, v2, v3, v4, v5, v6, v7, v8, v9, v10, v11, v12, v13, v14, v15] 0 4 8 12 x y = (case half2 y (half1 x (v0, v4, v8, v12)) of (a, b, c, d) \<Rightarrow> [a, v1, v2, v3, b, v5, v6, v7, c, v9, v10, v11, d, v13, v14, v15])"
  "blake_G [v0, v1, v2, v3, v4, v5, v6, v7, v8, v9, v10, v11, v12, v13, v14, v15] 1 5 9 13 x y = (case half2 y (half1 x (v1, v5, v9, v13)) of (a, b, c, d) \<Rightarrow> [v0, a, v2, v3, v4, b, v6, v7, v8, c, v10, v11, v12, d, v14, v15])"
  "blake_G [v0, v1, v2, v3, v4, v5, v6, v7, v8, v9, v10, v11, v12, v13, v14, v15] 2 6 10 14 x y = (case half2 y (half1 x (v2, v6, v10, v14)) of (a, b, c, d) \<Rightarrow> [v0, v1, a, v3, v4, v5, b, v7, v8, v9, c, v11, v12, v13, d, v15])"
  "blake_G [v0, v1, v2, v3, v4, v5, v6, v7, v8, v9, v10, v11, v12, v13, v14, v15] 3 7 11 15 x y = (case half2 y (half1 x (v3, v7, v11, v15)) of (a, b, c, d) \<Rightarrow> [v0, v1, v2, a, v4, v5, v6, b, v8, v9, v10, c, v12, v13, v14, d])"
  "blake_G [v0, v1, v2, v3, v4, v5, v6, v7, v8, v9, v10, v11, v12, v13, v14, v15] 0 5 10 15 x y = (case half2 y (half1 x (v0, v5, v10, v15)) of (a, b, c, d) \<Rightarrow> [a, v1, v2, v3, v4, b, v6, v7, v8, v9, c, v11, v12, v13, v14, d])"
  "blake_G [v0, v1, v2, v3, v4, v5, v6, v7, v8, v9, v10, v11, v12, v13, v14, v15] 1 6 11 12 x y = (case half2 y (half1 x (v1, v6, v11, v12)) of (a, b, c, d) \<Rightarrow> [v0, a, v2, v3, v4, v5, b, v7, v8, v9, v10, c, d, v13, v14, v15])"
  "blake_G [v0, v1, v2, v3, v4, v5, v6, v7, v8, v9, v10, v11, v12, v13, v14, v15] 2 7 8 13 x y = (case half2 y (half1 x (v2, v7, v8, v13)) of (a, b, c, d) \<Rightarrow> [v0, v1, a, v3, v4, v5, v6, b, c, v9, v10, v11, v12, d, v14, v15])"
  "blake_G [v0, v1, v2, v3, v4, v5, v6, v7, v8, v9, v10, v11, v12, v13, v14, v15] 3 4 9 14 x y = (case half2 y (half1 x (v3, v4, v9, v14)) of (a, b, c, d) \<Rightarrow> [v0, v1, v2, a, b, v5, v6, v7, v8, c, v10, v11, v12, v13, d, v15])"
  by (simp_all add: blake_G_def half1_def half2_def Let_def list_update_numeral ac_simps)

lemma F_round_halves:
  "F_round m s (v0, v1, v2, v3, v4, v5, v6, v7, v8, v9, v10, v11, v12, v13, v14, v15) =
     (let (v0, v4, v8, v12) = half1 (m (s 0)) (v0, v4, v8, v12);
          (v1, v5, v9, v13) = half1 (m (s 1)) (v1, v5, v9, v13);
          (v2, v6, v10, v14) = half1 (m (s 2)) (v2, v6, v10, v14);
          (v3, v7, v11, v15) = half1 (m (s 3)) (v3, v7, v11, v15);
          (v0, v4, v8, v12) = half2 (m (s 4)) (v0, v4, v8, v12);
          (v1, v5, v9, v13) = half2 (m (s 5)) (v1, v5, v9, v13);
          (v2, v6, v10, v14) = half2 (m (s 6)) (v2, v6, v10, v14);
          (v3, v7, v11, v15) = half2 (m (s 7)) (v3, v7, v11, v15);
          (v0, v5, v10, v15) = half1 (m (s 8)) (v0, v5, v10, v15);
          (v1, v6, v11, v12) = half1 (m (s 9)) (v1, v6, v11, v12);
          (v2, v7, v8, v13) = half1 (m (s 10)) (v2, v7, v8, v13);
          (v3, v4, v9, v14) = half1 (m (s 11)) (v3, v4, v9, v14);
          (v0, v5, v10, v15) = half2 (m (s 12)) (v0, v5, v10, v15);
          (v1, v6, v11, v12) = half2 (m (s 13)) (v1, v6, v11, v12);
          (v2, v7, v8, v13) = half2 (m (s 14)) (v2, v7, v8, v13);
          (v3, v4, v9, v14) = half2 (m (s 15)) (v3, v4, v9, v14)
      in (v0, v1, v2, v3, v4, v5, v6, v7, v8, v9, v10, v11, v12, v13, v14, v15))"
  by (simp add: F_round_def half1_def half2_def Let_def)

text \<open>One round: the code reads the permuted row.\<close>

lemma blake_round_code:
  assumes "\<And>i. i < 16 \<Longrightarrow> s i = r (row_perm ! i)"
  shows "blake_round m r (vec_list v) = vec_list (F_round m s v)"
proof -
  obtain v0 v1 v2 v3 v4 v5 v6 v7 v8 v9 v10 v11 v12 v13 v14 v15 where v: "v = (v0, v1, v2, v3, v4, v5, v6, v7, v8, v9, v10, v11, v12, v13, v14, v15)" by (cases v rule: vec_list.cases)
  have s: "r 0 = s 0" "r 1 = s 4" "r 2 = s 1" "r 3 = s 5" "r 4 = s 2" "r 5 = s 6" "r 6 = s 3" "r 7 = s 7"
    "r 8 = s 8" "r 9 = s 12" "r 10 = s 9" "r 11 = s 13" "r 12 = s 10" "r 13 = s 14" "r 14 = s 11" "r 15 = s 15"
    using assms by (simp_all add: row_perm_def)
  obtain w0_0 w0_4 w0_8 w0_12 where h0: "half1 (m (s 0)) (v0, v4, v8, v12) = (w0_0, w0_4, w0_8, w0_12)" by (metis prod_cases4)
  obtain w1_1 w1_5 w1_9 w1_13 where h1: "half1 (m (s 1)) (v1, v5, v9, v13) = (w1_1, w1_5, w1_9, w1_13)" by (metis prod_cases4)
  obtain w2_2 w2_6 w2_10 w2_14 where h2: "half1 (m (s 2)) (v2, v6, v10, v14) = (w2_2, w2_6, w2_10, w2_14)" by (metis prod_cases4)
  obtain w3_3 w3_7 w3_11 w3_15 where h3: "half1 (m (s 3)) (v3, v7, v11, v15) = (w3_3, w3_7, w3_11, w3_15)" by (metis prod_cases4)
  obtain w4_0 w4_4 w4_8 w4_12 where h4: "half2 (m (s 4)) (w0_0, w0_4, w0_8, w0_12) = (w4_0, w4_4, w4_8, w4_12)" by (metis prod_cases4)
  obtain w5_1 w5_5 w5_9 w5_13 where h5: "half2 (m (s 5)) (w1_1, w1_5, w1_9, w1_13) = (w5_1, w5_5, w5_9, w5_13)" by (metis prod_cases4)
  obtain w6_2 w6_6 w6_10 w6_14 where h6: "half2 (m (s 6)) (w2_2, w2_6, w2_10, w2_14) = (w6_2, w6_6, w6_10, w6_14)" by (metis prod_cases4)
  obtain w7_3 w7_7 w7_11 w7_15 where h7: "half2 (m (s 7)) (w3_3, w3_7, w3_11, w3_15) = (w7_3, w7_7, w7_11, w7_15)" by (metis prod_cases4)
  obtain w8_0 w8_5 w8_10 w8_15 where h8: "half1 (m (s 8)) (w4_0, w5_5, w6_10, w7_15) = (w8_0, w8_5, w8_10, w8_15)" by (metis prod_cases4)
  obtain w9_1 w9_6 w9_11 w9_12 where h9: "half1 (m (s 9)) (w5_1, w6_6, w7_11, w4_12) = (w9_1, w9_6, w9_11, w9_12)" by (metis prod_cases4)
  obtain w10_2 w10_7 w10_8 w10_13 where h10: "half1 (m (s 10)) (w6_2, w7_7, w4_8, w5_13) = (w10_2, w10_7, w10_8, w10_13)" by (metis prod_cases4)
  obtain w11_3 w11_4 w11_9 w11_14 where h11: "half1 (m (s 11)) (w7_3, w4_4, w5_9, w6_14) = (w11_3, w11_4, w11_9, w11_14)" by (metis prod_cases4)
  obtain w12_0 w12_5 w12_10 w12_15 where h12: "half2 (m (s 12)) (w8_0, w8_5, w8_10, w8_15) = (w12_0, w12_5, w12_10, w12_15)" by (metis prod_cases4)
  obtain w13_1 w13_6 w13_11 w13_12 where h13: "half2 (m (s 13)) (w9_1, w9_6, w9_11, w9_12) = (w13_1, w13_6, w13_11, w13_12)" by (metis prod_cases4)
  obtain w14_2 w14_7 w14_8 w14_13 where h14: "half2 (m (s 14)) (w10_2, w10_7, w10_8, w10_13) = (w14_2, w14_7, w14_8, w14_13)" by (metis prod_cases4)
  obtain w15_3 w15_4 w15_9 w15_14 where h15: "half2 (m (s 15)) (w11_3, w11_4, w11_9, w11_14) = (w15_3, w15_4, w15_9, w15_14)" by (metis prod_cases4)
  show ?thesis
    unfolding v vec_list.simps blake_round_def s blake_G_halves Let_def F_round_halves h0 h1 h2 h3 h4 h5 h6 h7 h8 h9 h10 h11 h12 h13 h14 h15 prod.case ..
qed

lemma blake_rounds_code:
  "foldl (\<lambda>v i. blake_round m (\<lambda>k. sigma_table ! (i mod 10) ! k) v) (vec_list v) [j..<j + n] = vec_list (F_loop m j n v)"
proof (induction n arbitrary: j v)
  case (Suc n)
  have "blake_round m (\<lambda>k. sigma_table ! (j mod 10) ! k) (vec_list v) = vec_list (F_round m (\<lambda>i. precomputed ! (j mod 10) ! i) v)"
    by (rule blake_round_code) (simp add: precomputed_sigma)
  moreover have "[j..<j + Suc n] = j # [Suc j..<Suc j + n]" by (simp add: upt_conv_Cons del: upt_Suc)
  ultimately show ?case using Suc.IH [of _ "Suc j"] by (simp del: upt_Suc)
qed simp

lemma list_of_length8:
  assumes "length h = 8"
  obtains h0 h1 h2 h3 h4 h5 h6 h7 where "h = [h0, h1, h2, h3, h4, h5, h6, h7]"
  using assms by (auto simp: numeral_eq_Suc length_Suc_conv)



end
