(* ===== verification/Precompiled.thy ===== *)
theory Precompiled
  imports Blake2f EvmState
begin

text \<open>
  The precompiled contracts of \<open>tievm/evm/precompiled\<close>. RIPEMD-160 and the pairing curve (\<open>bn256\<close>) are
  parameters, secp256k1 and Keccak-256 are those of Crypto; SHA-256 belongs to Go's standard library and is
  written out. The shared buffer of \<open>get\<close> is copied by every caller before it is used again, so the
  functions work on values. \<open>None\<close> is a panic, and the error of a contract is \<open>Inl\<close>.
\<close>

section \<open>SHA-256\<close>

definition sha_K :: "32 word list" where
  "sha_K =
     [0x428a2f98, 0x71374491, 0xb5c0fbcf, 0xe9b5dba5, 0x3956c25b, 0x59f111f1, 0x923f82a4, 0xab1c5ed5,
      0xd807aa98, 0x12835b01, 0x243185be, 0x550c7dc3, 0x72be5d74, 0x80deb1fe, 0x9bdc06a7, 0xc19bf174,
      0xe49b69c1, 0xefbe4786, 0x0fc19dc6, 0x240ca1cc, 0x2de92c6f, 0x4a7484aa, 0x5cb0a9dc, 0x76f988da,
      0x983e5152, 0xa831c66d, 0xb00327c8, 0xbf597fc7, 0xc6e00bf3, 0xd5a79147, 0x06ca6351, 0x14292967,
      0x27b70a85, 0x2e1b2138, 0x4d2c6dfc, 0x53380d13, 0x650a7354, 0x766a0abb, 0x81c2c92e, 0x92722c85,
      0xa2bfe8a1, 0xa81a664b, 0xc24b8b70, 0xc76c51a3, 0xd192e819, 0xd6990624, 0xf40e3585, 0x106aa070,
      0x19a4c116, 0x1e376c08, 0x2748774c, 0x34b0bcb5, 0x391c0cb3, 0x4ed8aa4a, 0x5b9cca4f, 0x682e6ff3,
      0x748f82ee, 0x78a5636f, 0x84c87814, 0x8cc70208, 0x90befffa, 0xa4506ceb, 0xbef9a3f7, 0xc67178f2]"

definition sha_H :: "32 word list" where
  "sha_H = [0x6a09e667, 0xbb67ae85, 0x3c6ef372, 0xa54ff53a, 0x510e527f, 0x9b05688c, 0x1f83d9ab, 0x5be0cd19]"

definition sha_pad :: "bytes \<Rightarrow> bytes" where
  "sha_pad b = b @ [0x80] @ replicate ((119 - length b mod 64) mod 64) 0 @ be_bytes 8 (int (8 * length b))"

fun be_words :: "bytes \<Rightarrow> 32 word list" where
  "be_words (a # b # c # d # rest) = word_of_int (be_value [a, b, c, d]) # be_words rest"
| "be_words _ = []"

text \<open>The message schedule, from the most recent word to the oldest.\<close>

fun sha_extend :: "nat \<Rightarrow> 32 word list \<Rightarrow> 32 word list" where
  "sha_extend 0 w = w"
| "sha_extend (Suc n) w =
     (let x = w ! 1; y = w ! 14;
          s1 = word_rotr 17 x XOR word_rotr 19 x XOR drop_bit 10 x;
          s0 = word_rotr 7 y XOR word_rotr 18 y XOR drop_bit 3 y
      in sha_extend n ((w ! 15 + s0 + w ! 6 + s1) # w))"

definition sha_step :: "32 word list \<Rightarrow> 32 word \<times> 32 word \<Rightarrow> 32 word list" where
  "sha_step v kw =
     (let a = v ! 0; b = v ! 1; c = v ! 2; d = v ! 3; e = v ! 4; f = v ! 5; g = v ! 6; h = v ! 7;
          t1 = h + (word_rotr 6 e XOR word_rotr 11 e XOR word_rotr 25 e) + ((e AND f) XOR (NOT e AND g)) + fst kw + snd kw;
          t2 = (word_rotr 2 a XOR word_rotr 13 a XOR word_rotr 22 a) + ((a AND b) XOR (a AND c) XOR (b AND c))
      in [t1 + t2, a, b, c, d + t1, e, f, g])"

definition sha_block :: "32 word list \<Rightarrow> bytes \<Rightarrow> 32 word list" where
  "sha_block h b = map2 (+) h (foldl sha_step h (zip sha_K (rev (sha_extend 48 (rev (be_words b))))))"

function sha_blocks :: "32 word list \<Rightarrow> bytes \<Rightarrow> 32 word list" where
  "sha_blocks h b = (if length b < 64 then h else sha_blocks (sha_block h (take 64 b)) (drop 64 b))"
  by pat_completeness auto
termination
  by (relation "measure (\<lambda>(h, b). length b)") auto

declare sha_blocks.simps [simp del]

definition Sum256 :: "bytes \<Rightarrow> bytes" where
  "Sum256 b = concat (map (\<lambda>w. be_bytes 4 (uint w)) (sha_blocks sha_H (sha_pad b)))"

section \<open>Reading the input\<close>

record ('g1, 'g2, 'prv, 'pub) pre_env =
  ripemd160 :: "bytes \<Rightarrow> bytes"
  G1_Unmarshal :: "bytes \<Rightarrow> 'g1 option"
  G1_Marshal :: "'g1 \<Rightarrow> bytes"
  G1_Add :: "'g1 \<Rightarrow> 'g1 \<Rightarrow> 'g1"
  G1_ScalarMult :: "'g1 \<Rightarrow> int \<Rightarrow> 'g1"
  G2_Unmarshal :: "bytes \<Rightarrow> 'g2 option"
  PairingCheck :: "'g1 list \<Rightarrow> 'g2 list \<Rightarrow> bool"
  preCurve :: "('prv, 'pub) curve"

definition leftPad :: "bytes \<Rightarrow> nat \<Rightarrow> bytes" where
  "leftPad buf n = (let l = length buf in if l > n then buf else replicate (n - l) 0 @ buf)"

text \<open>
  The first \<open>size\<close> bytes, filled up with zeros, and the rest of the input. A negative size and one beyond
  the address space of the runtime (\<open>2 ^ 48\<close> bytes) make the allocation panic.
\<close>

definition pre_get :: "bytes \<Rightarrow> int \<Rightarrow> (bytes \<times> bytes) option" where
  "pre_get input size' =
     (if size' < 0 \<or> 2 ^ 48 < size' then None
      else let n = (if length input < nat size' then length input else nat size')
           in Some (take n input @ replicate (nat size' - n) 0, drop n input))"

definition getUint64 :: "bytes \<Rightarrow> (u64 \<times> bytes) option" where
  "getUint64 input = do { (buf, input) \<leftarrow> pre_get input 32; Some (word_of_int (be_value (drop 24 buf)), input) }"

type_synonym pre_result = "(unit + bytes) option"

section \<open>The basic contracts\<close>

definition baseGasCalc :: "bytes \<Rightarrow> u64 \<Rightarrow> u64 \<Rightarrow> u64" where
  "baseGasCalc input base word = base + of_nat (length input + 31) div 32 * word"

definition ecrecover_run :: "('g1, 'g2, 'prv, 'pub) pre_env \<Rightarrow> bytes \<Rightarrow> pre_result" where
  "ecrecover_run P input = do {
     (input, _) \<leftarrow> pre_get input 128;
     if \<exists>i\<in>set [32..<63]. input ! i \<noteq> 0 then Some (Inr [])
     else let v = input ! 63 - 27; r = SetBytes (take 32 (drop 64 input)); s = SetBytes (take 32 (drop 96 input)) in
     if \<not> ValidateSignatureValues v (Some r) (Some s) then Some (Inr [])
     else case Ecrecover (preCurve P) (take 32 input) (take 64 (drop 64 input) @ [v]) of
            Panic \<Rightarrow> None
          | Error \<Rightarrow> Some (Inr [])
          | Ret pubKey \<Rightarrow> Some (Inr (leftPad (drop 12 (Keccak256 (preCurve P) [drop 1 pubKey])) 32))
   }"

definition identity_run :: "bytes \<Rightarrow> pre_result" where
  "identity_run input = Some (Inr input)"

definition sha256h_run :: "bytes \<Rightarrow> pre_result" where
  "sha256h_run input = Some (Inr (Sum256 input))"

definition ripemd160h_run :: "('g1, 'g2, 'prv, 'pub) pre_env \<Rightarrow> bytes \<Rightarrow> pre_result" where
  "ripemd160h_run P input = Some (Inr (leftPad (ripemd160 P input) 32))"

section \<open>Modular exponentiation\<close>

definition adjustedExponentLength :: "int \<Rightarrow> int \<Rightarrow> int" where
  "adjustedExponentLength expLen head =
     (let bitlength = (if head \<noteq> 0 then int (BitLen head - 1) else 0)
      in if expLen \<le> 32 then bitlength else (expLen - 32) * 8 + bitlength)"

definition subMul :: "int \<Rightarrow> int \<Rightarrow> int \<Rightarrow> int \<Rightarrow> int" where
  "subMul x a b c = x * b - c + x * x div a"

definition multComplexity :: "int \<Rightarrow> int" where
  "multComplexity x =
     (if x \<le> 64 then x * x
      else if x \<le> 1024 then subMul x 4 96 3072
      else subMul x 16 480 199680)"

definition modExp_gas :: "bytes \<Rightarrow> u64 option" where
  "modExp_gas input = do {
     (val, tail) \<leftarrow> pre_get input 32;
     let baseLen = SetBytes val;
     (val, tail) \<leftarrow> pre_get tail 32;
     let expLen = SetBytes val;
     (val, _) \<leftarrow> pre_get tail 32;
     let modLen = SetBytes val;
     let input = (if length input > 96 then drop 96 input else []);
     let expHeadLen = (if expLen < 32 then big_Uint64 expLen else 32);
     let bLen = big_Uint64 baseLen;
     expHead \<leftarrow> (if bLen < of_nat (length input)
                then do { (val, _) \<leftarrow> pre_get (drop (unat bLen) input) (uint expHeadLen); Some (SetBytes val) }
                else Some 0);
     let gasCost = multComplexity (if modLen \<ge> baseLen then modLen else baseLen);
     let adjExpLen = adjustedExponentLength expLen expHead;
     let gasCost = (if adjExpLen \<ge> 1 then gasCost * adjExpLen else gasCost * 1);
     let gasCost = gasCost div 20;
     Some (if \<not> IsUint64 gasCost then - 1 else big_Uint64 gasCost)
   }"

definition modExp_result :: "int \<Rightarrow> int \<Rightarrow> int \<Rightarrow> nat \<Rightarrow> bytes" where
  "modExp_result base exponent modulus n =
     leftPad (if modulus \<noteq> 0 then big_Bytes (base ^ nat exponent mod modulus) else []) n"

definition modExp_run :: "bytes \<Rightarrow> pre_result" where
  "modExp_run input = do {
     (baseLen, input) \<leftarrow> getUint64 input;
     (exponentLen, input) \<leftarrow> getUint64 input;
     (modulusLen, input) \<leftarrow> getUint64 input;
     if baseLen = 0 \<and> modulusLen = 0 then Some (Inr [])
     else do {
       (val, input) \<leftarrow> pre_get input (sint baseLen);
       let base = SetBytes val;
       (val, input) \<leftarrow> pre_get input (sint exponentLen);
       let exponent = SetBytes val;
       (val, _) \<leftarrow> pre_get input (sint modulusLen);
       let modulus = SetBytes val;
       Some (Inr (modExp_result base exponent modulus (nat (sint modulusLen))))
     }
   }"

section \<open>The pairing curve\<close>

definition bn256Add_run :: "('g1, 'g2, 'prv, 'pub) pre_env \<Rightarrow> bytes \<Rightarrow> pre_result" where
  "bn256Add_run P input = do {
     (val, input) \<leftarrow> pre_get input 64;
     case G1_Unmarshal P val of
       None \<Rightarrow> Some (Inl ())
     | Some b1 \<Rightarrow> do {
         (val, _) \<leftarrow> pre_get input 64;
         case G1_Unmarshal P val of
           None \<Rightarrow> Some (Inl ())
         | Some b2 \<Rightarrow> Some (Inr (G1_Marshal P (G1_Add P b1 b2)))
       }
   }"

definition bn256Mul_run :: "('g1, 'g2, 'prv, 'pub) pre_env \<Rightarrow> bytes \<Rightarrow> pre_result" where
  "bn256Mul_run P input = do {
     (v, input) \<leftarrow> pre_get input 64;
     case G1_Unmarshal P v of
       None \<Rightarrow> Some (Inl ())
     | Some b0 \<Rightarrow> do { (v, _) \<leftarrow> pre_get input 32; Some (Inr (G1_Marshal P (G1_ScalarMult P b0 (SetBytes v)))) }
   }"

definition trueBytes :: bytes where "trueBytes = replicate 31 0 @ [1]"
definition falseBytes :: bytes where "falseBytes = replicate 32 0"

fun pairing_points :: "('g1, 'g2, 'prv, 'pub) pre_env \<Rightarrow> nat \<Rightarrow> bytes \<Rightarrow> (unit + ('g1 \<times> 'g2) list) option" where
  "pairing_points P 0 input = Some (Inr [])"
| "pairing_points P (Suc n) input = do {
     (buf, input) \<leftarrow> pre_get input 64;
     case G1_Unmarshal P buf of
       None \<Rightarrow> Some (Inl ())
     | Some a0 \<Rightarrow> do {
         (buf, input) \<leftarrow> pre_get input 128;
         case G2_Unmarshal P buf of
           None \<Rightarrow> Some (Inl ())
         | Some b0 \<Rightarrow> do {
             rest \<leftarrow> pairing_points P n input;
             Some (case rest of Inl u \<Rightarrow> Inl u | Inr ps \<Rightarrow> Inr ((a0, b0) # ps))
           }
       }
   }"

definition bn256Pairing_run :: "('g1, 'g2, 'prv, 'pub) pre_env \<Rightarrow> bytes \<Rightarrow> pre_result" where
  "bn256Pairing_run P input =
     (if length input = 0 then Some (Inr trueBytes)
      else if length input mod 192 \<noteq> 0 then Some (Inl ())
      else do {
        ps \<leftarrow> pairing_points P (length input div 192) input;
        Some (case ps of
                Inl u \<Rightarrow> Inl u
              | Inr ps \<Rightarrow> Inr (if PairingCheck P (map fst ps) (map snd ps) then trueBytes else falseBytes))
      })"

section \<open>BLAKE2\<close>

fun le_u64s :: "nat \<Rightarrow> bytes \<Rightarrow> u64 list" where
  "le_u64s 0 b = []"
| "le_u64s (Suc n) b = word_of_int (be_value (rev (take 8 b))) # le_u64s n (drop 8 b)"

definition blake2f_gas :: "bytes \<Rightarrow> u64" where
  "blake2f_gas input = (if length input \<noteq> 213 then 0 else word_of_int (be_value (take 4 input)))"

definition blake2f_run :: "bytes \<Rightarrow> pre_result" where
  "blake2f_run input =
     (if length input \<noteq> 213 then Some (Inl ())
      else if input ! 212 \<noteq> 0 \<and> input ! 212 \<noteq> 1 then Some (Inl ())
      else let rounds = word_of_int (be_value (take 4 input)); input = drop 4 input;
               h = le_u64s 8 input; input = drop 64 input;
               m = le_u64s 16 input; input = drop 128 input;
               c = le_u64s 2 input;
               flag = input ! 16;
               h = F_compress h m c (flag = 1) rounds
           in Some (Inr (concat (map (\<lambda>w. rev (be_bytes 8 (uint w))) h))))"

section \<open>The runtime\<close>

datatype pre_contract = ecrecover | sha256h | ripemd160h | identity | modExp | bn256Add | bn256Mul | bn256Pairing | blake2f

definition setupContracts :: "(address \<times> pre_contract) list" where
  "setupContracts =
     [(StringToAddress ''1'', ecrecover), (StringToAddress ''2'', sha256h), (StringToAddress ''3'', ripemd160h),
      (StringToAddress ''4'', identity), (StringToAddress ''5'', modExp), (StringToAddress ''6'', bn256Add),
      (StringToAddress ''7'', bn256Mul), (StringToAddress ''8'', bn256Pairing), (StringToAddress ''9'', blake2f)]"

definition pre_contracts :: "address \<Rightarrow> pre_contract option" where
  "pre_contracts addr = map_of setupContracts addr"

definition pre_CanRun :: "Contract \<Rightarrow> ForksInTime \<Rightarrow> bool" where
  "pre_CanRun c config =
     (if pre_contracts (cCodeAddress c) = None then False
      else if cCodeAddress c \<in> {StringToAddress ''5'', StringToAddress ''6'', StringToAddress ''7'', StringToAddress ''8''}
      then Byzantium config
      else if cCodeAddress c = StringToAddress ''9'' then Istanbul config
      else True)"

text \<open>The prices. \<open>None\<close>: a panic.\<close>

definition ecrecover_gas :: "bytes \<Rightarrow> ForksInTime \<Rightarrow> u64" where "ecrecover_gas input config = 3000"
definition identity_gas :: "bytes \<Rightarrow> ForksInTime \<Rightarrow> u64" where "identity_gas input config = baseGasCalc input 15 3"
definition sha256h_gas :: "bytes \<Rightarrow> ForksInTime \<Rightarrow> u64" where "sha256h_gas input config = baseGasCalc input 60 12"
definition ripemd160h_gas :: "bytes \<Rightarrow> ForksInTime \<Rightarrow> u64" where "ripemd160h_gas input config = baseGasCalc input 600 120"

definition bn256Add_gas :: "bytes \<Rightarrow> ForksInTime \<Rightarrow> u64" where
  "bn256Add_gas input config = (if Istanbul config then 150 else 500)"

definition bn256Mul_gas :: "bytes \<Rightarrow> ForksInTime \<Rightarrow> u64" where
  "bn256Mul_gas input config = (if Istanbul config then 6000 else 40000)"

definition bn256Pairing_gas :: "bytes \<Rightarrow> ForksInTime \<Rightarrow> u64" where
  "bn256Pairing_gas input config =
     (let (baseGas, pointGas) = (if Istanbul config then (45000, 34000) else (100000, 80000))
      in baseGas + pointGas * of_nat (length input div 192))"

definition pre_gas :: "pre_contract \<Rightarrow> bytes \<Rightarrow> ForksInTime \<Rightarrow> u64 option" where
  "pre_gas k input config =
     (case k of
        ecrecover \<Rightarrow> Some (ecrecover_gas input config)
      | sha256h \<Rightarrow> Some (sha256h_gas input config)
      | ripemd160h \<Rightarrow> Some (ripemd160h_gas input config)
      | identity \<Rightarrow> Some (identity_gas input config)
      | modExp \<Rightarrow> modExp_gas input
      | bn256Add \<Rightarrow> Some (bn256Add_gas input config)
      | bn256Mul \<Rightarrow> Some (bn256Mul_gas input config)
      | bn256Pairing \<Rightarrow> Some (bn256Pairing_gas input config)
      | blake2f \<Rightarrow> Some (blake2f_gas input))"

definition pre_run :: "('g1, 'g2, 'prv, 'pub) pre_env \<Rightarrow> pre_contract \<Rightarrow> bytes \<Rightarrow> pre_result" where
  "pre_run P k input =
     (case k of
        ecrecover \<Rightarrow> ecrecover_run P input
      | sha256h \<Rightarrow> sha256h_run input
      | ripemd160h \<Rightarrow> ripemd160h_run P input
      | identity \<Rightarrow> identity_run input
      | modExp \<Rightarrow> modExp_run input
      | bn256Add \<Rightarrow> bn256Add_run P input
      | bn256Mul \<Rightarrow> bn256Mul_run P input
      | bn256Pairing \<Rightarrow> bn256Pairing_run P input
      | blake2f \<Rightarrow> blake2f_run input)"

text \<open>\<open>Precompiled.Run\<close>; a nil contract is dereferenced unless \<open>CanRun\<close> holds.\<close>

definition Precompiled_Run ::
  "('g1, 'g2, 'prv, 'pub) pre_env \<Rightarrow> Contract \<Rightarrow> ForksInTime \<Rightarrow> ExecutionResult option" where
  "Precompiled_Run P c config = do {
     contract \<leftarrow> pre_contracts (cCodeAddress c);
     gasCost \<leftarrow> pre_gas contract (cInput c) config;
     if cGas c < gasCost then Some \<lparr>rReturnValue = [], rGasLeft = 0, rGasUsed = 0, rErr = Some ErrOutOfGas\<rparr>
     else do {
       res \<leftarrow> pre_run P contract (cInput c);
       Some (case res of
               Inl _ \<Rightarrow> \<lparr>rReturnValue = [], rGasLeft = 0, rGasUsed = 0, rErr = Some errPrecompiled\<rparr>
             | Inr returnValue \<Rightarrow> \<lparr>rReturnValue = returnValue, rGasLeft = cGas c - gasCost, rGasUsed = 0, rErr = None\<rparr>)
     }
   }"

section \<open>Results and gas\<close>

definition pre_laws :: "('g1, 'g2, 'prv, 'pub) pre_env \<Rightarrow> bool" where
  "pre_laws P \<longleftrightarrow> (\<forall>b. length (ripemd160 P b) = 20) \<and> (\<forall>g. length (G1_Marshal P g) = 64) \<and>
     (\<forall>b. length (keccak (preCurve P) b) = 32)"

lemma length_leftPad: "length (leftPad b n) = max (length b) n"
  by (simp add: leftPad_def Let_def)

lemma pre_get_length: "pre_get input n = Some (b, rest) \<Longrightarrow> int (length b) = n \<and> n \<le> 2 ^ 48"
  by (auto simp: pre_get_def Let_def split: if_splits)

lemma length_big_Bytes_mod:
  assumes "0 < m" "m \<le> 256 ^ k"
  shows "length (big_Bytes (x mod m)) \<le> k"
proof -
  have "x mod m < 256 ^ k" using pos_mod_bound [OF assms(1), of x] assms(2) by linarith
  moreover have "0 \<le> x mod m" using assms(1) by simp
  ultimately have "nat \<bar>x mod m\<bar> < 256 ^ k" by (simp add: nat_less_iff)
  then show ?thesis unfolding big_Bytes_def by (rule length_nat_bytes)
qed

lemma length_Sum256: "length (Sum256 b) = 4 * length (sha_blocks sha_H (sha_pad b))"
  by (simp add: Sum256_def length_concat comp_def sum_list_triv)

lemma length_sha_step: "length (sha_step v kw) = 8"
  by (simp add: sha_step_def Let_def)

lemma length_sha_fold: "length v = 8 \<Longrightarrow> length (foldl sha_step v xs) = 8"
  by (induction xs arbitrary: v) (simp_all add: length_sha_step)

lemma length_sha_blocks: "length h = 8 \<Longrightarrow> length (sha_blocks h b) = 8"
proof (induction h b rule: sha_blocks.induct)
  case (1 h b)
  then show ?case by (subst sha_blocks.simps) (simp add: sha_block_def length_sha_fold)
qed

lemma length_Sum256_32: "length (Sum256 b) = 32"
  by (simp add: length_Sum256 length_sha_blocks sha_H_def)

lemma modExp_result_length: "length (modExp_result base e (SetBytes val) (length val)) = length val"
proof (cases "SetBytes val = 0")
  case False
  then have "length (big_Bytes (base ^ nat e mod SetBytes val)) \<le> length val"
    using be_value_less [of val] be_value_nonneg [of val] by (intro length_big_Bytes_mod) (auto simp: SetBytes_def less_le)
  then show ?thesis by (simp add: modExp_result_def length_leftPad)
qed (simp add: modExp_result_def length_leftPad)

lemma modExp_run_length: "modExp_run input = Some (Inr b) \<Longrightarrow> length b \<le> 2 ^ 48"
proof -
  assume r: "modExp_run input = Some (Inr b)"
  show ?thesis
  proof (cases "b = []")
    case False
    from r False obtain ml val rest rest' base e where v: "pre_get rest (sint (ml :: u64)) = Some (val, rest')"
      "b = modExp_result base e (SetBytes val) (nat (sint ml))"
      by (auto simp: modExp_run_def Let_def bind_eq_Some_conv split: if_splits)
    have l: "int (length val) = sint ml" "sint ml \<le> 2 ^ 48" using pre_get_length [OF v(1)] by auto
    then have n: "nat (sint ml) = length val" by linarith
    show ?thesis using l by (simp add: v(2) n modExp_result_length)
  qed simp
qed

lemma sum_case_cases:
  assumes "(case x of Inl u \<Rightarrow> f u | Inr v \<Rightarrow> g v) = y"
  obtains u where "x = Inl u" "f u = y" | v where "x = Inr v" "g v = y"
  using assms by (cases x) auto

lemma pre_run_length:
  assumes "pre_laws P" "pre_run P k input = Some res" "length input < 2 ^ 62" "res = Inr b"
  shows "length b < 2 ^ 62"
proof (cases k)
  case blake2f
  then show ?thesis using assms(2,4)
    by (auto simp: pre_run_def blake2f_run_def Let_def F_compress_def split: if_splits prod.splits)
next
  case bn256Pairing
  have l: "length trueBytes = 32" "length falseBytes = 32" by (simp_all add: trueBytes_def falseBytes_def)
  from bn256Pairing assms(2,4) have "b = trueBytes \<or> (\<exists>ps. b = (if PairingCheck P (map fst ps) (map snd ps) then trueBytes else falseBytes))"
    by (auto simp: pre_run_def bn256Pairing_run_def bind_eq_Some_conv split: if_split_asm elim!: sum_case_cases)
  with l show ?thesis by auto
next
  case modExp
  then show ?thesis using assms(2,4) modExp_run_length [of input b] by (simp add: pre_run_def)
next
  case ecrecover
  define Z where "Z input \<longleftrightarrow> (\<exists>i\<in>set [32..<63]. input ! i \<noteq> (0 :: u8))" for input
  from ecrecover assms have "b = [] \<or> (\<exists>x. b = leftPad (drop 12 (Keccak256 (preCurve P) [x])) 32)"
    unfolding pre_run_def ecrecover_run_def Z_def [symmetric] by (auto simp: bind_eq_Some_conv Let_def split: if_splits go.splits)
  then show ?thesis using assms(1) by (auto simp: pre_laws_def Keccak256_def length_leftPad)
next
  case bn256Add
  then show ?thesis using assms by (auto simp: pre_run_def bn256Add_run_def pre_laws_def bind_eq_Some_conv split: option.splits)
next
  case bn256Mul
  then show ?thesis using assms by (auto simp: pre_run_def bn256Mul_run_def pre_laws_def bind_eq_Some_conv split: option.splits)
qed (use assms in \<open>auto simp: pre_run_def sha256h_run_def ripemd160h_run_def identity_run_def pre_laws_def length_leftPad length_Sum256_32\<close>)

lemma Precompiled_Run_bounds:
  assumes "pre_laws P" "length (cInput c) < 2 ^ 62" "Precompiled_Run P c config = Some r"
  shows "rGasLeft r \<le> cGas c \<and> length (rReturnValue r) < 2 ^ 62"
proof -
  from assms(3) obtain k cost where k: "pre_contracts (cCodeAddress c) = Some k" "pre_gas k (cInput c) config = Some cost"
    by (auto simp: Precompiled_Run_def bind_eq_Some_conv)
  consider "cGas c < cost" | res where "cost \<le> cGas c" "pre_run P k (cInput c) = Some res"
    using assms(3) by (auto simp: Precompiled_Run_def k bind_eq_Some_conv not_less split: if_splits)
  then show ?thesis
  proof cases
    case 1
    then show ?thesis using assms(3) by (auto simp: Precompiled_Run_def k)
  next
    case (2 res)
    then have "Some r = Some (case res of
           Inl _ \<Rightarrow> \<lparr>rReturnValue = [], rGasLeft = 0, rGasUsed = 0, rErr = Some errPrecompiled\<rparr>
         | Inr returnValue \<Rightarrow> \<lparr>rReturnValue = returnValue, rGasLeft = cGas c - cost, rGasUsed = 0, rErr = None\<rparr>)"
      using assms(3) by (simp add: Precompiled_Run_def k linorder_not_less [THEN iffD2])
    then show ?thesis using pre_run_length [OF assms(1) 2(2)] 2(1) assms(2) by (cases res) (auto simp: word_sub_le 2(2))
  qed
qed

section \<open>Modular exponentiation\<close>

lemma pre_get_append: "length xs \<le> 2 ^ 48 \<Longrightarrow> pre_get (xs @ rest) (int (length xs)) = Some (xs, rest)"
  by (auto simp: pre_get_def Let_def)

lemma be_value_drop_mod: "be_value (drop n b) = be_value b mod 256 ^ (length b - n)"
proof -
  have "be_value b = be_value (take n b) * 256 ^ (length b - n) + be_value (drop n b)"
    using be_value_append [of "take n b" "drop n b"] by simp
  then show ?thesis using be_value_less [of "drop n b"] by simp
qed

lemma small_length:
  assumes "length xs \<le> 2 ^ 48"
  shows "sint (of_nat (length xs) :: u64) = int (length xs)" "length xs < 2 ^ 64" "(of_nat (length xs) :: u64) = 0 \<longleftrightarrow> xs = []"
proof -
  have "int (length xs) \<le> int (2 ^ 48)" using assms by (simp only: of_nat_le_iff)
  then have l: "int (length xs) < 2 ^ 63" by simp
  show s: "sint (of_nat (length xs) :: u64) = int (length xs)"
    unfolding signed_of_nat using l by (subst signed_take_bit_int_eq_self) simp_all
  show "length xs < 2 ^ 64" using assms by simp
  show "(of_nat (length xs) :: u64) = 0 \<longleftrightarrow> xs = []"
  proof
    assume "(of_nat (length xs) :: u64) = 0"
    then show "xs = []" using s by simp
  qed simp
qed

lemma getUint64_be_bytes:
  assumes "n < 2 ^ 64"
  shows "getUint64 (be_bytes 32 (int n) @ rest) = Some (of_nat n, rest)"
proof -
  have n: "int n mod 256 ^ 32 mod 256 ^ 8 = int n" using assms by simp
  have "pre_get (be_bytes 32 (int n) @ rest) 32 = Some (be_bytes 32 (int n), rest)"
    using pre_get_append [of "be_bytes 32 (int n)" rest] by simp
  then show ?thesis using n by (simp add: getUint64_def be_value_drop_mod be_value_be_bytes del: be_bytes.simps)
qed

text \<open>The input of the contract as EIP-198 lays it out.\<close>

definition modexp_input :: "bytes \<Rightarrow> bytes \<Rightarrow> bytes \<Rightarrow> bytes" where
  "modexp_input B E M =
     be_bytes 32 (int (length B)) @ be_bytes 32 (int (length E)) @ be_bytes 32 (int (length M)) @ B @ E @ M"

text \<open>C10. The MODEXP contract reads the three lengths and the three numbers of its input and returns the
  power of the base to the exponent modulo the modulus, as a big-endian number of exactly the length of the
  modulus; a modulus of zero gives zero.\<close>

theorem modexp_computes_power:
  fixes B E M :: bytes
  assumes "length B \<le> 2 ^ 48" "length E \<le> 2 ^ 48" "length M \<le> 2 ^ 48"
  shows "\<exists>r. modExp_run (modexp_input B E M) = Some (Inr r) \<and> length r = length M \<and>
    be_value r = (if be_value M = 0 then 0 else be_value B ^ nat (be_value E) mod be_value M)"
proof (cases "B = [] \<and> M = []")
  case True
  then show ?thesis using assms(2) getUint64_be_bytes [of 0]
    by (simp add: modexp_input_def modExp_run_def getUint64_be_bytes del: be_bytes.simps)
next
  case False
  have s: "sint (of_nat (length xs) :: u64) = int (length xs)" "length xs < 2 ^ 64" "(of_nat (length xs) :: u64) = 0 \<longleftrightarrow> xs = []"
    if "length xs \<le> 2 ^ 48" for xs :: bytes
    using small_length [OF that] by auto
  define r where "r = modExp_result (be_value B) (be_value E) (be_value M) (length M)"
  have "modExp_run (modexp_input B E M) = Some (Inr r)"
    using False pre_get_append [of B] pre_get_append [of E] pre_get_append [of M "[]"] assms(1-3)
    by (simp add: modexp_input_def modExp_run_def getUint64_be_bytes s SetBytes_def r_def del: be_bytes.simps) blast
  moreover have "length r = length M" using modExp_result_length [of _ _ M] by (simp add: r_def SetBytes_def)
  moreover have "be_value r = (if be_value M = 0 then 0 else be_value B ^ nat (be_value E) mod be_value M)"
  proof -
    have z: "be_value (replicate n 0) = 0" for n using be_value_replicate_0 [of n "[]"] by simp
    have "0 \<le> be_value B ^ nat (be_value E) mod be_value M"
      by (cases "be_value M = 0") (simp_all add: less_le)
    then show ?thesis using SetBytes_big_Bytes [of "be_value B ^ nat (be_value E) mod be_value M"]
      by (simp add: r_def modExp_result_def leftPad_def Let_def SetBytes_def z)
  qed
  ultimately show ?thesis by blast
qed

theorem modexp_computes_power_witness:
  "\<exists>r. modExp_run (modexp_input [3] [5] [1, 0]) = Some (Inr r) \<and> length r = Suc (Suc 0) \<and> be_value r = 243"
  using modexp_computes_power [of "[3]" "[5]" "[1, 0]"] by (simp add: be_value_Cons)

end
