(* ===== verification/StateTxn.thy ===== *)
theory StateTxn
  imports EvmTypes
begin

text \<open>
  The state of the accounts during the execution of a block: \<open>state/state.go\<close> and \<open>state/txn.go\<close>. A \<open>Txn\<close> is
  a layer of changed accounts over a snapshot of the state trie. The immutable radix tree
  (\<open>go-immutable-radix\<close>) that holds the layer, the code cache (\<open>golang-lru\<close>) and the interfaces \<open>State\<close> and
  \<open>Snapshot\<close> are records of operations. A tree transaction and the tree it commits are one value, since trees are
  persistent. The objects of the tree are copied before they are changed, so they are values here.
\<close>

section \<open>Libraries and interfaces\<close>

record ('t, 'v) iradix =
  irNew :: 't
  irGet :: "bytes \<Rightarrow> 't \<Rightarrow> 'v option"
  irInsert :: "bytes \<Rightarrow> 'v \<Rightarrow> 't \<Rightarrow> 't"
  irDelete :: "bytes \<Rightarrow> 't \<Rightarrow> 't"
  irWalk :: "'t \<Rightarrow> (bytes \<times> 'v) list"

definition iradix_laws :: "('t, 'v) iradix \<Rightarrow> bool" where
  "iradix_laws I \<longleftrightarrow>
     (\<forall>k. irGet I k (irNew I) = None) \<and>
     (\<forall>k k' v t. irGet I k' (irInsert I k v t) = (if k' = k then Some v else irGet I k' t)) \<and>
     (\<forall>k k' t. irGet I k' (irDelete I k t) = (if k' = k then None else irGet I k' t)) \<and>
     (\<forall>t. distinct (map fst (irWalk I t)) \<and> map_of (irWalk I t) = (\<lambda>k. irGet I k t))"

record 'l lru =
  lruNew :: 'l
  lruGet :: "address \<Rightarrow> 'l \<Rightarrow> bytes option \<times> 'l"
  lruAdd :: "address \<Rightarrow> bytes \<Rightarrow> 'l \<Rightarrow> 'l"

text \<open>A cache may forget any entry, but returns only what was added last for the key.\<close>

definition lru_laws :: "'l lru \<Rightarrow> bool" where
  "lru_laws L \<longleftrightarrow>
     (\<forall>k. fst (lruGet L k (lruNew L)) = None) \<and>
     (\<forall>k k' l. fst (lruGet L k' (snd (lruGet L k l))) = fst (lruGet L k' l)) \<and>
     (\<forall>k k' v l. fst (lruGet L k' (lruAdd L k v l)) \<in> {None, if k' = k then Some v else fst (lruGet L k' l)})"

section \<open>Accounts\<close>

record 'n Account =
  aNonce :: u64
  aBalance :: int
  aRoot :: hash
  aCodeHash :: bytes
  aTrie :: 'n

text \<open>The account fields as they are stored, without the trie: nonce, balance, root and code hash.\<close>

definition Account_MarshalWith :: "'v rlp_api \<Rightarrow> u64 \<times> int \<times> hash \<times> bytes \<Rightarrow> 'v" where
  "Account_MarshalWith ar acc =
     (case acc of (nonce, balance, root, codeHash) \<Rightarrow>
       NewArray ar [NewUint ar nonce, NewBigInt ar (Some balance), NewBytes ar (Hash_Bytes root), NewBytes ar codeHash])"

definition Account_UnmarshalRlp :: "'v rlp_api \<Rightarrow> bytes \<Rightarrow> (u64 \<times> int \<times> hash \<times> bytes) option" where
  "Account_UnmarshalRlp ar b = do {
     v \<leftarrow> Parse ar b;
     elems \<leftarrow> GetElems ar v;
     if length elems \<noteq> 4 then None
     else do {
       nonce \<leftarrow> GetUint64 ar (elems ! 0);
       balance \<leftarrow> GetBigInt ar (elems ! 1);
       root \<leftarrow> GetHash ar (elems ! 2);
       codeHash \<leftarrow> GetBytes ar (elems ! 3);
       Some (nonce, balance, BytesToHash root, codeHash)
     }
   }"

definition Account_Copy :: "'n Account \<Rightarrow> 'n Account" where
  "Account_Copy a = a\<lparr>aBalance := SetBytes (big_Bytes (aBalance a))\<rparr>"

record ('s, 'n) StateObject =
  oAccount :: "'n Account"
  oCode :: bytes
  oSuicide :: bool
  oDeleted :: bool
  oDirtyCode :: bool
  oTxn :: "'s option"

definition StateObject_Copy :: "('s, 'n) StateObject \<Rightarrow> ('s, 'n) StateObject" where
  "StateObject_Copy s = s\<lparr>oAccount := Account_Copy (oAccount s)\<rparr>"

text \<open>What the tree holds: accounts under their address, the logs and the refund under fixed keys.\<close>

datatype ('s, 'n) entry = EObject "('s, 'n) StateObject" | ELogs "Log list" | ERefund u64

record StorageObject =
  soDeleted :: bool
  soKey :: bytes
  soVal :: bytes

record Object =
  obAddress :: address
  obCodeHash :: hash
  obBalance :: int
  obRoot :: hash
  obNonce :: u64
  obDeleted :: bool
  obDirtyCode :: bool
  obCode :: bytes
  obStorage :: "StorageObject list"

text \<open>The interfaces \<open>State\<close> and \<open>Snapshot\<close>, over a database of type \<open>'d\<close> and snapshots of type \<open>'n\<close>.\<close>

record ('d, 'n) StateApi =
  NewSnapshotAt :: "hash \<Rightarrow> 'd \<Rightarrow> 'n option"
  NewSnapshot :: 'n
  state_GetCode :: "hash \<Rightarrow> 'd \<Rightarrow> bytes option"
  snapshot_Get :: "bytes \<Rightarrow> 'n \<Rightarrow> 'd \<Rightarrow> bytes option"
  snapshot_Commit :: "Object list \<Rightarrow> 'n \<Rightarrow> 'd \<Rightarrow> ('n \<times> bytes) \<times> 'd"

record ('t, 's, 'l, 'n, 'd, 'v, 'prv, 'pub) senv =
  sTree :: "('t, ('s, 'n) entry) iradix"
  sStore :: "('s, bytes option) iradix"
  sLru :: "'l lru"
  sState :: "('d, 'n) StateApi"
  sRlp :: "'v rlp_api"
  sCurve :: "('prv, 'pub) curve"

definition emptyCodeHash :: "('t, 's, 'l, 'n, 'd, 'v, 'prv, 'pub) senv \<Rightarrow> bytes" where
  "emptyCodeHash D = Keccak256 (sCurve D) [[]]"

definition emptyStateHash :: hash where
  "emptyStateHash = StringToHash ''0x56e81f171bcc55a6ff8345e692c0f86e5b48e01b996cadc001622fb5e363b421''"

definition object_Empty :: "('t, 's, 'l, 'n, 'd, 'v, 'prv, 'pub) senv \<Rightarrow> ('s, 'n) StateObject \<Rightarrow> bool" where
  "object_Empty D s \<longleftrightarrow> aNonce (oAccount s) = 0 \<and> aBalance (oAccount s) = 0 \<and> aCodeHash (oAccount s) = emptyCodeHash D"

definition object_GetCommitedState ::
  "('t, 's, 'l, 'n, 'd, 'v, 'prv, 'pub) senv \<Rightarrow> hash \<Rightarrow> ('s, 'n) StateObject \<Rightarrow> 'd \<Rightarrow> hash" where
  "object_GetCommitedState D key s d =
     (case snapshot_Get (sState D) (Hash_Bytes key) (aTrie (oAccount s)) d of
        None \<Rightarrow> 0
      | Some val \<Rightarrow>
          (case Parse (sRlp D) val of
             None \<Rightarrow> 0
           | Some v \<Rightarrow> (case GetBytes (sRlp D) v of None \<Rightarrow> 0 | Some res \<Rightarrow> BytesToHash res)))"

section \<open>The layer of changes\<close>

record ('t, 'l, 'n, 'd) Txn =
  tSnapshot :: 'n
  tState :: 'd
  tSnapshots :: "'t list"
  tTxn :: 't
  tCodeCache :: 'l

definition newTxn :: "('t, 's, 'l, 'n, 'd, 'v, 'prv, 'pub) senv \<Rightarrow> 'd \<Rightarrow> 'n \<Rightarrow> ('t, 'l, 'n, 'd) Txn" where
  "newTxn D state snapshot =
     \<lparr>tSnapshot = snapshot, tState = state, tSnapshots = [], tTxn = irNew (sTree D), tCodeCache = lruNew (sLru D)\<rparr>"

definition logIndex :: bytes where
  "logIndex = Hash_Bytes (BytesToHash [2])"

definition refundIndex :: bytes where
  "refundIndex = Hash_Bytes (BytesToHash [3])"

definition hashit :: "('t, 's, 'l, 'n, 'd, 'v, 'prv, 'pub) senv \<Rightarrow> bytes \<Rightarrow> bytes" where
  "hashit D src = keccak (sCurve D) src"

definition txn_Snapshot :: "('t, 'l, 'n, 'd) Txn \<Rightarrow> nat \<times> ('t, 'l, 'n, 'd) Txn" where
  "txn_Snapshot txn = (length (tSnapshots txn), txn\<lparr>tSnapshots := tSnapshots txn @ [tTxn txn]\<rparr>)"

text \<open>\<open>None\<close>: the index is out of range, a panic.\<close>

definition RevertToSnapshot :: "nat \<Rightarrow> ('t, 'l, 'n, 'd) Txn \<Rightarrow> ('t, 'l, 'n, 'd) Txn option" where
  "RevertToSnapshot i txn =
     (if i < length (tSnapshots txn) then Some (txn\<lparr>tTxn := tSnapshots txn ! i\<rparr>) else None)"

text \<open>The account as the trie has it.\<close>

definition load_object ::
  "('t, 's, 'l, 'n, 'd, 'v, 'prv, 'pub) senv \<Rightarrow> address \<Rightarrow> 'n \<Rightarrow> 'd \<Rightarrow> ('s, 'n) StateObject option" where
  "load_object D addr snapshot d = do {
     data \<leftarrow> snapshot_Get (sState D) (hashit D (Address_Bytes addr)) snapshot d;
     (nonce, balance, root, codeHash) \<leftarrow> Account_UnmarshalRlp (sRlp D) data;
     trie \<leftarrow> (if root = emptyStateHash then Some (NewSnapshot (sState D)) else NewSnapshotAt (sState D) root d);
     Some \<lparr>oAccount = Account_Copy \<lparr>aNonce = nonce, aBalance = balance, aRoot = root, aCodeHash = codeHash, aTrie = trie\<rparr>,
           oCode = [], oSuicide = False, oDeleted = False, oDirtyCode = False, oTxn = None\<rparr>
   }"

text \<open>
  The type assertion on the entry under an address cannot fail: only objects are stored there
  (\<open>tree_typed\<close> of StateTxnInv). The model gives \<open>None\<close> in that case.
\<close>

definition getStateObject ::
  "('t, 's, 'l, 'n, 'd, 'v, 'prv, 'pub) senv \<Rightarrow> address \<Rightarrow> ('t, 'l, 'n, 'd) Txn \<Rightarrow> ('s, 'n) StateObject option" where
  "getStateObject D addr txn =
     (case irGet (sTree D) (Address_Bytes addr) (tTxn txn) of
        Some (EObject obj) \<Rightarrow> if oDeleted obj then None else Some (StateObject_Copy obj)
      | Some _ \<Rightarrow> None
      | None \<Rightarrow> load_object D addr (tSnapshot txn) (tState txn))"

definition newStateObject :: "('t, 's, 'l, 'n, 'd, 'v, 'prv, 'pub) senv \<Rightarrow> ('s, 'n) StateObject" where
  "newStateObject D =
     \<lparr>oAccount = \<lparr>aNonce = 0, aBalance = 0, aRoot = emptyStateHash, aCodeHash = emptyCodeHash D, aTrie = NewSnapshot (sState D)\<rparr>,
      oCode = [], oSuicide = False, oDeleted = False, oDirtyCode = False, oTxn = None\<rparr>"

definition insert_object ::
  "('t, 's, 'l, 'n, 'd, 'v, 'prv, 'pub) senv \<Rightarrow> address \<Rightarrow> ('s, 'n) StateObject \<Rightarrow> ('t, 'l, 'n, 'd) Txn \<Rightarrow> ('t, 'l, 'n, 'd) Txn" where
  "insert_object D addr obj txn = txn\<lparr>tTxn := irInsert (sTree D) (Address_Bytes addr) (EObject obj) (tTxn txn)\<rparr>"

text \<open>The callback \<open>f\<close> changes the object; on a nil object it does nothing.\<close>

definition upsertAccount ::
  "('t, 's, 'l, 'n, 'd, 'v, 'prv, 'pub) senv \<Rightarrow> address \<Rightarrow> bool \<Rightarrow> (('s, 'n) StateObject \<Rightarrow> ('s, 'n) StateObject)
    \<Rightarrow> ('t, 'l, 'n, 'd) Txn \<Rightarrow> ('t, 'l, 'n, 'd) Txn" where
  "upsertAccount D addr create f txn =
     (let object = (case getStateObject D addr txn of
                      None \<Rightarrow> if create then Some (newStateObject D) else None
                    | Some obj \<Rightarrow> Some obj)
      in case object of None \<Rightarrow> txn | Some obj \<Rightarrow> insert_object D addr (f obj) txn)"

definition map_account :: "('n Account \<Rightarrow> 'n Account) \<Rightarrow> ('s, 'n) StateObject \<Rightarrow> ('s, 'n) StateObject" where
  "map_account f obj = obj\<lparr>oAccount := f (oAccount obj)\<rparr>"

section \<open>Balances\<close>

definition AddSealingReward ::
  "('t, 's, 'l, 'n, 'd, 'v, 'prv, 'pub) senv \<Rightarrow> address \<Rightarrow> int \<Rightarrow> ('t, 'l, 'n, 'd) Txn \<Rightarrow> ('t, 'l, 'n, 'd) Txn" where
  "AddSealingReward D addr balance =
     upsertAccount D addr True (\<lambda>obj.
       if oSuicide obj then map_account (\<lambda>a. a\<lparr>aBalance := SetBytes (big_Bytes balance)\<rparr>) (newStateObject D)
       else map_account (\<lambda>a. a\<lparr>aBalance := aBalance a + balance\<rparr>) obj)"

definition AddBalance ::
  "('t, 's, 'l, 'n, 'd, 'v, 'prv, 'pub) senv \<Rightarrow> address \<Rightarrow> int \<Rightarrow> ('t, 'l, 'n, 'd) Txn \<Rightarrow> ('t, 'l, 'n, 'd) Txn" where
  "AddBalance D addr balance = upsertAccount D addr True (map_account (\<lambda>a. a\<lparr>aBalance := aBalance a + balance\<rparr>))"

definition txn_GetBalance ::
  "('t, 's, 'l, 'n, 'd, 'v, 'prv, 'pub) senv \<Rightarrow> address \<Rightarrow> ('t, 'l, 'n, 'd) Txn \<Rightarrow> int" where
  "txn_GetBalance D addr txn = (case getStateObject D addr txn of None \<Rightarrow> 0 | Some obj \<Rightarrow> aBalance (oAccount obj))"

definition SubBalance ::
  "('t, 's, 'l, 'n, 'd, 'v, 'prv, 'pub) senv \<Rightarrow> address \<Rightarrow> int \<Rightarrow> ('t, 'l, 'n, 'd) Txn
    \<Rightarrow> vm_error option \<times> ('t, 'l, 'n, 'd) Txn" where
  "SubBalance D addr amount txn =
     (if amount = 0 then (None, txn)
      else if txn_GetBalance D addr txn < amount then (Some ErrNotEnoughFunds, txn)
      else (None, upsertAccount D addr True (map_account (\<lambda>a. a\<lparr>aBalance := aBalance a - amount\<rparr>)) txn))"

definition SetBalance ::
  "('t, 's, 'l, 'n, 'd, 'v, 'prv, 'pub) senv \<Rightarrow> address \<Rightarrow> int \<Rightarrow> ('t, 'l, 'n, 'd) Txn \<Rightarrow> ('t, 'l, 'n, 'd) Txn" where
  "SetBalance D addr balance =
     upsertAccount D addr True (map_account (\<lambda>a. a\<lparr>aBalance := SetBytes (big_Bytes balance)\<rparr>))"

section \<open>Logs and refunds\<close>

definition insert_entry ::
  "('t, 's, 'l, 'n, 'd, 'v, 'prv, 'pub) senv \<Rightarrow> bytes \<Rightarrow> ('s, 'n) entry \<Rightarrow> ('t, 'l, 'n, 'd) Txn \<Rightarrow> ('t, 'l, 'n, 'd) Txn" where
  "insert_entry D k e txn = txn\<lparr>tTxn := irInsert (sTree D) k e (tTxn txn)\<rparr>"

text \<open>The logs under their key; as for accounts, the type assertion cannot fail.\<close>

definition logs_of :: "('t, 's, 'l, 'n, 'd, 'v, 'prv, 'pub) senv \<Rightarrow> ('t, 'l, 'n, 'd) Txn \<Rightarrow> Log list" where
  "logs_of D txn = (case irGet (sTree D) logIndex (tTxn txn) of Some (ELogs logs) \<Rightarrow> logs | _ \<Rightarrow> [])"

definition AddLog ::
  "('t, 's, 'l, 'n, 'd, 'v, 'prv, 'pub) senv \<Rightarrow> Log \<Rightarrow> ('t, 'l, 'n, 'd) Txn \<Rightarrow> ('t, 'l, 'n, 'd) Txn" where
  "AddLog D log txn = insert_entry D logIndex (ELogs (logs_of D txn @ [log])) txn"

definition txn_EmitLog ::
  "('t, 's, 'l, 'n, 'd, 'v, 'prv, 'pub) senv \<Rightarrow> address \<Rightarrow> hash list \<Rightarrow> bytes \<Rightarrow> ('t, 'l, 'n, 'd) Txn \<Rightarrow> ('t, 'l, 'n, 'd) Txn" where
  "txn_EmitLog D addr topics data txn =
     (let log = \<lparr>logAddress = addr, logTopics = topics, logData = data\<rparr>
      in insert_entry D logIndex (ELogs (logs_of D txn @ [log])) txn)"

definition Logs ::
  "('t, 's, 'l, 'n, 'd, 'v, 'prv, 'pub) senv \<Rightarrow> ('t, 'l, 'n, 'd) Txn \<Rightarrow> Log list \<times> ('t, 'l, 'n, 'd) Txn" where
  "Logs D txn =
     (case irGet (sTree D) logIndex (tTxn txn) of
        None \<Rightarrow> ([], txn)
      | Some _ \<Rightarrow> (logs_of D txn, txn\<lparr>tTxn := irDelete (sTree D) logIndex (tTxn txn)\<rparr>))"

definition GetRefund :: "('t, 's, 'l, 'n, 'd, 'v, 'prv, 'pub) senv \<Rightarrow> ('t, 'l, 'n, 'd) Txn \<Rightarrow> u64" where
  "GetRefund D txn = (case irGet (sTree D) refundIndex (tTxn txn) of Some (ERefund r) \<Rightarrow> r | _ \<Rightarrow> 0)"

definition AddRefund ::
  "('t, 's, 'l, 'n, 'd, 'v, 'prv, 'pub) senv \<Rightarrow> u64 \<Rightarrow> ('t, 'l, 'n, 'd) Txn \<Rightarrow> ('t, 'l, 'n, 'd) Txn" where
  "AddRefund D gas txn = insert_entry D refundIndex (ERefund (GetRefund D txn + gas)) txn"

definition SubRefund ::
  "('t, 's, 'l, 'n, 'd, 'v, 'prv, 'pub) senv \<Rightarrow> u64 \<Rightarrow> ('t, 'l, 'n, 'd) Txn \<Rightarrow> ('t, 'l, 'n, 'd) Txn" where
  "SubRefund D gas txn = insert_entry D refundIndex (ERefund (GetRefund D txn - gas)) txn"

section \<open>Storage\<close>

definition SetState ::
  "('t, 's, 'l, 'n, 'd, 'v, 'prv, 'pub) senv \<Rightarrow> address \<Rightarrow> hash \<Rightarrow> hash \<Rightarrow> ('t, 'l, 'n, 'd) Txn \<Rightarrow> ('t, 'l, 'n, 'd) Txn" where
  "SetState D addr key val =
     upsertAccount D addr True (\<lambda>obj.
       let t = (case oTxn obj of None \<Rightarrow> irNew (sStore D) | Some t \<Rightarrow> t)
       in obj\<lparr>oTxn := Some (irInsert (sStore D) (Hash_Bytes key) (if val = 0 then None else Some (Hash_Bytes val)) t)\<rparr>)"

definition GetState ::
  "('t, 's, 'l, 'n, 'd, 'v, 'prv, 'pub) senv \<Rightarrow> address \<Rightarrow> hash \<Rightarrow> ('t, 'l, 'n, 'd) Txn \<Rightarrow> hash" where
  "GetState D addr key txn =
     (case getStateObject D addr txn of
        None \<Rightarrow> 0
      | Some obj \<Rightarrow>
          (case (case oTxn obj of None \<Rightarrow> None | Some t \<Rightarrow> irGet (sStore D) (Hash_Bytes key) t) of
             Some None \<Rightarrow> 0
           | Some (Some val) \<Rightarrow> BytesToHash val
           | None \<Rightarrow> object_GetCommitedState D (BytesToHash (hashit D (Hash_Bytes key))) obj (tState txn)))"

definition GetCommittedState ::
  "('t, 's, 'l, 'n, 'd, 'v, 'prv, 'pub) senv \<Rightarrow> address \<Rightarrow> hash \<Rightarrow> ('t, 'l, 'n, 'd) Txn \<Rightarrow> hash" where
  "GetCommittedState D addr key txn =
     (case getStateObject D addr txn of
        None \<Rightarrow> 0
      | Some obj \<Rightarrow> object_GetCommitedState D (BytesToHash (hashit D (Hash_Bytes key))) obj (tState txn))"

text \<open>The refunds of a slot that was changed before in the transaction.\<close>

definition again_refund ::
  "('t, 's, 'l, 'n, 'd, 'v, 'prv, 'pub) senv \<Rightarrow> hash \<Rightarrow> hash \<Rightarrow> hash \<Rightarrow> ForksInTime \<Rightarrow> ('t, 'l, 'n, 'd) Txn \<Rightarrow> ('t, 'l, 'n, 'd) Txn" where
  "again_refund D original current val config txn =
     (let txn = (if original \<noteq> 0 then
                   if current = 0 then SubRefund D 15000 txn
                   else if val = 0 then AddRefund D 15000 txn
                   else txn
                 else txn)
      in if original = val then
           if original = 0 then AddRefund D (if Istanbul config then 19200 else 19800) txn
           else AddRefund D (if Istanbul config then 4200 else 4800) txn
         else txn)"

definition txn_SetStorage ::
  "('t, 's, 'l, 'n, 'd, 'v, 'prv, 'pub) senv \<Rightarrow> address \<Rightarrow> hash \<Rightarrow> hash \<Rightarrow> ForksInTime \<Rightarrow> ('t, 'l, 'n, 'd) Txn
    \<Rightarrow> StorageStatus \<times> ('t, 'l, 'n, 'd) Txn" where
  "txn_SetStorage D addr key val config txn =
     (let oldValue = GetState D addr key txn in
      if oldValue = val then (StorageUnchanged, txn)
      else let current = oldValue;
               original = GetCommittedState D addr key txn;
               txn = SetState D addr key val txn;
               legacyGasMetering = (\<not> Istanbul config \<and> (Petersburg config \<or> \<not> Constantinople config))
      in if legacyGasMetering then
           if oldValue = 0 then (StorageAdded, txn)
           else if val = 0 then (StorageDeleted, AddRefund D 15000 txn)
           else (StorageModified, txn)
         else if original = current then
           if original = 0 then (StorageAdded, txn)
           else if val = 0 then (StorageDeleted, AddRefund D 15000 txn)
           else (StorageModified, txn)
         else
           (StorageModifiedAgain, again_refund D original current val config txn))"

section \<open>Nonces, code and existence\<close>

definition IncrNonce ::
  "('t, 's, 'l, 'n, 'd, 'v, 'prv, 'pub) senv \<Rightarrow> address \<Rightarrow> ('t, 'l, 'n, 'd) Txn \<Rightarrow> ('t, 'l, 'n, 'd) Txn" where
  "IncrNonce D addr = upsertAccount D addr True (map_account (\<lambda>a. a\<lparr>aNonce := aNonce a + 1\<rparr>))"

definition txn_SetNonce ::
  "('t, 's, 'l, 'n, 'd, 'v, 'prv, 'pub) senv \<Rightarrow> address \<Rightarrow> u64 \<Rightarrow> ('t, 'l, 'n, 'd) Txn \<Rightarrow> ('t, 'l, 'n, 'd) Txn" where
  "txn_SetNonce D addr nonce = upsertAccount D addr True (map_account (\<lambda>a. a\<lparr>aNonce := nonce\<rparr>))"

definition txn_GetNonce :: "('t, 's, 'l, 'n, 'd, 'v, 'prv, 'pub) senv \<Rightarrow> address \<Rightarrow> ('t, 'l, 'n, 'd) Txn \<Rightarrow> u64" where
  "txn_GetNonce D addr txn = (case getStateObject D addr txn of None \<Rightarrow> 0 | Some obj \<Rightarrow> aNonce (oAccount obj))"

definition SetCode ::
  "('t, 's, 'l, 'n, 'd, 'v, 'prv, 'pub) senv \<Rightarrow> address \<Rightarrow> bytes \<Rightarrow> ('t, 'l, 'n, 'd) Txn \<Rightarrow> ('t, 'l, 'n, 'd) Txn" where
  "SetCode D addr code =
     upsertAccount D addr True (\<lambda>obj.
       (map_account (\<lambda>a. a\<lparr>aCodeHash := Keccak256 (sCurve D) [code]\<rparr>) obj)\<lparr>oDirtyCode := True, oCode := code\<rparr>)"

definition txn_GetCode ::
  "('t, 's, 'l, 'n, 'd, 'v, 'prv, 'pub) senv \<Rightarrow> address \<Rightarrow> ('t, 'l, 'n, 'd) Txn \<Rightarrow> bytes \<times> ('t, 'l, 'n, 'd) Txn" where
  "txn_GetCode D addr txn =
     (case getStateObject D addr txn of
        None \<Rightarrow> ([], txn)
      | Some obj \<Rightarrow>
          if oDirtyCode obj then (oCode obj, txn)
          else case lruGet (sLru D) addr (tCodeCache txn) of
                 (Some v, l) \<Rightarrow> (v, txn\<lparr>tCodeCache := l\<rparr>)
               | (None, l) \<Rightarrow>
                   let code = (case state_GetCode (sState D) (BytesToHash (aCodeHash (oAccount obj))) (tState txn) of
                                 None \<Rightarrow> [] | Some c \<Rightarrow> c)
                   in (code, txn\<lparr>tCodeCache := lruAdd (sLru D) addr code l\<rparr>))"

definition txn_GetCodeSize ::
  "('t, 's, 'l, 'n, 'd, 'v, 'prv, 'pub) senv \<Rightarrow> address \<Rightarrow> ('t, 'l, 'n, 'd) Txn \<Rightarrow> nat \<times> ('t, 'l, 'n, 'd) Txn" where
  "txn_GetCodeSize D addr txn = (case txn_GetCode D addr txn of (code, txn) \<Rightarrow> (length code, txn))"

definition txn_GetCodeHash :: "('t, 's, 'l, 'n, 'd, 'v, 'prv, 'pub) senv \<Rightarrow> address \<Rightarrow> ('t, 'l, 'n, 'd) Txn \<Rightarrow> hash" where
  "txn_GetCodeHash D addr txn =
     (case getStateObject D addr txn of None \<Rightarrow> 0 | Some obj \<Rightarrow> BytesToHash (aCodeHash (oAccount obj)))"

definition Suicide ::
  "('t, 's, 'l, 'n, 'd, 'v, 'prv, 'pub) senv \<Rightarrow> address \<Rightarrow> ('t, 'l, 'n, 'd) Txn \<Rightarrow> bool \<times> ('t, 'l, 'n, 'd) Txn" where
  "Suicide D addr txn =
     (case getStateObject D addr txn of None \<Rightarrow> False | Some obj \<Rightarrow> \<not> oSuicide obj,
      upsertAccount D addr False (\<lambda>obj. (map_account (\<lambda>a. a\<lparr>aBalance := 0\<rparr>) obj)\<lparr>oSuicide := True\<rparr>) txn)"

definition HasSuicided :: "('t, 's, 'l, 'n, 'd, 'v, 'prv, 'pub) senv \<Rightarrow> address \<Rightarrow> ('t, 'l, 'n, 'd) Txn \<Rightarrow> bool" where
  "HasSuicided D addr txn = (case getStateObject D addr txn of None \<Rightarrow> False | Some obj \<Rightarrow> oSuicide obj)"

definition TouchAccount ::
  "('t, 's, 'l, 'n, 'd, 'v, 'prv, 'pub) senv \<Rightarrow> address \<Rightarrow> ('t, 'l, 'n, 'd) Txn \<Rightarrow> ('t, 'l, 'n, 'd) Txn" where
  "TouchAccount D addr = upsertAccount D addr True (\<lambda>obj. obj)"

definition Exist :: "('t, 's, 'l, 'n, 'd, 'v, 'prv, 'pub) senv \<Rightarrow> address \<Rightarrow> ('t, 'l, 'n, 'd) Txn \<Rightarrow> bool" where
  "Exist D addr txn \<longleftrightarrow> getStateObject D addr txn \<noteq> None"

definition txn_Empty :: "('t, 's, 'l, 'n, 'd, 'v, 'prv, 'pub) senv \<Rightarrow> address \<Rightarrow> ('t, 'l, 'n, 'd) Txn \<Rightarrow> bool" where
  "txn_Empty D addr txn = (case getStateObject D addr txn of None \<Rightarrow> True | Some obj \<Rightarrow> object_Empty D obj)"

definition CreateAccount ::
  "('t, 's, 'l, 'n, 'd, 'v, 'prv, 'pub) senv \<Rightarrow> address \<Rightarrow> ('t, 'l, 'n, 'd) Txn \<Rightarrow> ('t, 'l, 'n, 'd) Txn" where
  "CreateAccount D addr txn =
     (let obj = newStateObject D;
          obj = (case getStateObject D addr txn of
                   None \<Rightarrow> obj
                 | Some prev \<Rightarrow> map_account (\<lambda>a. a\<lparr>aBalance := SetBytes (big_Bytes (aBalance (oAccount prev)))\<rparr>) obj)
      in insert_object D addr obj txn)"

section \<open>The end of a transaction\<close>

text \<open>\<open>None\<close>: the panic of a key that was just walked and is not there, or is not an object.\<close>

fun clean_keys :: "('t, 's, 'l, 'n, 'd, 'v, 'prv, 'pub) senv \<Rightarrow> bytes list \<Rightarrow> 't \<Rightarrow> 't option" where
  "clean_keys D [] t = Some t"
| "clean_keys D (k # ks) t =
     (case irGet (sTree D) k t of
        Some (EObject obj) \<Rightarrow>
          clean_keys D ks (irInsert (sTree D) k (EObject ((StateObject_Copy obj)\<lparr>oDeleted := True\<rparr>)) t)
      | _ \<Rightarrow> None)"

definition removable :: "('t, 's, 'l, 'n, 'd, 'v, 'prv, 'pub) senv \<Rightarrow> bool \<Rightarrow> ('s, 'n) entry \<Rightarrow> bool" where
  "removable D deleteEmptyObjects v =
     (case v of EObject a \<Rightarrow> oSuicide a \<or> object_Empty D a \<and> deleteEmptyObjects | _ \<Rightarrow> False)"

definition CleanDeleteObjects ::
  "('t, 's, 'l, 'n, 'd, 'v, 'prv, 'pub) senv \<Rightarrow> bool \<Rightarrow> ('t, 'l, 'n, 'd) Txn \<Rightarrow> ('t, 'l, 'n, 'd) Txn option" where
  "CleanDeleteObjects D deleteEmptyObjects txn = do {
     let remove = map fst (filter (\<lambda>(k, v). removable D deleteEmptyObjects v) (irWalk (sTree D) (tTxn txn)));
     t \<leftarrow> clean_keys D remove (tTxn txn);
     Some (txn\<lparr>tTxn := irDelete (sTree D) refundIndex t\<rparr>)
   }"

definition storage_of :: "('t, 's, 'l, 'n, 'd, 'v, 'prv, 'pub) senv \<Rightarrow> ('s, 'n) StateObject \<Rightarrow> StorageObject list" where
  "storage_of D a =
     (case oTxn a of
        None \<Rightarrow> []
      | Some t \<Rightarrow> map (\<lambda>(k, v). case v of None \<Rightarrow> \<lparr>soDeleted = True, soKey = k, soVal = []\<rparr>
                                  | Some x \<Rightarrow> \<lparr>soDeleted = False, soKey = k, soVal = x\<rparr>) (irWalk (sStore D) t))"

definition object_of :: "('t, 's, 'l, 'n, 'd, 'v, 'prv, 'pub) senv \<Rightarrow> bytes \<Rightarrow> ('s, 'n) StateObject \<Rightarrow> Object" where
  "object_of D k a =
     \<lparr>obAddress = BytesToAddress k, obCodeHash = BytesToHash (aCodeHash (oAccount a)), obBalance = aBalance (oAccount a),
      obRoot = aRoot (oAccount a), obNonce = aNonce (oAccount a), obDeleted = oDeleted a,
      obDirtyCode = oDirtyCode a, obCode = oCode a, obStorage = (if oDeleted a then [] else storage_of D a)\<rparr>"

fun objects_of :: "('t, 's, 'l, 'n, 'd, 'v, 'prv, 'pub) senv \<Rightarrow> (bytes \<times> ('s, 'n) entry) list \<Rightarrow> Object list" where
  "objects_of D [] = []"
| "objects_of D ((k, EObject a) # xs) = object_of D k a # objects_of D xs"
| "objects_of D ((k, _) # xs) = objects_of D xs"

definition txn_Commit ::
  "('t, 's, 'l, 'n, 'd, 'v, 'prv, 'pub) senv \<Rightarrow> bool \<Rightarrow> ('t, 'l, 'n, 'd) Txn
    \<Rightarrow> (('n \<times> bytes) \<times> ('t, 'l, 'n, 'd) Txn) option" where
  "txn_Commit D deleteEmptyObjects txn = do {
     txn \<leftarrow> CleanDeleteObjects D deleteEmptyObjects txn;
     let objs = objects_of D (irWalk (sTree D) (tTxn txn));
     let (r, d) = snapshot_Commit (sState D) objs (tSnapshot txn) (tState txn);
     Some (r, txn\<lparr>tState := d\<rparr>)
   }"

end
