(* ===== verification/Executor.thy ===== *)
theory Executor
  imports Precompiled StateTxn EvmInstr BftReward StateGas
begin

text \<open>
  The executor of \<open>state/executor.go\<close>: a \<open>Transition\<close> applies the transactions of a block to a layer of
  the account state, runs contracts through its runtimes and is itself the host of the virtual machine. The
  validator fees and the reward lock are globals of the process; the transition carries them. Frames
  nest, so \<open>Callx\<close> recurses through the machine: the recursion is on a bound for the nesting, and the code's
  own check of the depth makes any bound above the 1026 levels enough (\<open>Callx_bound\<close> of ExecutorInv).
\<close>

section \<open>The transition\<close>

record ('t, 'l, 'n, 'd) Transition =
  trBlock :: "Block option"
  trConfig :: ForksInTime
  trState :: "('t, 'l, 'n, 'd) Txn"
  trGetHash :: "u64 \<Rightarrow> hash"
  trCtx :: TxContext
  trGasPool :: u64
  trReceipts :: "Receipt list"
  trTotalGas :: u64
  trFee :: ValidatorFee
  trLock :: RewardLock

datatype runtime = RPrecompiled | REVM

text \<open>
  The executor with the libraries it runs on. \<open>xCap\<close> is the capacity of the memory of the pooled machine
  state that a frame gets.
\<close>

record ('t, 's, 'l, 'n, 'd, 'v, 'prv, 'pub, 'g1, 'g2) Executor =
  xForks :: Forks
  xChainID :: int
  xRuntimes :: "runtime list"
  xState :: "('t, 's, 'l, 'n, 'd, 'v, 'prv, 'pub) senv"
  xGetHash :: "Header \<Rightarrow> u64 \<Rightarrow> hash"
  xPostHook :: "(('t, 'l, 'n, 'd) Transition \<Rightarrow> ('t, 'l, 'n, 'd) Transition) option"
  xPre :: "('g1, 'g2, 'prv, 'pub) pre_env"
  xGrow :: "nat \<Rightarrow> nat \<Rightarrow> nat"
  xCap :: "Contract \<Rightarrow> nat"

definition SetRuntime ::
  "runtime \<Rightarrow> ('t, 's, 'l, 'n, 'd, 'v, 'prv, 'pub, 'g1, 'g2) Executor \<Rightarrow> ('t, 's, 'l, 'n, 'd, 'v, 'prv, 'pub, 'g1, 'g2) Executor" where
  "SetRuntime r e = e\<lparr>xRuntimes := xRuntimes e @ [r]\<rparr>"

definition map_state ::
  "(('t, 'l, 'n, 'd) Txn \<Rightarrow> ('t, 'l, 'n, 'd) Txn) \<Rightarrow> ('t, 'l, 'n, 'd) Transition \<Rightarrow> ('t, 'l, 'n, 'd) Transition" where
  "map_state f t = t\<lparr>trState := f (trState t)\<rparr>"

definition with_state :: "'a \<times> ('t, 'l, 'n, 'd) Txn \<Rightarrow> ('t, 'l, 'n, 'd) Transition \<Rightarrow> 'a \<times> ('t, 'l, 'n, 'd) Transition" where
  "with_state r t = (fst r, t\<lparr>trState := snd r\<rparr>)"

definition failed_with :: "u64 \<Rightarrow> vm_error \<Rightarrow> ExecutionResult" where
  "failed_with gas err = \<lparr>rReturnValue = [], rGasLeft = gas, rGasUsed = 0, rErr = Some err\<rparr>"

section \<open>The host\<close>

definition tr_Selfdestruct ::
  "('t, 's, 'l, 'n, 'd, 'v, 'prv, 'pub) senv \<Rightarrow> address \<Rightarrow> address \<Rightarrow> ('t, 'l, 'n, 'd) Transition \<Rightarrow> ('t, 'l, 'n, 'd) Transition" where
  "tr_Selfdestruct D addr beneficiary =
     map_state (\<lambda>s. let s = (if \<not> HasSuicided D addr s then AddRefund D 24000 s else s);
                        s = AddBalance D beneficiary (txn_GetBalance D addr s) s
                    in snd (Suicide D addr s))"

definition tr_host ::
  "('t, 's, 'l, 'n, 'd, 'v, 'prv, 'pub, 'g1, 'g2) Executor
    \<Rightarrow> (Contract \<Rightarrow> ('t, 'l, 'n, 'd) Transition \<Rightarrow> (ExecutionResult \<times> ('t, 'l, 'n, 'd) Transition) option)
    \<Rightarrow> ('t, 'l, 'n, 'd) Transition Host" where
  "tr_host X callx = (let D = xState X in
     \<lparr>AccountExists = (\<lambda>addr t. Exist D addr (trState t)),
      GetStorage = (\<lambda>addr key t. GetState D addr key (trState t)),
      SetStorage = (\<lambda>addr key val config t. with_state (txn_SetStorage D addr key val config (trState t)) t),
      GetBalance = (\<lambda>addr t. txn_GetBalance D addr (trState t)),
      GetCodeSize = (\<lambda>addr t. with_state (txn_GetCodeSize D addr (trState t)) t),
      GetCodeHash = (\<lambda>addr t. txn_GetCodeHash D addr (trState t)),
      GetCode = (\<lambda>addr t. with_state (txn_GetCode D addr (trState t)) t),
      Selfdestruct = tr_Selfdestruct D,
      GetTxContext = trCtx,
      GetBlockHash = (\<lambda>number t. trGetHash t number),
      EmitLog = (\<lambda>addr topics data. map_state (txn_EmitLog D addr topics data)),
      Callx = callx,
      hEmpty = (\<lambda>addr t. txn_Empty D addr (trState t)),
      GetNonce = (\<lambda>addr t. txn_GetNonce D addr (trState t))\<rparr>)"

definition tr_env ::
  "('t, 's, 'l, 'n, 'd, 'v, 'prv, 'pub, 'g1, 'g2) Executor
    \<Rightarrow> (Contract \<Rightarrow> ('t, 'l, 'n, 'd) Transition \<Rightarrow> (ExecutionResult \<times> ('t, 'l, 'n, 'd) Transition) option)
    \<Rightarrow> (('t, 'l, 'n, 'd) Transition, 'v, 'prv, 'pub) env" where
  "tr_env X callx = \<lparr>eHost = tr_host X callx, eRlp = sRlp (xState X), eCurve = sCurve (xState X), eGrow = xGrow X\<rparr>"

section \<open>Running a contract\<close>

text \<open>A machine state from the pool: \<open>releaseState\<close> has reset all but the capacity of its memory.\<close>

definition acquireState :: "nat \<Rightarrow> Contract \<Rightarrow> ForksInTime \<Rightarrow> 'h \<Rightarrow> 'h vm" where
  "acquireState cap c config h =
     \<lparr>vm_ip = 0, vm_code = [], vm_host = h, vm_msg = c, vm_config = config, vm_memory = [], vm_cap = cap, vm_lastGasCost = 0,
      vm_stack = [], vm_err = None, vm_stop = False, vm_gas = 0, vm_bitmap = [], vm_returnData = [], vm_ret = []\<rparr>"

text \<open>
  The first runtime that can run the contract runs it. \<open>None\<close> stands for a panic; that the machine
  always ends is proved in ExecutorInv.
\<close>

fun run_on ::
  "('t, 's, 'l, 'n, 'd, 'v, 'prv, 'pub, 'g1, 'g2) Executor
    \<Rightarrow> (Contract \<Rightarrow> ('t, 'l, 'n, 'd) Transition \<Rightarrow> (ExecutionResult \<times> ('t, 'l, 'n, 'd) Transition) option)
    \<Rightarrow> runtime list \<Rightarrow> Contract \<Rightarrow> ('t, 'l, 'n, 'd) Transition \<Rightarrow> (ExecutionResult \<times> ('t, 'l, 'n, 'd) Transition) option" where
  "run_on X callx [] c t = Some (failed_with 0 errRuntimeNotFound, t)"
| "run_on X callx (RPrecompiled # rs) c t =
     (if pre_CanRun c (trConfig t)
      then map_option (\<lambda>r. (r, t)) (Precompiled_Run (xPre X) c (trConfig t))
      else run_on X callx rs c t)"
| "run_on X callx (REVM # rs) c t =
     (case EVM_Run (tr_env X callx) (acquireState (xCap X c) c (trConfig t) t) c (trConfig t) t of
        None \<Rightarrow> None
      | Some r \<Rightarrow> r)"

definition tr_run ::
  "('t, 's, 'l, 'n, 'd, 'v, 'prv, 'pub, 'g1, 'g2) Executor
    \<Rightarrow> (Contract \<Rightarrow> ('t, 'l, 'n, 'd) Transition \<Rightarrow> (ExecutionResult \<times> ('t, 'l, 'n, 'd) Transition) option)
    \<Rightarrow> Contract \<Rightarrow> ('t, 'l, 'n, 'd) Transition \<Rightarrow> (ExecutionResult \<times> ('t, 'l, 'n, 'd) Transition) option" where
  "tr_run X callx c t = run_on X callx (xRuntimes X) c t"

definition transfer ::
  "('t, 's, 'l, 'n, 'd, 'v, 'prv, 'pub) senv \<Rightarrow> address \<Rightarrow> address \<Rightarrow> int option \<Rightarrow> ('t, 'l, 'n, 'd) Transition
    \<Rightarrow> vm_error option \<times> ('t, 'l, 'n, 'd) Transition" where
  "transfer D from to amount t =
     (case amount of
        None \<Rightarrow> (None, t)
      | Some amount \<Rightarrow>
          (case SubBalance D from amount (trState t) of
             (Some err, s) \<Rightarrow> (Some (if err = ErrNotEnoughFunds then ErrInsufficientBalance else err), t\<lparr>trState := s\<rparr>)
           | (None, s) \<Rightarrow> (None, t\<lparr>trState := AddBalance D to amount s\<rparr>)))"

text \<open>Back to a snapshot with the result \<open>r\<close>.\<close>

definition reverted ::
  "nat \<Rightarrow> ExecutionResult \<Rightarrow> ('t, 'l, 'n, 'd) Transition \<Rightarrow> (ExecutionResult \<times> ('t, 'l, 'n, 'd) Transition) option" where
  "reverted snapshot r t = do { s \<leftarrow> RevertToSnapshot snapshot (trState t); Some (r, t\<lparr>trState := s\<rparr>) }"

definition applyCall ::
  "('t, 's, 'l, 'n, 'd, 'v, 'prv, 'pub, 'g1, 'g2) Executor
    \<Rightarrow> (Contract \<Rightarrow> ('t, 'l, 'n, 'd) Transition \<Rightarrow> (ExecutionResult \<times> ('t, 'l, 'n, 'd) Transition) option)
    \<Rightarrow> Contract \<Rightarrow> CallType \<Rightarrow> ('t, 'l, 'n, 'd) Transition \<Rightarrow> (ExecutionResult \<times> ('t, 'l, 'n, 'd) Transition) option" where
  "applyCall X callx c callType t =
     (if cDepth c > 1024 + 1 then Some (failed_with (cGas c) ErrDepth, t)
      else let (snapshot, s) = txn_Snapshot (trState t);
               t = t\<lparr>trState := TouchAccount (xState X) (cAddress c) s\<rparr>
           in case (if callType = Call then transfer (xState X) (cCaller c) (cAddress c) (cValue c) t else (None, t)) of
                (Some err, t) \<Rightarrow> Some (failed_with (cGas c) err, t)
              | (None, t) \<Rightarrow> do {
                  (result, t) \<leftarrow> tr_run X callx c t;
                  if Failed result then reverted snapshot result t else Some (result, t)
                })"

definition hasCodeOrNonce ::
  "('t, 's, 'l, 'n, 'd, 'v, 'prv, 'pub) senv \<Rightarrow> address \<Rightarrow> ('t, 'l, 'n, 'd) Transition \<Rightarrow> bool" where
  "hasCodeOrNonce D addr t =
     (if txn_GetNonce D addr (trState t) \<noteq> 0 then True
      else let codeHash = txn_GetCodeHash D addr (trState t)
           in codeHash \<noteq> BytesToHash (Keccak256 (sCurve D) [[]]) \<and> codeHash \<noteq> 0)"

definition spuriousDragonMaxCodeSize :: nat where "spuriousDragonMaxCodeSize = 24576"

text \<open>What becomes of a creation whose code ran without an error.\<close>

definition store_code ::
  "('t, 's, 'l, 'n, 'd, 'v, 'prv, 'pub) senv \<Rightarrow> nat \<Rightarrow> Contract \<Rightarrow> ExecutionResult \<Rightarrow> ('t, 'l, 'n, 'd) Transition
    \<Rightarrow> (ExecutionResult \<times> ('t, 'l, 'n, 'd) Transition) option" where
  "store_code D snapshot c result t =
     (if EIP158 (trConfig t) \<and> length (rReturnValue result) > spuriousDragonMaxCodeSize
      then reverted snapshot (failed_with 0 ErrMaxCodeSizeExceeded) t
      else let gasCost = of_nat (length (rReturnValue result)) * 200 in
           if rGasLeft result < gasCost
           then let result = result\<lparr>rErr := Some ErrCodeStoreOutOfGas, rReturnValue := []\<rparr>
                in if Homestead (trConfig t) then reverted snapshot (result\<lparr>rGasLeft := 0\<rparr>) t
                   else Some (result, t)
           else Some (result\<lparr>rGasLeft := rGasLeft result - gasCost\<rparr>,
                      map_state (SetCode D (cAddress c) (rReturnValue result)) t))"

definition applyCreate ::
  "('t, 's, 'l, 'n, 'd, 'v, 'prv, 'pub, 'g1, 'g2) Executor
    \<Rightarrow> (Contract \<Rightarrow> ('t, 'l, 'n, 'd) Transition \<Rightarrow> (ExecutionResult \<times> ('t, 'l, 'n, 'd) Transition) option)
    \<Rightarrow> Contract \<Rightarrow> ('t, 'l, 'n, 'd) Transition \<Rightarrow> (ExecutionResult \<times> ('t, 'l, 'n, 'd) Transition) option" where
  "applyCreate X callx c t =
     (if cDepth c > 1024 + 1 then Some (failed_with (cGas c) ErrDepth, t)
      else let t = map_state (IncrNonce (xState X) (cCaller c)) t in
           if hasCodeOrNonce (xState X) (cAddress c) t then Some (failed_with 0 ErrContractAddressCollision, t)
           else let (snapshot, s) = txn_Snapshot (trState t);
                    s = (if EIP158 (trConfig t)
                         then IncrNonce (xState X) (cAddress c) (CreateAccount (xState X) (cAddress c) s) else s)
                in case transfer (xState X) (cCaller c) (cAddress c) (cValue c) (t\<lparr>trState := s\<rparr>) of
                     (Some err, t) \<Rightarrow> Some (failed_with (cGas c) err, t)
                   | (None, t) \<Rightarrow> do {
                       (result, t) \<leftarrow> tr_run X callx c t;
                       if Failed result then reverted snapshot result t
                       else store_code (xState X) snapshot c result t
                     })"

text \<open>
  \<open>Callx\<close>, for at most \<open>n\<close> levels of calls. Beyond the bound it answers as the code does beyond its own
  limit on the depth.
\<close>

fun tr_Callx ::
  "nat \<Rightarrow> ('t, 's, 'l, 'n, 'd, 'v, 'prv, 'pub, 'g1, 'g2) Executor \<Rightarrow> Contract \<Rightarrow> ('t, 'l, 'n, 'd) Transition
    \<Rightarrow> (ExecutionResult \<times> ('t, 'l, 'n, 'd) Transition) option" where
  "tr_Callx 0 X c t = Some (failed_with (cGas c) ErrDepth, t)"
| "tr_Callx (Suc n) X c t =
     (if cType c = Create then applyCreate X (tr_Callx n X) c t else applyCall X (tr_Callx n X) c (cType c) t)"

definition Callx_levels :: nat where "Callx_levels = 1025"

section \<open>Applying a transaction\<close>

datatype tx_error =
    ErrNonceIncorrect | ErrNotEnoughFundsForGas | ErrBlockLimitReached | ErrNotEnoughIntrinsicGas | ErrNotEnoughFundsTx
  | ErrIntrinsicGas gas_error | ErrSender | ErrOther vm_error

text \<open>The error values of \<open>apply\<close>: the two application errors, with the recoverable flag, and plain errors.\<close>

datatype apply_error =
    TransitionApplicationError tx_error bool
  | GasLimitReachedTransitionApplicationError tx_error bool
  | PlainError vm_error

definition NewTransitionApplicationError :: "tx_error \<Rightarrow> bool \<Rightarrow> apply_error" where
  "NewTransitionApplicationError err isRecoverable = TransitionApplicationError err isRecoverable"

definition NewGasLimitReachedTransitionApplicationError :: "tx_error \<Rightarrow> apply_error" where
  "NewGasLimitReachedTransitionApplicationError err = GasLimitReachedTransitionApplicationError err True"

definition subGasPool :: "u64 \<Rightarrow> ('t, 'l, 'n, 'd) Transition \<Rightarrow> tx_error option \<times> ('t, 'l, 'n, 'd) Transition" where
  "subGasPool amount t =
     (if trGasPool t < amount then (Some ErrBlockLimitReached, t) else (None, t\<lparr>trGasPool := trGasPool t - amount\<rparr>))"

definition addGasPool :: "u64 \<Rightarrow> ('t, 'l, 'n, 'd) Transition \<Rightarrow> ('t, 'l, 'n, 'd) Transition" where
  "addGasPool amount t = t\<lparr>trGasPool := trGasPool t + amount\<rparr>"

definition subGasLimitPrice ::
  "('t, 's, 'l, 'n, 'd, 'v, 'prv, 'pub) senv \<Rightarrow> transaction \<Rightarrow> ('t, 'l, 'n, 'd) Transition
    \<Rightarrow> tx_error option \<times> ('t, 'l, 'n, 'd) Transition" where
  "subGasLimitPrice D msg t =
     (case SubBalance D (txFrom msg) (txGasPrice msg * uint (txGas msg)) (trState t) of
        (Some err, s) \<Rightarrow> (Some (if err = ErrNotEnoughFunds then ErrNotEnoughFundsForGas else ErrOther err), t\<lparr>trState := s\<rparr>)
      | (None, s) \<Rightarrow> (None, t\<lparr>trState := s\<rparr>))"

definition nonceCheck ::
  "('t, 's, 'l, 'n, 'd, 'v, 'prv, 'pub) senv \<Rightarrow> transaction \<Rightarrow> ('t, 'l, 'n, 'd) Transition \<Rightarrow> tx_error option" where
  "nonceCheck D msg t = (if txn_GetNonce D (txFrom msg) (trState t) \<noteq> txNonce msg then Some ErrNonceIncorrect else None)"

definition tr_Create2 ::
  "('t, 's, 'l, 'n, 'd, 'v, 'prv, 'pub, 'g1, 'g2) Executor \<Rightarrow> address \<Rightarrow> bytes \<Rightarrow> int \<Rightarrow> u64 \<Rightarrow> ('t, 'l, 'n, 'd) Transition
    \<Rightarrow> (ExecutionResult \<times> ('t, 'l, 'n, 'd) Transition) option" where
  "tr_Create2 X caller code val gas t =
     (let D = xState X;
          address = CreateAddress (sRlp D) (sCurve D) caller (txn_GetNonce D caller (trState t));
          contract = NewContractCreation 1 caller caller address (Some val) gas code
      in applyCreate X (tr_Callx Callx_levels X) contract t)"

definition tr_Call2 ::
  "('t, 's, 'l, 'n, 'd, 'v, 'prv, 'pub, 'g1, 'g2) Executor \<Rightarrow> address \<Rightarrow> address \<Rightarrow> bytes \<Rightarrow> int \<Rightarrow> u64 \<Rightarrow> ('t, 'l, 'n, 'd) Transition
    \<Rightarrow> (ExecutionResult \<times> ('t, 'l, 'n, 'd) Transition) option" where
  "tr_Call2 X caller to input val gas t =
     (let (code, s) = txn_GetCode (xState X) to (trState t);
          c = NewContractCall 1 caller caller to (Some val) gas code input
      in applyCall X (tr_Callx Callx_levels X) c Call (t\<lparr>trState := s\<rparr>))"

definition empty_result :: ExecutionResult where
  "empty_result = \<lparr>rReturnValue = [], rGasLeft = 0, rGasUsed = 0, rErr = None\<rparr>"

text \<open>\<open>None\<close>: the reward of the caller is nil, so that its comparison panics; the first test excludes this.\<close>

definition WithdrawTxFee ::
  "('t, 's, 'l, 'n, 'd, 'v, 'prv, 'pub) senv \<Rightarrow> address \<Rightarrow> address \<Rightarrow> int \<Rightarrow> ('t, 'l, 'n, 'd) Transition
    \<Rightarrow> ((vm_error + ExecutionResult) \<times> ('t, 'l, 'n, 'd) Transition) option" where
  "WithdrawTxFee D caller to val t =
     (if \<not> IsHaveReward caller (trFee t) then Some (Inl errRewardZero, t)
      else if to \<noteq> FeePool then Some (Inl errNotFeePool, t)
      else do {
        reward \<leftarrow> GetFeeReward caller (trFee t);
        if reward < val then Some (Inl errInsufficientReward, t)
        else case transfer D FeePool caller (Some val) t of
               (Some err, t) \<Rightarrow> Some (Inl err, t)
             | (None, t) \<Rightarrow> Some (Inr empty_result, t\<lparr>trFee := SubTaximeter val (trFee t)\<rparr>)
      })"

definition SendFixedReward ::
  "('t, 's, 'l, 'n, 'd, 'v, 'prv, 'pub) senv \<Rightarrow> address \<Rightarrow> address \<Rightarrow> int \<Rightarrow> ('t, 'l, 'n, 'd) Transition
    \<Rightarrow> (vm_error + ExecutionResult) \<times> ('t, 'l, 'n, 'd) Transition" where
  "SendFixedReward D caller to val t =
     (if Tag (ctxNumber (trCtx t)) (trLock t) > 1 then (Inl errInvalidTransaction, t)
      else case transfer D to caller (Some val) t of
             (Some err, t) \<Rightarrow> (Inl err, t)
           | (None, t) \<Rightarrow> (Inr empty_result, t\<lparr>trLock := TagCount (ctxNumber (trCtx t)) (trLock t)\<rparr>))"

text \<open>
  The checks of \<open>apply\<close>, up to the gas that is left for the execution. The last component is the transition in
  the state in which the check left it, also when it fails.
\<close>

definition apply_checks ::
  "('t, 's, 'l, 'n, 'd, 'v, 'prv, 'pub) senv \<Rightarrow> transaction \<Rightarrow> ('t, 'l, 'n, 'd) Transition
    \<Rightarrow> (apply_error + u64) \<times> ('t, 'l, 'n, 'd) Transition" where
  "apply_checks D msg t =
     (case nonceCheck D msg t of
        Some err \<Rightarrow> (Inl (NewTransitionApplicationError err True), t)
      | None \<Rightarrow>
     (case subGasLimitPrice D msg t of
        (Some err, t) \<Rightarrow> (Inl (NewTransitionApplicationError err True), t)
      | (None, t) \<Rightarrow>
     (case subGasPool (txGas msg) t of
        (Some err, t) \<Rightarrow> (Inl (NewGasLimitReachedTransitionApplicationError err), t)
      | (None, t) \<Rightarrow>
     (case TransactionGasCost msg (Homestead (trConfig t)) (Istanbul (trConfig t)) of
        Inl err \<Rightarrow> (Inl (NewTransitionApplicationError (ErrIntrinsicGas err) False), t)
      | Inr intrinsicGasCost \<Rightarrow>
          let gasLeft = txGas msg - intrinsicGasCost in
          if \<not> IsFixedRewardTx msg \<and> gasLeft > txGas msg
          then (Inl (NewTransitionApplicationError ErrNotEnoughIntrinsicGas False), t)
          else if \<not> IsFixedRewardTx msg \<and> txn_GetBalance D (txFrom msg) (trState t) < txValue msg
          then (Inl (NewTransitionApplicationError ErrNotEnoughFundsTx True), t)
          else (Inr gasLeft, t)))))"

text \<open>The execution proper. \<open>None\<close>: a panic.\<close>

definition apply_body ::
  "('t, 's, 'l, 'n, 'd, 'v, 'prv, 'pub, 'g1, 'g2) Executor \<Rightarrow> transaction \<Rightarrow> u64 \<Rightarrow> ('t, 'l, 'n, 'd) Transition
    \<Rightarrow> ((vm_error + ExecutionResult) \<times> ('t, 'l, 'n, 'd) Transition) option" where
  "apply_body X msg gasLeft t =
     (case txTo msg of
        None \<Rightarrow> map_option (apfst Inr) (tr_Create2 X (txFrom msg) (txInput msg) (txValue msg) gasLeft t)
      | Some to \<Rightarrow>
          if IsWithdrawFee msg then do {
            (r, t) \<leftarrow> WithdrawTxFee (xState X) (txFrom msg) to (txValue msg) t;
            Some (r, case r of Inl _ \<Rightarrow> t | Inr _ \<Rightarrow> map_state (IncrNonce (xState X) (txFrom msg)) t)
          }
          else if IsFixedRewardTx msg then
            let (r, t) = SendFixedReward (xState X) (txFrom msg) to (txValue msg) t
            in Some (r, case r of Inl _ \<Rightarrow> t | Inr _ \<Rightarrow> map_state (IncrNonce (xState X) (txFrom msg)) t)
          else map_option (apfst Inr)
                 (tr_Call2 X (txFrom msg) to (txInput msg) (txValue msg) gasLeft (map_state (IncrNonce (xState X) (txFrom msg)) t)))"

text \<open>The settlement of the gas: the refund to the sender, the fee to the fee pool, the rest to the gas pool.\<close>

definition apply_settle ::
  "('t, 's, 'l, 'n, 'd, 'v, 'prv, 'pub) senv \<Rightarrow> transaction \<Rightarrow> ExecutionResult \<Rightarrow> ('t, 'l, 'n, 'd) Transition
    \<Rightarrow> ExecutionResult \<times> ('t, 'l, 'n, 'd) Transition" where
  "apply_settle D msg result t =
     (let result = UpdateGasUsed (txGas msg) (GetRefund D (trState t)) result;
          t = map_state (AddBalance D (txFrom msg) (uint (rGasLeft result) * txGasPrice msg)) t;
          t = map_state (AddBalance D FeePool (uint (rGasUsed result) * txGasPrice msg)) t
      in (result, addGasPool (rGasLeft result) t))"

definition tr_apply ::
  "('t, 's, 'l, 'n, 'd, 'v, 'prv, 'pub, 'g1, 'g2) Executor \<Rightarrow> transaction \<Rightarrow> ('t, 'l, 'n, 'd) Transition
    \<Rightarrow> ((apply_error + ExecutionResult) \<times> ('t, 'l, 'n, 'd) Transition) option" where
  "tr_apply X msg t =
     (case apply_checks (xState X) msg t of
        (Inl err, t) \<Rightarrow> Some (Inl err, t)
      | (Inr gasLeft, t) \<Rightarrow> do {
          let t = t\<lparr>trCtx := (trCtx t)\<lparr>ctxGasPrice := BytesToHash (big_Bytes (txGasPrice msg)), ctxOrigin := txFrom msg\<rparr>\<rparr>;
          (r, t) \<leftarrow> apply_body X msg gasLeft t;
          Some (case r of
                  Inl err \<Rightarrow> (Inl (PlainError err), t)
                | Inr result \<Rightarrow> apfst Inr (apply_settle (xState X) msg result t))
        })"

definition tr_Apply ::
  "('t, 's, 'l, 'n, 'd, 'v, 'prv, 'pub, 'g1, 'g2) Executor \<Rightarrow> transaction \<Rightarrow> ('t, 'l, 'n, 'd) Transition
    \<Rightarrow> ((apply_error + ExecutionResult) \<times> ('t, 'l, 'n, 'd) Transition) option" where
  "tr_Apply X msg t =
     (let (s, st) = txn_Snapshot (trState t) in do {
        (r, t) \<leftarrow> tr_apply X msg (t\<lparr>trState := st\<rparr>);
        t \<leftarrow> (case r of
                Inl _ \<Rightarrow> map_option (\<lambda>st. t\<lparr>trState := st\<rparr>) (RevertToSnapshot s (trState t))
              | Inr _ \<Rightarrow> Some t);
        Some (r, case xPostHook X of None \<Rightarrow> t | Some hook \<Rightarrow> hook t)
      })"

section \<open>Blocks\<close>

text \<open>
  A transaction without a sender gets the one its signature recovers; the transaction of the block is changed.
\<close>

definition recover_from ::
  "('t, 's, 'l, 'n, 'd, 'v, 'prv, 'pub, 'g1, 'g2) Executor \<Rightarrow> transaction \<Rightarrow> (apply_error + transaction) option" where
  "recover_from X txn =
     (if txFrom txn = 0
      then (case EIP155_Sender (sRlp (xState X)) (sCurve (xState X)) (word_of_int (xChainID X)) txn of
              Panic \<Rightarrow> None
            | Error \<Rightarrow> Some (Inl (NewTransitionApplicationError ErrSender False))
            | Ret from \<Rightarrow> Some (Inr (txn\<lparr>txFrom := from\<rparr>)))
      else Some (Inr txn))"

definition new_receipt :: "u64 \<Rightarrow> hash \<Rightarrow> u64 \<Rightarrow> Receipt" where
  "new_receipt cumulative h used =
     \<lparr>rRoot = 0, CumulativeGasUsed = cumulative, rLogsBloom = replicate BloomByteLength 0, rLogs = [], rStatus = None,
      Receipt.rGasUsed = used, ContractAddress = 0, rTxHash = h\<rparr>"

definition WriteFailedReceipt ::
  "('t, 's, 'l, 'n, 'd, 'v, 'prv, 'pub, 'g1, 'g2) Executor \<Rightarrow> transaction \<Rightarrow> ('t, 'l, 'n, 'd) Transition
    \<Rightarrow> (apply_error option \<times> transaction \<times> ('t, 'l, 'n, 'd) Transition) option" where
  "WriteFailedReceipt X txn t = do {
     r \<leftarrow> recover_from X txn;
     case r of
       Inl err \<Rightarrow> Some (Some err, txn, t)
     | Inr txn \<Rightarrow>
         let D = xState X;
             (logs, s) = Logs D (trState t);
             receipt = (new_receipt (trTotalGas t) (txHash txn) 0)\<lparr>rLogs := logs\<rparr>;
             receipt = receipt\<lparr>rLogsBloom := CreateBloom (keccak (sCurve D)) [receipt]\<rparr>;
             receipt = SetStatus ReceiptFailed receipt;
             receipt = (if txTo txn = None
                        then receipt\<lparr>ContractAddress := CreateAddress (sRlp D) (sCurve D) (txFrom txn) (txNonce txn)\<rparr>
                        else receipt)
         in Some (None, txn, t\<lparr>trState := s, trReceipts := trReceipts t @ [receipt]\<rparr>)
   }"

text \<open>The state after a transaction, with the intermediate root of the older rules.\<close>

definition finish_tx ::
  "('t, 's, 'l, 'n, 'd, 'v, 'prv, 'pub) senv \<Rightarrow> ExecutionResult \<Rightarrow> Receipt \<Rightarrow> ('t, 'l, 'n, 'd) Transition
    \<Rightarrow> (Receipt \<times> ('t, 'l, 'n, 'd) Transition) option" where
  "finish_tx D result receipt t =
     (if Byzantium (trConfig t) then do {
        s \<leftarrow> CleanDeleteObjects D True (trState t);
        Some (SetStatus (if Failed result then ReceiptFailed else ReceiptSuccess) receipt, t\<lparr>trState := s\<rparr>)
      }
      else do {
        ((ss, aux), s) \<leftarrow> txn_Commit D (EIP155 (trConfig t)) (trState t);
        Some (receipt\<lparr>rRoot := BytesToHash aux\<rparr>, t\<lparr>trState := newTxn D (tState s) ss\<rparr>)
      })"

definition tr_Write ::
  "('t, 's, 'l, 'n, 'd, 'v, 'prv, 'pub, 'g1, 'g2) Executor \<Rightarrow> transaction \<Rightarrow> ('t, 'l, 'n, 'd) Transition
    \<Rightarrow> (apply_error option \<times> transaction \<times> ('t, 'l, 'n, 'd) Transition) option" where
  "tr_Write X txn t = do {
     r \<leftarrow> recover_from X txn;
     case r of
       Inl err \<Rightarrow> Some (Some err, txn, t)
     | Inr txn \<Rightarrow>
         let D = xState X; msg = tx_Copy txn in do {
           (r, t) \<leftarrow> tr_Apply X msg t;
           case r of
             Inl err \<Rightarrow> Some (Some err, txn, t)
           | Inr result \<Rightarrow> do {
               let t = t\<lparr>trTotalGas := trTotalGas t + rGasUsed result\<rparr>;
               let (logs, s) = Logs D (trState t);
               (receipt, t) \<leftarrow> finish_tx D result (new_receipt (trTotalGas t) (txHash txn) (rGasUsed result)) (t\<lparr>trState := s\<rparr>);
               let receipt = (if txTo msg = None
                              then receipt\<lparr>ContractAddress := CreateAddress (sRlp D) (sCurve D) (txFrom msg) (txNonce txn)\<rparr>
                              else receipt);
               let receipt = receipt\<lparr>rLogs := logs\<rparr>;
               let receipt = receipt\<lparr>rLogsBloom := CreateBloom (keccak (sCurve D)) [receipt]\<rparr>;
               Some (None, txn, t\<lparr>trReceipts := trReceipts t @ [receipt]\<rparr>)
             }
         }
   }"

definition tr_Commit ::
  "('t, 's, 'l, 'n, 'd, 'v, 'prv, 'pub) senv \<Rightarrow> ('t, 'l, 'n, 'd) Transition
    \<Rightarrow> (('n \<times> hash) \<times> ('t, 'l, 'n, 'd) Transition) option" where
  "tr_Commit D t = do {
     ((s2, root), s) \<leftarrow> txn_Commit D (EIP155 (trConfig t)) (trState t);
     Some ((s2, BytesToHash root), t\<lparr>trState := s\<rparr>)
   }"

text \<open>The globals of the process and the database at the start of a block.\<close>

definition BeginTxn ::
  "('t, 's, 'l, 'n, 'd, 'v, 'prv, 'pub, 'g1, 'g2) Executor \<Rightarrow> hash \<Rightarrow> Header \<Rightarrow> address \<Rightarrow> ValidatorFee \<Rightarrow> RewardLock \<Rightarrow> 'd
    \<Rightarrow> ('t, 'l, 'n, 'd) Transition option" where
  "BeginTxn X parentRoot header coinbaseReceiver fee lock d = do {
     let config = Forks_At (xForks X) (Number header);
     auxSnap2 \<leftarrow> NewSnapshotAt (sState (xState X)) parentRoot d;
     let env2 = \<lparr>ctxGasPrice = 0, ctxOrigin = 0, ctxCoinbase = coinbaseReceiver, ctxNumber = Number header,
                 ctxTimestamp = Timestamp header, ctxGasLimit = GasLimit header, ctxChainID = word_of_int (xChainID X),
                 ctxDifficulty = BytesToHash (big_Bytes (uint (Difficulty header)))\<rparr>;
     Some \<lparr>trBlock = None, trConfig = config, trState = newTxn (xState X) d auxSnap2, trGetHash = xGetHash X header,
           trCtx = env2, trGasPool = ctxGasLimit env2, trReceipts = [], trTotalGas = 0, trFee = fee, trLock = lock\<rparr>
   }"

fun process_txs ::
  "('t, 's, 'l, 'n, 'd, 'v, 'prv, 'pub, 'g1, 'g2) Executor \<Rightarrow> u64 \<Rightarrow> transaction list \<Rightarrow> ('t, 'l, 'n, 'd) Transition
    \<Rightarrow> (apply_error option \<times> ('t, 'l, 'n, 'd) Transition) option" where
  "process_txs X gasLimit [] t = Some (None, t)"
| "process_txs X gasLimit (tx # txs) t = do {
     (e, _, t) \<leftarrow> (if ExceedsBlockGasLimit tx gasLimit then WriteFailedReceipt X tx t else tr_Write X tx t);
     case e of Some err \<Rightarrow> Some (Some err, t) | None \<Rightarrow> process_txs X gasLimit txs t
   }"

record BlockResult =
  brRoot :: hash
  brReceipts :: "Receipt list"
  brTotalGas :: u64

text \<open>\<open>Inl None\<close>: the state of the parent is not there.\<close>

definition ProcessBlock ::
  "('t, 's, 'l, 'n, 'd, 'v, 'prv, 'pub, 'g1, 'g2) Executor \<Rightarrow> hash \<Rightarrow> Block \<Rightarrow> address \<Rightarrow> ValidatorFee \<Rightarrow> RewardLock \<Rightarrow> 'd
    \<Rightarrow> ((apply_error option + BlockResult \<times> ('t, 'l, 'n, 'd) Transition)) option" where
  "ProcessBlock X parentRoot block blockCreator fee lock d =
     (case BeginTxn X parentRoot (blkHeader block) blockCreator fee lock d of
        None \<Rightarrow> Some (Inl None)
      | Some t \<Rightarrow> do {
          (e, t) \<leftarrow> process_txs X (GasLimit (blkHeader block)) (blkTransactions block) (t\<lparr>trBlock := Some block\<rparr>);
          case e of
            Some err \<Rightarrow> Some (Inl (Some err))
          | None \<Rightarrow> do {
              let t = t\<lparr>trLock := CleanTag (Block_Number block) (trLock t)\<rparr>;
              ((_, root), t) \<leftarrow> tr_Commit (xState X) t;
              Some (Inr (\<lparr>brRoot = root, brReceipts = trReceipts t, brTotalGas = trTotalGas t\<rparr>, t))
            }
        })"

record GenesisAccount =
  gaCode :: bytes
  gaStorage :: "(hash \<times> hash) list"
  gaBalance :: "int option"
  gaNonce :: u64

text \<open>The accounts and the slots in the order in which the maps are visited.\<close>

definition genesis_account ::
  "('t, 's, 'l, 'n, 'd, 'v, 'prv, 'pub) senv \<Rightarrow> address \<Rightarrow> GenesisAccount \<Rightarrow> ('t, 'l, 'n, 'd) Txn \<Rightarrow> ('t, 'l, 'n, 'd) Txn" where
  "genesis_account D addr account txn =
     (let txn = (case gaBalance account of None \<Rightarrow> txn | Some b \<Rightarrow> AddBalance D addr b txn);
          txn = (if gaNonce account \<noteq> 0 then txn_SetNonce D addr (gaNonce account) txn else txn);
          txn = (if length (gaCode account) \<noteq> 0 then SetCode D addr (gaCode account) txn else txn)
      in fold (\<lambda>(key, val). SetState D addr key val) (gaStorage account) txn)"

definition WriteGenesis ::
  "('t, 's, 'l, 'n, 'd, 'v, 'prv, 'pub) senv \<Rightarrow> (address \<times> GenesisAccount) list \<Rightarrow> 'd \<Rightarrow> (hash \<times> 'd) option" where
  "WriteGenesis D accounts d = do {
     let txn = newTxn D d (NewSnapshot (sState D));
     let txn = fold (\<lambda>(addr, account). genesis_account D addr account) accounts txn;
     ((_, root), txn) \<leftarrow> txn_Commit D False txn;
     Some (BytesToHash root, tState txn)
   }"

end
