(* ===== verification/EvmSafety.thy ===== *)
theory EvmSafety
  imports EvmArith
begin

text \<open>
  Safety of the interpreter for every host that keeps the contract of the locale \<open>evm_host\<close>: the machine
  invariant is kept by every instruction, gas never grows and falls with every instruction that does
  not stop the machine, and a panic is confined to a few instructions. The proofs use a small set of
  rules for partial programs (\<open>okp\<close>), one per primitive of \<open>state.go\<close>.
\<close>

section \<open>The machine invariant\<close>

definition word_range :: "int \<Rightarrow> bool" where
  "word_range v \<longleftrightarrow> 0 \<le> v \<and> v < 2 ^ 256"

definition stack_ok :: "'h vm \<Rightarrow> bool" where
  "stack_ok c \<longleftrightarrow> (\<forall>v\<in>set (vm_stack c). word_range v)"

definition mem_ok :: "'h vm \<Rightarrow> bool" where
  "mem_ok c \<longleftrightarrow> length (vm_memory c) \<le> vm_cap c \<and> length (vm_memory c) < 2 ^ 42 \<and> 32 dvd length (vm_memory c)"

definition contract_ok :: "Contract \<Rightarrow> bool" where
  "contract_ok k \<longleftrightarrow> length (cCode k) < 2 ^ 62 \<and> length (cInput k) < 2 ^ 62 \<and>
     (case cValue k of None \<Rightarrow> True | Some v \<Rightarrow> word_range v)"

text \<open>A static call writes nothing; a plain call transfers nothing then.\<close>

definition static_contract :: "Contract \<Rightarrow> bool" where
  "static_contract k \<longleftrightarrow> cStatic k \<and> cType k \<noteq> Create \<and> (cType k = Call \<longrightarrow> cValue k \<in> {None, Some 0})"

definition base_ok :: "'h vm \<Rightarrow> bool" where
  "base_ok c \<longleftrightarrow> mem_ok c \<and> contract_ok (vm_msg c) \<and> vm_code c = cCode (vm_msg c) \<and>
     vm_bitmap c = setCode (vm_code c) \<and> EIP150 (vm_config c) \<and> length (vm_returnData c) < 2 ^ 62 \<and> length (vm_ret c) < 2 ^ 62"

definition vm_ok :: "'h vm \<Rightarrow> bool" where
  "vm_ok c \<longleftrightarrow> base_ok c \<and> stack_ok c"

definition vm_same :: "'h vm \<Rightarrow> 'h vm \<Rightarrow> bool" where
  "vm_same c c' \<longleftrightarrow> vm_msg c' = vm_msg c \<and> vm_config c' = vm_config c \<and> vm_gas c' \<le> vm_gas c \<and>
     (- 1 \<le> vm_ip c \<longrightarrow> - 1 \<le> vm_ip c')"

lemma vm_same_refl [simp]: "vm_same c c"
  by (simp add: vm_same_def)

lemma vm_same_trans: "vm_same a b \<Longrightarrow> vm_same b c \<Longrightarrow> vm_same a c"
  by (auto simp: vm_same_def)

lemmas ok_defs = vm_ok_def base_ok_def stack_ok_def mem_ok_def vm_same_def

lemma word_range_small: "0 \<le> v \<Longrightarrow> v < 2 ^ 160 \<Longrightarrow> word_range v"
  by (simp add: word_range_def)

lemma word_range_toU256 [simp]: "word_range (toU256 x)"
  by (simp add: word_range_def toU256_mod)

lemma word_range_bool [simp]: "word_range 0" "word_range 1"
  by (simp_all add: word_range_def)

lemma word_range_SetBytes: "length b \<le> 32 \<Longrightarrow> word_range (SetBytes b)"
proof -
  assume "length b \<le> 32"
  then have "be_value b < 256 ^ 32" using be_value_less [of b] power_increasing [of "length b" 32 "256 :: int"] by linarith
  then show ?thesis by (simp add: word_range_def SetBytes_def)
qed

lemma word_range_uint64 [simp]: "word_range (uint (g :: u64))"
  using uint_lt2p [of g] by (simp add: word_range_def)

lemma word_range_length: "n < 2 ^ 63 \<Longrightarrow> word_range (int n)"
  by (simp add: word_range_def)

lemma word_range_word: "word_range v \<Longrightarrow> \<exists>w :: 256 word. v = uint w"
  by (intro exI [of _ "word_of_int v"]) (simp add: word_range_def uint_word_of_int)

lemma word_range_bits:
  assumes "word_range a" "word_range b"
  shows "word_range (a AND b)" "word_range (a OR b)" "word_range (a XOR b)"
proof -
  obtain v w :: "256 word" where "a = uint v" "b = uint w" using assms word_range_word by metis
  then show "word_range (a AND b)" "word_range (a OR b)" "word_range (a XOR b)"
    using uint_256 [of "v AND w"] uint_256 [of "v OR w"] uint_256 [of "v XOR w"]
    by (simp_all add: word_range_def uint_and uint_or uint_xor)
qed

section \<open>Memory\<close>

lemma extendByteSlice_grows:
  assumes "length b \<le> cap" "needLen \<le> grow cap needLen" "length b \<le> needLen"
  shows "\<exists>cap'. extendByteSlice grow needLen (b, cap) = (b @ replicate (needLen - length b) 0, cap') \<and> needLen \<le> cap' \<and> cap \<le> cap'"
proof (cases "needLen > cap")
  case True
  then have "replicate (cap - length b) (0 :: u8) @ replicate (needLen - cap) 0 = replicate (needLen - length b) 0"
    using assms by (simp flip: replicate_add)
  then show ?thesis using True assms by (simp add: extendByteSlice_def Let_def)
qed (use assms in \<open>simp add: extendByteSlice_def Let_def min_def\<close>)

text \<open>What a successful check of the memory provides.\<close>

definition in_memory :: "int \<Rightarrow> int \<Rightarrow> 'h vm \<Rightarrow> bool" where
  "in_memory off sz c \<longleftrightarrow> sz = 0 \<or>
     (0 \<le> off \<and> 0 < sz \<and> off \<le> 0xffffffffe0 \<and> sz \<le> 0xffffffffe0 \<and> off + sz \<le> int (length (vm_memory c)))"

lemma big_Uint64_unat: "IsUint64 x \<Longrightarrow> unat (big_Uint64 x) = nat x"
  by (simp add: IsUint64_def big_Uint64_def unsigned_of_int take_bit_int_eq_self)

lemma in_memory_unat:
  assumes "in_memory off sz c" "sz \<noteq> 0"
  shows "unat (big_Uint64 off) = nat off" "unat (big_Uint64 sz) = nat sz"
    "unat (big_Uint64 off + big_Uint64 sz) = nat off + nat sz" "nat off + nat sz \<le> length (vm_memory c)"
proof -
  have r: "0 \<le> off" "off \<le> 0xffffffffe0" "0 < sz" "sz \<le> 0xffffffffe0" "off + sz \<le> int (length (vm_memory c))"
    using assms by (auto simp: in_memory_def)
  show o: "unat (big_Uint64 off) = nat off" using r by (intro big_Uint64_unat) (simp add: IsUint64_def)
  show s: "unat (big_Uint64 sz) = nat sz" using r by (intro big_Uint64_unat) (simp add: IsUint64_def)
  show "unat (big_Uint64 off + big_Uint64 sz) = nat off + nat sz"
    using r o s by (subst u64_add_unat) simp_all
  show "nat off + nat sz \<le> length (vm_memory c)" using r by simp
qed

definition mem_words :: "int \<Rightarrow> int \<Rightarrow> nat" where
  "mem_words off sz = (nat (off + sz) + 31) div 32"

definition mem_cost :: "u64 \<Rightarrow> u64" where
  "mem_cost w = 3 * w + w * w div 512"

text \<open>The three outcomes of a memory check.\<close>

lemma checkMemory_cases [consumes 4, case_names inside failed grown]:
  assumes "mem_ok c" "0 \<le> sz" "checkMemory grow off sz c = (ok, c')" "\<And>cap n. n \<le> grow cap n"
  obtains
    "ok" "c' = c" "in_memory off sz c"
  | e l where "\<not> ok" "c' = exit e (c\<lparr>vm_lastGasCost := l\<rparr>)"
  | w cap where "ok" "w = mem_words off sz" "32 * w \<le> cap \<and> vm_cap c \<le> cap" "in_memory off sz c'" "w < 2 ^ 37" "length (vm_memory c) < 32 * w"
      "mem_cost (of_nat w) - vm_lastGasCost c \<le> vm_gas c"
      "c' = c\<lparr>vm_lastGasCost := mem_cost (of_nat w), vm_gas := vm_gas c - (mem_cost (of_nat w) - vm_lastGasCost c),
        vm_memory := vm_memory c @ replicate (32 * w - length (vm_memory c)) 0, vm_cap := cap\<rparr>"
proof -
  note I = that(1) and F = that(2) and G = that(3)
  show thesis
  proof (cases "sz = 0 \<or> \<not> (IsUint64 off \<and> IsUint64 sz \<and> big_Uint64 off \<le> 0xffffffffe0 \<and> big_Uint64 sz \<le> 0xffffffffe0)")
    case True
    then show thesis
    proof (cases "sz = 0")
      case False
      then have "checkMemory grow off sz c = (False, exit errGasUintOverflow c)"
        using True by (auto simp: checkMemory_def Let_def not_le)
      then show thesis using F [of errGasUintOverflow "vm_lastGasCost c"] assms(3) by simp
    qed (use I assms(3) in \<open>simp add: checkMemory_def in_memory_def\<close>)
  next
    case False
    then have ne: "sz \<noteq> 0" and u: "IsUint64 off" "IsUint64 sz"
      and le: "big_Uint64 off \<le> 0xffffffffe0" "big_Uint64 sz \<le> 0xffffffffe0" by auto
    have r: "0 \<le> off" "off \<le> 0xffffffffe0" "0 < sz" "sz \<le> 0xffffffffe0"
      using u le ne big_Uint64_unat [OF u(1)] big_Uint64_unat [OF u(2)]
      by (simp_all add: IsUint64_def word_le_nat_alt nat_le_iff)
    define n where "n = big_Uint64 off + big_Uint64 sz"
    have n: "unat n = nat (off + sz)"
      unfolding n_def using r by (subst u64_add_unat) (simp_all add: big_Uint64_unat u nat_add_distrib)
    have m: "unat (of_nat (length (vm_memory c)) :: u64) = length (vm_memory c)"
      using assms(1) by (simp add: mem_ok_def unsigned_of_nat take_bit_nat_eq_self)
    show thesis
    proof (cases "of_nat (length (vm_memory c)) < n")
      case small: False
      then have "checkMemory grow off sz c = (True, c)"
        using ne u le by (simp add: checkMemory_def Let_def n_def leD)
      moreover have "in_memory off sz c"
        using small r n m by (simp add: in_memory_def not_less word_le_nat_alt nat_le_iff)
      ultimately show thesis using I assms(3) by simp
    next
      case grow: True
      define w where "w = (n + 31) div 32"
      have "unat (n + 31) = nat (off + sz) + 31" using n r by (subst u64_add_unat) simp_all
      then have w: "unat w = mem_words off sz" by (simp add: w_def unat_div mem_words_def)
      have wb: "mem_words off sz < 2 ^ 37" using r by (simp add: mem_words_def)
      have w32: "unat (w * 32) = 32 * mem_words off sz" using w wb by (simp add: unat_word_ariths)
      have ww: "of_nat (mem_words off sz) = w" by (simp flip: w)
      have lt: "length (vm_memory c) < 32 * mem_words off sz" "off + sz \<le> int (32 * mem_words off sz)"
        using grow n m r by (auto simp: word_less_nat_alt mem_words_def)
      define cost where "cost = mem_cost w - vm_lastGasCost c"
      show thesis
      proof (cases "vm_gas c < cost")
        case True
        then have "checkMemory grow off sz c = (False, exit ErrOutOfGas (c\<lparr>vm_lastGasCost := mem_cost w\<rparr>))"
          using ne u le grow by (simp add: checkMemory_def Let_def n_def [symmetric] w_def [symmetric] mem_cost_def [symmetric]
              cost_def consumeGas_def exit_def not_less)
        then show thesis using F assms(3) by simp
      next
        case enough: False
        obtain cap where ext: "extendByteSlice grow (unat (w * 32)) (vm_memory c, vm_cap c)
            = (vm_memory c @ replicate (32 * mem_words off sz - length (vm_memory c)) 0, cap)" "32 * mem_words off sz \<le> cap \<and> vm_cap c \<le> cap"
          using extendByteSlice_grows [of "vm_memory c" "vm_cap c" "unat (w * 32)" grow] assms(1,4) lt(1)
          by (auto simp: mem_ok_def w32)
        have "checkMemory grow off sz c = (True, c\<lparr>vm_lastGasCost := mem_cost w, vm_gas := vm_gas c - cost,
            vm_memory := vm_memory c @ replicate (32 * mem_words off sz - length (vm_memory c)) 0, vm_cap := cap\<rparr>)"
          using ne u le grow enough by (simp add: checkMemory_def Let_def n_def [symmetric] w_def [symmetric]
              mem_cost_def [symmetric] cost_def consumeGas_def not_less ext)
        then show thesis using G [OF _ refl ext(2)] assms(3) lt r wb enough
          by (simp add: ww cost_def in_memory_def not_less)
      qed
    qed
  qed
qed

section \<open>The host contract\<close>

text \<open>
  What the interpreter relies on. \<open>hinv\<close> is an invariant of the host and \<open>R\<close> a preorder that bounds
  how it changes. If \<open>static\<close> is set only static calls are considered, and then the host need not
  answer for its writing operations.
\<close>

locale evm_host =
  fixes E :: "('h, 'v, 'prv, 'pub) env"
    and static :: bool
    and hinv :: "'h \<Rightarrow> bool"
    and R :: "'h \<Rightarrow> 'h \<Rightarrow> bool"
  assumes grow: "n \<le> eGrow E cap n"
    and R_refl: "R h h"
    and R_trans: "R h h1 \<Longrightarrow> R h1 h2 \<Longrightarrow> R h h2"
    and balance_range: "hinv h \<Longrightarrow> word_range (GetBalance (eHost E) a h)"
    and context_range: "hinv h \<Longrightarrow> 0 \<le> sint (ctxNumber (GetTxContext (eHost E) h)) \<and>
      0 \<le> sint (ctxTimestamp (GetTxContext (eHost E) h)) \<and> 0 \<le> sint (ctxGasLimit (GetTxContext (eHost E) h))"
    and hash_length: "length (keccak (eCurve E) d) = 32"
    and code_size: "hinv h \<Longrightarrow> GetCodeSize (eHost E) a h = (n, h') \<Longrightarrow> n < 2 ^ 62 \<and> hinv h' \<and> R h h'"
    and get_code: "hinv h \<Longrightarrow> GetCode (eHost E) a h = (code, h') \<Longrightarrow> length code < 2 ^ 62 \<and> hinv h' \<and> R h h'"
    and set_storage: "\<not> static \<Longrightarrow> hinv h \<Longrightarrow> SetStorage (eHost E) a key v f h = (st, h') \<Longrightarrow> hinv h' \<and> R h h'"
    and emit_log: "\<not> static \<Longrightarrow> hinv h \<Longrightarrow> hinv (EmitLog (eHost E) a ts d h) \<and> R h (EmitLog (eHost E) a ts d h)"
    and self_destruct: "\<not> static \<Longrightarrow> hinv h \<Longrightarrow> hinv (Selfdestruct (eHost E) a b h) \<and> R h (Selfdestruct (eHost E) a b h)"
    and callx: "hinv h \<Longrightarrow> contract_ok k \<Longrightarrow> static \<longrightarrow> static_contract k \<Longrightarrow> Callx (eHost E) k h = Some (r, h') \<Longrightarrow>
      hinv h' \<and> R h h' \<and> rGasLeft r \<le> cGas k \<and> length (rReturnValue r) < 2 ^ 62"
begin

definition inv :: "'h vm \<Rightarrow> bool" where
  "inv c \<longleftrightarrow> vm_ok c \<and> hinv (vm_host c) \<and> (static \<longrightarrow> cStatic (vm_msg c))"

text \<open>From \<open>c0\<close> to \<open>c\<close> at least \<open>n\<close> gas was spent or the machine has stopped.\<close>

definition good :: "nat \<Rightarrow> 'h vm \<Rightarrow> 'h vm \<Rightarrow> bool" where
  "good n c0 c \<longleftrightarrow> inv c \<and> vm_same c0 c \<and> R (vm_host c0) (vm_host c) \<and>
     (vm_stop c \<or> unat (vm_gas c) + n \<le> unat (vm_gas c0))"

text \<open>A result is good; a panic is admitted if \<open>p\<close>.\<close>

definition okp :: "bool \<Rightarrow> nat \<Rightarrow> 'h vm \<Rightarrow> 'h vm option \<Rightarrow> bool" where
  "okp p n c0 m \<longleftrightarrow> (case m of None \<Rightarrow> p | Some c \<Rightarrow> good n c0 c)"

lemma good_refl: "inv c \<Longrightarrow> good 0 c c"
  by (simp add: good_def R_refl)

lemma goodD: "good n c0 c \<Longrightarrow> inv c"
  by (simp add: good_def)

lemma good_trans: "good k c0 c \<Longrightarrow> good n c c' \<Longrightarrow> vm_stop c' \<or> \<not> vm_stop c \<Longrightarrow> good (k + n) c0 c'"
  by (auto simp: good_def intro: vm_same_trans R_trans)

lemma good_mono: "good k c0 c \<Longrightarrow> n \<le> k \<Longrightarrow> good n c0 c"
  by (auto simp: good_def)

lemma okp_Some: "good k c0 c \<Longrightarrow> n \<le> k \<Longrightarrow> okp p n c0 (Some c)"
  by (simp add: okp_def good_mono)

lemma okp_Some0: "good k c0 c \<Longrightarrow> okp p 0 c0 (Some c)"
  by (simp add: okp_Some)

lemma okp_if: "(b \<Longrightarrow> okp p n c0 x) \<Longrightarrow> (\<not> b \<Longrightarrow> okp p n c0 y) \<Longrightarrow> okp p n c0 (if b then x else y)"
  by simp

section \<open>Rules\<close>

lemma good_stack:
  "good k c0 c \<Longrightarrow> \<forall>v\<in>set s. word_range v \<Longrightarrow> good k c0 (c\<lparr>vm_stack := s\<rparr>)"
  by (auto simp: good_def inv_def ok_defs)

lemma good_range: "good k c0 c \<Longrightarrow> v \<in> set (vm_stack c) \<Longrightarrow> word_range v"
  by (auto simp: good_def inv_def ok_defs)

lemma in_set_tl: "x \<in> set (tl xs) \<Longrightarrow> x \<in> set xs"
  by (cases xs) auto

lemma good_push: "good k c0 c \<Longrightarrow> word_range v \<Longrightarrow> good k c0 (push v c)"
  unfolding push_def by (rule good_stack) (auto dest: good_range)

lemma good_set_top: "good k c0 c \<Longrightarrow> word_range v \<Longrightarrow> good k c0 (set_top v c)"
  unfolding set_top_def by (rule good_stack) (auto dest: good_range in_set_tl)

lemma good_exit: "good k c0 c \<Longrightarrow> good n c0 (exit e c)"
  by (auto simp: good_def inv_def ok_defs exit_def)

lemma good_halt: "good k c0 c \<Longrightarrow> good n c0 (halt c)"
  by (auto simp: good_def inv_def ok_defs halt_def)

lemma okp_exit: "good k c0 c \<Longrightarrow> okp p n c0 (Some (exit e c))"
  by (simp add: okp_def good_exit)

lemma okp_popv:
  assumes "good k c0 c" "p \<or> vm_stack c \<noteq> []"
    and "\<And>v s. vm_stack c = v # s \<Longrightarrow> word_range v \<Longrightarrow> good k c0 (c\<lparr>vm_stack := s\<rparr>) \<Longrightarrow> okp p n c0 (f v (c\<lparr>vm_stack := s\<rparr>))"
  shows "okp p n c0 (popv c \<bind> (\<lambda>(v, c). f v c))"
proof (cases "vm_stack c")
  case Nil
  then show ?thesis using assms(2) by (simp add: popv_def pop_def okp_def)
next
  case (Cons v s)
  then have "word_range v" "good k c0 (c\<lparr>vm_stack := s\<rparr>)"
    using good_range [OF assms(1)] good_stack [OF assms(1)] by auto
  then show ?thesis using assms(3) [OF Cons] Cons by (simp add: popv_def pop_def)
qed

lemma okp_top:
  assumes "good k c0 c" "p \<or> vm_stack c \<noteq> []" "\<And>v. v \<in> set (vm_stack c) \<Longrightarrow> word_range v \<Longrightarrow> okp p n c0 (f v)"
  shows "okp p n c0 (vm_top c \<bind> f)"
  using assms good_range [OF assms(1)] by (cases "vm_stack c") (auto simp: vm_top_def okp_def)

lemma consumeGas_good:
  assumes "good k c0 c" "consumeGas g c = (ok, c')"
  shows "ok \<Longrightarrow> good (k + unat g) c0 c'" "\<not> ok \<Longrightarrow> good n c0 c'" "vm_stack c' = vm_stack c"
    "ok \<Longrightarrow> c' = c\<lparr>vm_gas := vm_gas c - g\<rparr> \<and> g \<le> vm_gas c"
proof -
  show "ok \<Longrightarrow> c' = c\<lparr>vm_gas := vm_gas c - g\<rparr> \<and> g \<le> vm_gas c" "vm_stack c' = vm_stack c"
    using assms(2) by (auto simp: consumeGas_def exit_def split: if_splits)
  show "\<not> ok \<Longrightarrow> good n c0 c'" using assms by (auto simp: consumeGas_def split: if_splits intro: good_exit)
  assume ok
  then have c': "c' = c\<lparr>vm_gas := vm_gas c - g\<rparr>" "g \<le> vm_gas c"
    using assms(2) by (auto simp: consumeGas_def split: if_splits)
  then have "unat (vm_gas c - g) = unat (vm_gas c) - unat g" "vm_gas c - g \<le> vm_gas c"
    by (simp_all add: unat_sub word_sub_le)
  then show "good (k + unat g) c0 c'"
    using assms(1) c' by (auto simp: good_def inv_def ok_defs word_le_nat_alt)
qed

lemma okp_with_gas:
  assumes "good k c0 c"
    and "\<And>c'. good (k + unat g) c0 c' \<Longrightarrow> c' = c\<lparr>vm_gas := vm_gas c - g\<rparr> \<Longrightarrow> okp p n c0 (f c')"
  shows "okp p n c0 (with_gas g c f)"
proof -
  obtain ok c' where c': "consumeGas g c = (ok, c')" by (cases "consumeGas g c")
  note G = consumeGas_good [OF assms(1) c']
  show ?thesis using assms(2) [of c'] G(1,2,4) by (cases ok) (auto simp: with_gas_def c' okp_def)
qed

lemma checkMemory_good:
  assumes "good k c0 c" "0 \<le> sz" "checkMemory (eGrow E) off sz c = (ok, c')"
  shows "good k c0 c'" "vm_stack c' = vm_stack c" "ok \<Longrightarrow> in_memory off sz c'" "\<not> ok \<Longrightarrow> good n c0 c'"
    "vm_host c' = vm_host c" "vm_msg c' = vm_msg c" "vm_config c' = vm_config c" "vm_returnData c' = vm_returnData c"
    "length (vm_memory c) \<le> length (vm_memory c')" "ok \<Longrightarrow> vm_ip c' = vm_ip c" "vm_cap c \<le> vm_cap c'"
proof -
  have m: "mem_ok c" using assms(1) by (simp add: good_def inv_def vm_ok_def base_ok_def)
  have "good k c0 c' \<and> vm_stack c' = vm_stack c \<and> (ok \<longrightarrow> in_memory off sz c') \<and> (\<not> ok \<longrightarrow> good n c0 c') \<and>
    vm_host c' = vm_host c \<and> vm_msg c' = vm_msg c \<and> vm_config c' = vm_config c \<and> vm_returnData c' = vm_returnData c \<and>
    length (vm_memory c) \<le> length (vm_memory c') \<and> (ok \<longrightarrow> vm_ip c' = vm_ip c) \<and> vm_cap c \<le> vm_cap c'"
    using m assms(2,3) grow
  proof (cases rule: checkMemory_cases)
    case inside
    then show ?thesis using assms(1) by simp
  next
    case (failed e l)
    have "good k c0 (c\<lparr>vm_lastGasCost := l\<rparr>)" using assms(1) by (auto simp: good_def inv_def ok_defs)
    then have "good j c0 c'" for j using failed by (simp add: good_exit)
    then show ?thesis using failed by (simp add: exit_def)
  next
    case (grown w cap)
    define cost where "cost = mem_cost (of_nat w) - vm_lastGasCost c"
    have g: "unat (vm_gas c - cost) = unat (vm_gas c) - unat cost" "vm_gas c - cost \<le> vm_gas c"
      using grown(7) by (simp_all add: cost_def unat_sub word_sub_le)
    have "good k c0 c'"
      using assms(1) g grown(3,5,6) by (auto simp: grown(8) cost_def [symmetric] good_def inv_def ok_defs)
    then show ?thesis using grown(1,3,4) by (simp add: grown(8))
  qed
  then show "good k c0 c'" "vm_stack c' = vm_stack c" "ok \<Longrightarrow> in_memory off sz c'" "\<not> ok \<Longrightarrow> good n c0 c'"
    "vm_host c' = vm_host c" "vm_msg c' = vm_msg c" "vm_config c' = vm_config c" "vm_returnData c' = vm_returnData c"
    "length (vm_memory c) \<le> length (vm_memory c')" "ok \<Longrightarrow> vm_ip c' = vm_ip c"
    "vm_cap c \<le> vm_cap c'" by auto
qed

end

end
