(* ===== verification/EvmStep.thy ===== *)
theory EvmStep
  imports EvmSafety
begin

text \<open>
  Every instruction keeps the machine invariant: one lemma per instruction over the rules of
  \<open>EvmSafety\<close>, and from them the interpreter loop.
\<close>

section \<open>Copying\<close>

lemma min_u64_unat: "unat (min_u64 a b) = min (unat a) (unat b)"
  by (simp add: min_u64_def word_less_nat_alt min_def)

lemma length_go_copy [simp]: "length (go_copy dst src) = length dst"
  by (simp add: go_copy_def)

lemma setBytes_length:
  assumes "unat sz \<le> length dst"
  obtains b where "setBytes dst input sz off = Some b" "length b = length dst"
proof (cases "IsUint64 off")
  case True
  define beg where "beg = min_u64 (big_Uint64 off) (of_nat (length input))"
  define cs where "cs = min_u64 sz (of_nat (length input) - beg)"
  define d where "d = (if cs > 0 then go_copy dst (take (unat cs) (drop (unat beg) input)) else dst)"
  have d: "length d = length dst" by (simp add: d_def)
  have cs: "unat cs \<le> unat sz" by (simp add: cs_def min_u64_unat)
  then have sub: "unat (sz - cs) = unat sz - unat cs" by (simp add: unat_sub word_le_nat_alt)
  have "setBytes dst input sz off = Some (if sz - cs > 0
      then take (unat cs) d @ replicate (unat (sz - cs)) 0 @ drop (unat sz) d else d)"
    using True assms by (simp add: setBytes_def Let_def beg_def [symmetric] cs_def [symmetric] d_def)
  then show thesis using that assms cs d sub by auto
qed (use that assms in \<open>simp add: setBytes_def\<close>)

lemma nat_limbs_length: "length (nat_limbs n) \<le> k \<longleftrightarrow> n < 2 ^ (64 * k)"
proof (induction n arbitrary: k rule: nat_limbs.induct)
  case (1 n)
  show ?case
  proof (cases "n = 0 \<or> k = 0")
    case True
    then show ?thesis by (auto simp: nat_limbs.simps [of n])
  next
    case False
    then obtain j where j: "k = Suc j" "n \<noteq> 0" by (cases k) auto
    have "(2 :: nat) ^ (64 * k) = 2 ^ (64 * j) * 2 ^ 64" by (simp add: j(1) power_add)
    then have "n < 2 ^ (64 * k) \<longleftrightarrow> n div 2 ^ 64 < 2 ^ (64 * j)" by (simp only: div_less_iff_less_mult zero_less_numeral zero_less_power)
    also have "\<dots> \<longleftrightarrow> length (nat_limbs (n div 2 ^ 64)) \<le> j" using 1 j by simp
    also have "\<dots> \<longleftrightarrow> length (nat_limbs n) \<le> k" using j by (simp add: nat_limbs.simps [of n])
    finally show ?thesis by simp
  qed
qed

lemma mstore_bytes_length:
  "n \<le> i \<Longrightarrow> \<exists>b. mstore_bytes n d (i, buf) = Some (i - n, b) \<and> length b = length buf"
proof (induction n arbitrary: d i buf)
  case (Suc n)
  then show ?case using Suc.IH [of "i - 1" "drop_bit 8 d" "buf[i - 1 := ucast d]"] by auto
qed simp

lemma mstore_words_length:
  "8 * length ds \<le> i \<Longrightarrow> \<exists>b. mstore_words ds (i, buf) = Some (i - 8 * length ds, b) \<and> length b = length buf"
proof (induction ds arbitrary: i buf)
  case (Cons d ds)
  obtain b where b: "mstore_bytes 8 d (i, buf) = Some (i - 8, b)" "length b = length buf"
    using mstore_bytes_length [of 8 i d buf] Cons.prems by auto
  show ?case using Cons.IH [of "i - 8" b] Cons.prems b by auto
qed simp

lemma length_setCode_loop [simp]: "length (setCode_loop code i buf) = length buf"
  by (induction code i buf rule: setCode_loop.induct) (subst setCode_loop.simps, simp add: Let_def bitmap_set_def)

lemma length_setCode [simp]: "length (setCode code) = length code div 8 + 1"
  by (simp add: setCode_def)

lemma sint_pred: "unat (w :: u64) = k \<Longrightarrow> k < 2 ^ 62 \<Longrightarrow> sint (w - 1) = int k - 1 \<and> - 1 \<le> sint (w - 1)"
proof -
  assume w: "unat w = k" "k < 2 ^ 62"
  have "w - 1 = word_of_int (int k - 1)" by (simp flip: w(1))
  then have "sint (w - 1) = signed_take_bit 63 (int k - 1)" by (simp only: sint_sbintrunc') simp
  also have "\<dots> = int k - 1" using w(2) by (intro signed_take_bit_int_eq_self) simp_all
  finally show ?thesis by simp
qed

lemma opcode_distinct [simp]:
  "CALL \<noteq> CALLCODE" "CALL \<noteq> DELEGATECALL" "CALL \<noteq> STATICCALL" "CALLCODE \<noteq> CALL" "CALLCODE \<noteq> DELEGATECALL"
  "CALLCODE \<noteq> STATICCALL" "DELEGATECALL \<noteq> CALL" "DELEGATECALL \<noteq> CALLCODE" "DELEGATECALL \<noteq> STATICCALL"
  "STATICCALL \<noteq> CALL" "STATICCALL \<noteq> CALLCODE" "STATICCALL \<noteq> DELEGATECALL" "CREATE \<noteq> CREATE2" "CREATE2 \<noteq> CREATE"
  by (simp_all add: opcode_defs)

text \<open>After EIP-150 the price of a call and the gas for the callee do not wrap around.\<close>

lemma call_gas_no_wrap:
  assumes "EIP150 (vm_config c)" "call_gas gc ig c = Some g" "unat gc \<le> 40000"
  shows "unat (gc + g) = unat gc + unat g"
proof -
  define av where "av = vm_gas c - gc"
  have "g \<le> av - av div 64"
    using assms(1,2) by (auto simp: call_gas_def Let_def av_def not_less split: if_splits)
  then have "unat g \<le> unat (av - av div 64)" by (simp add: word_le_nat_alt)
  also have "\<dots> = unat av - unat av div 64" by (subst unat_sub) (simp_all add: word_le_nat_alt unat_div)
  finally have g: "unat g \<le> unat av - unat av div 64" .
  have "unat gc + unat g < 2 ^ 64"
  proof (cases "gc \<le> vm_gas c")
    case True
    then have "unat av = unat (vm_gas c) - unat gc" "unat gc \<le> unat (vm_gas c)" by (simp_all add: av_def unat_sub word_le_nat_alt)
    then have "unat gc + unat g \<le> unat (vm_gas c)" using g by linarith
    then show ?thesis using le_less_trans [OF _ unat_u64_bound [of "vm_gas c"]] by simp
  next
    case False
    have "unat av \<le> 64 * (unat av div 64) + 63" by simp
    then have "unat av - unat av div 64 + 40000 < 18446744073709551616" using unat_u64_bound [of av] by linarith
    then show ?thesis using g assms(3) by simp
  qed
  then show ?thesis by (rule u64_add_unat)
qed

lemma call_gasCost_bounds:
  assumes "EIP150 (vm_config c)"
  shows "700 + (if tv then 9000 else 0) \<le> unat (call_gasCost E op addr tv c)" "unat (call_gasCost E op addr tv c) \<le> 40000"
  using assms by (auto simp: call_gasCost_def Let_def)

text \<open>Some call made by the frame \<open>c\<close> panics.\<close>

definition callee_panics :: "('h, 'v, 'prv, 'pub) env \<Rightarrow> ('h \<Rightarrow> bool) \<Rightarrow> 'h vm \<Rightarrow> bool" where
  "callee_panics E hinv c \<longleftrightarrow> (\<exists>k h. contract_ok k \<and> hinv h \<and> cDepth k = cDepth (vm_msg c) + 1 \<and> Callx (eHost E) k h = None)"

section \<open>Derived rules\<close>

context evm_host begin

lemma good_memory: "good k c0 c \<Longrightarrow> length m = length (vm_memory c) \<Longrightarrow> good k c0 (c\<lparr>vm_memory := m\<rparr>)"
  by (auto simp: good_def inv_def ok_defs)

lemma good_host: "good k c0 c \<Longrightarrow> hinv h \<and> R (vm_host c) h \<Longrightarrow> good k c0 (c\<lparr>vm_host := h\<rparr>)"
  by (auto simp: good_def inv_def ok_defs intro: R_trans)

lemma good_ret: "good k c0 c \<Longrightarrow> length b < 2 ^ 62 \<Longrightarrow> good k c0 (c\<lparr>vm_ret := b\<rparr>)"
  by (auto simp: good_def inv_def ok_defs)

lemma good_returnData: "good k c0 c \<Longrightarrow> length b < 2 ^ 62 \<Longrightarrow> good k c0 (c\<lparr>vm_returnData := b\<rparr>)"
  by (auto simp: good_def inv_def ok_defs)

lemma good_ip: "good k c0 c \<Longrightarrow> - 1 \<le> i \<Longrightarrow> good k c0 (c\<lparr>vm_ip := i\<rparr>)"
  by (auto simp: good_def inv_def ok_defs)

lemma good_hinv: "good k c0 c \<Longrightarrow> hinv (vm_host c)"
  by (simp add: good_def inv_def)

lemma good_msg: "good k c0 c \<Longrightarrow> contract_ok (vm_msg c)"
  by (simp add: good_def inv_def vm_ok_def base_ok_def)

lemma good_static: "good k c0 c \<Longrightarrow> static \<Longrightarrow> inStaticCall c"
  unfolding good_def inv_def inStaticCall_def by blast

lemma okp_with_gas0:
  assumes "good k c0 c"
    and "\<And>c'. good (k + unat g) c0 c' \<Longrightarrow> vm_stack c' = vm_stack c \<Longrightarrow> vm_memory c' = vm_memory c \<Longrightarrow> okp p n c0 (f c')"
  shows "okp p n c0 (with_gas g c f)"
  by (rule okp_with_gas [OF assms(1)]) (simp add: assms(2))

lemma okp_with_mem:
  assumes "good k c0 c" "word_range sz"
    and "\<And>c'. good k c0 c' \<Longrightarrow> in_memory off sz c' \<Longrightarrow> vm_stack c' = vm_stack c \<Longrightarrow> okp p n c0 (f c')"
  shows "okp p n c0 (with_mem (eGrow E) off sz c f)"
proof -
  obtain ok c' where c': "checkMemory (eGrow E) off sz c = (ok, c')" by (cases "checkMemory (eGrow E) off sz c")
  have "0 \<le> sz" using assms(2) by (simp add: word_range_def)
  note G = checkMemory_good [OF assms(1) this c']
  show ?thesis using assms(3) [OF G(1)] G(2,3) G(4) [of n] by (cases ok) (simp_all add: with_mem_def c' okp_def)
qed

lemma okp_get2:
  assumes "good k c0 c" "word_range sz"
    and "\<And>b c'. good k c0 c' \<Longrightarrow> length b = nat sz \<Longrightarrow> in_memory off sz c' \<Longrightarrow> vm_stack c' = vm_stack c \<Longrightarrow> okp p n c0 (f (Some b) c')"
    and "\<And>c'. (\<And>j. good j c0 c') \<Longrightarrow> okp p n c0 (f None c')"
  shows "okp p n c0 (get2 (eGrow E) off sz c \<bind> (\<lambda>(b, c). f b c))"
proof (cases "sz = 0")
  case True
  then show ?thesis using assms(3) [OF assms(1), of "[]"] by (simp add: get2_def in_memory_def)
next
  case False
  obtain ok c' where c': "checkMemory (eGrow E) off sz c = (ok, c')" by (cases "checkMemory (eGrow E) off sz c")
  have "0 \<le> sz" using assms(2) by (simp add: word_range_def)
  note G = checkMemory_good [OF assms(1) this c']
  show ?thesis
  proof (cases ok)
    case True
    note M = in_memory_unat [OF G(3) [OF True] False]
    have "length (take (nat sz) (drop (nat off) (vm_memory c'))) = nat sz" using M(4) by simp
    then show ?thesis using assms(3) [OF G(1) _ G(3) [OF True] G(2)] False True M by (simp add: get2_def c' Let_def)
  next
    case bad: False
    then show ?thesis using assms(4) [of c'] G(4) False by (simp add: get2_def c' Let_def)
  qed
qed

lemma popv_Cons [simp]: "vm_stack c = v # s \<Longrightarrow> popv c = Some (v, c\<lparr>vm_stack := s\<rparr>)"
  by (simp add: popv_def pop_def)

lemma vm_top_Cons [simp]: "vm_stack c = v # s \<Longrightarrow> vm_top c = Some v"
  by (simp add: vm_top_def)

lemma okp_stack: "inv c \<Longrightarrow> \<forall>v\<in>set s. word_range v \<Longrightarrow> okp p 0 c (Some (c\<lparr>vm_stack := s\<rparr>))"
  by (simp add: okp_def good_stack good_refl)

lemma inv_range: "inv c \<Longrightarrow> \<forall>v\<in>set (vm_stack c). word_range v"
  by (simp add: inv_def vm_ok_def stack_ok_def)

lemma okp_exit': "inv c \<Longrightarrow> okp p n c (Some (exit e c))"
  by (rule okp_exit [OF good_refl])

section \<open>Arithmetic\<close>

lemma arith_ok:
  assumes "inv c" "2 \<le> length (vm_stack c)"
  shows "okp False 0 c (opAdd c)" "okp False 0 c (opMul c)" "okp False 0 c (opSub c)" "okp False 0 c (opDiv c)"
    "okp False 0 c (opSDiv c)" "okp False 0 c (opMod c)" "okp False 0 c (opSMod c)"
    "okp False 0 c (opAnd c)" "okp False 0 c (opOr c)" "okp False 0 c (opXor c)"
    "okp False 0 c (opEq c)" "okp False 0 c (opLt c)" "okp False 0 c (opGt c)" "okp False 0 c (opSlt c)" "okp False 0 c (opSgt c)"
proof -
  obtain a b s where st: "vm_stack c = a # b # s" using assms(2) by (metis One_nat_def Suc_1 Suc_le_length_iff)
  then have r: "word_range a" "word_range b" "\<forall>v\<in>set s. word_range v" using inv_range [OF assms(1)] by auto
  note S = st okp_stack [OF assms(1)] r word_range_bits set_top_def Let_def
  show "okp False 0 c (opAdd c)" "okp False 0 c (opMul c)" "okp False 0 c (opSub c)" "okp False 0 c (opDiv c)"
    "okp False 0 c (opSDiv c)" "okp False 0 c (opMod c)" "okp False 0 c (opSMod c)"
    by (simp_all add: S opAdd_def opMul_def opSub_def opDiv_def opSDiv_def opMod_def opSMod_def)
  show "okp False 0 c (opAnd c)" "okp False 0 c (opOr c)" "okp False 0 c (opXor c)"
    by (simp_all add: S opAnd_def opOr_def opXor_def)
  show "okp False 0 c (opEq c)" "okp False 0 c (opLt c)" "okp False 0 c (opGt c)" "okp False 0 c (opSlt c)" "okp False 0 c (opSgt c)"
    by (simp_all add: S opEq_def opLt_def opGt_def opSlt_def opSgt_def)
qed

lemma word_range_byte: "word_range (x AND 255)"
proof -
  have "x AND 255 = take_bit 8 x" by (simp add: take_bit_eq_mask mask_eq_exp_minus_1)
  then have "0 \<le> x AND 255" "x AND 255 < 256" by (simp_all add: take_bit_eq_mod)
  then show ?thesis by (simp add: word_range_def)
qed

lemma word_range_exp: "word_range x \<Longrightarrow> word_range (exp_words ds x 1)"
proof -
  assume "word_range x"
  then obtain X :: "256 word" where "x = uint X" using word_range_word by blast
  then show ?thesis using exp_words_power [of ds X 1] uint_256 [of "1 * X ^ limbs_val ds"]
    by (simp add: word_range_def)
qed

lemma arith2_ok:
  assumes "inv c" "2 \<le> length (vm_stack c)"
  shows "okp False 0 c (opByte c)" "okp False 0 c (opExp c)"
    "okp False 0 c (opShl c)" "okp False 0 c (opShr c)" "okp False 0 c (opSar c)"
proof -
  obtain a b s where st: "vm_stack c = a # b # s" using assms(2) by (metis One_nat_def Suc_1 Suc_le_length_iff)
  then have r: "word_range a" "word_range b" "\<forall>v\<in>set s. word_range v" using inv_range [OF assms(1)] by auto
  have m1: "word_range tt256m1" using word_range_toU256 [of "- 1"] by (simp add: toU256_minus_1)
  note S = st okp_stack [OF assms(1)] r set_top_def Let_def
  show "okp False 0 c (opByte c)" by (simp add: S opByte_def word_range_byte)
  show "okp False 0 c (opShl c)" "okp False 0 c (opShr c)" "okp False 0 c (opSar c)"
    by (simp_all add: S opShl_def opShr_def opSar_def okp_exit' [OF assms(1)] m1)
  have "good 0 c (c\<lparr>vm_stack := b # s\<rparr>)" using r by (intro good_stack good_refl assms) simp
  then show "okp False 0 c (opExp c)"
    by (auto simp: st opExp_def Let_def intro!: okp_with_gas okp_Some good_set_top word_range_exp r)
qed

lemma arith1_ok:
  assumes "inv c" "1 \<le> length (vm_stack c)"
  shows "okp False 0 c (opNot c)" "okp False 0 c (opIsZero c)" "okp False 0 c (opSignExtension c)" "okp False 0 c (opPop c)"
proof -
  obtain a s where st: "vm_stack c = a # s" using assms(2) by (cases "vm_stack c") auto
  then have r: "word_range a" "\<forall>v\<in>set s. word_range v" using inv_range [OF assms(1)] by auto
  note S = st okp_stack [OF assms(1)] r set_top_def Let_def
  show "okp False 0 c (opNot c)" "okp False 0 c (opIsZero c)" "okp False 0 c (opPop c)"
    by (simp_all add: S opNot_def opIsZero_def opPop_def pop_def)
  show "okp False 0 c (opSignExtension c)"
    using r by (cases s) (auto simp: S opSignExtension_def vm_top_def)
qed

lemma arith3_ok:
  assumes "inv c" "3 \<le> length (vm_stack c)"
  shows "okp False 0 c (opAddMod c)" "okp False 0 c (opMulMod c)"
proof -
  obtain a b m s where st: "vm_stack c = a # b # m # s"
    using assms(2) by (metis One_nat_def Suc_1 Suc_le_length_iff numeral_3_eq_3)
  then have r: "\<forall>v\<in>set s. word_range v" using inv_range [OF assms(1)] by auto
  show "okp False 0 c (opAddMod c)" "okp False 0 c (opMulMod c)"
    using r by (simp_all add: st okp_stack [OF assms(1)] set_top_def opAddMod_def opMulMod_def)
qed

section \<open>Context\<close>

lemma okp_push: "inv c \<Longrightarrow> word_range v \<Longrightarrow> okp p 0 c (Some (push v c))"
  by (simp add: okp_def good_push good_refl)

lemma word_range_addr [simp]: "word_range (SetBytes (Address_Bytes a))" "word_range (SetBytes (Hash_Bytes h))"
  by (rule word_range_SetBytes, simp)+

lemma word_range_balance: "inv c \<Longrightarrow> word_range (GetBalance (eHost E) a (vm_host c))"
  by (simp add: inv_def balance_range)

lemma word_range_sint: "0 \<le> sint (x :: u64) \<Longrightarrow> word_range (sint x)"
  using sint_lt [of x] by (simp add: word_range_def)

lemma context_ok:
  assumes "inv c" "0 \<le> vm_ip c" "vm_ip c < int (length (vm_code c))"
  shows "okp False 0 c (opAddress c)" "okp False 0 c (opSelfBalance E c)" "okp False 0 c (opChainID E c)"
    "okp False 0 c (opOrigin E c)" "okp False 0 c (opCaller c)" "okp False 0 c (opCallValue c)"
    "okp False 0 c (opCallDataSize c)" "okp False 0 c (opCodeSize c)" "okp False 0 c (opGasPrice E c)"
    "okp False 0 c (opReturnDataSize c)" "okp False 0 c (opPC c)" "okp False 0 c (opMSize c)" "okp False 0 c (opGas c)"
    "okp False 0 c (opCoinbase E c)" "okp False 0 c (opTimestamp E c)" "okp False 0 c (opNumber E c)"
    "okp False 0 c (opDifficulty E c)" "okp False 0 c (opGasLimit E c)" "okp False 0 c (opJumpDest c)"
proof -
  have v: "word_range (case cValue (vm_msg c) of Some v \<Rightarrow> v | None \<Rightarrow> 0)" "length (cInput (vm_msg c)) < 2 ^ 62"
    "length (vm_code c) < 2 ^ 62" "length (vm_returnData c) < 2 ^ 62" "length (vm_memory c) < 2 ^ 42" "hinv (vm_host c)"
    using assms(1) by (auto simp: inv_def ok_defs contract_ok_def split: option.splits)
  have ip: "word_range (vm_ip c)" using assms(2,3) v(3) by (simp add: word_range_def)
  note S = okp_push [OF assms(1)] okp_exit' [OF assms(1)] word_range_balance [OF assms(1)] word_range_length
    word_range_sint context_range [OF v(6)] v ip
  show "okp False 0 c (opAddress c)" "okp False 0 c (opSelfBalance E c)" "okp False 0 c (opChainID E c)"
    "okp False 0 c (opOrigin E c)" "okp False 0 c (opCaller c)" "okp False 0 c (opCallValue c)"
    by (simp_all add: S opAddress_def opSelfBalance_def opChainID_def opOrigin_def opCaller_def opCallValue_def)
  show "okp False 0 c (opCallDataSize c)" "okp False 0 c (opCodeSize c)" "okp False 0 c (opGasPrice E c)"
    "okp False 0 c (opReturnDataSize c)" "okp False 0 c (opPC c)" "okp False 0 c (opMSize c)" "okp False 0 c (opGas c)"
    using v by (simp_all add: S opCallDataSize_def opCodeSize_def opGasPrice_def opReturnDataSize_def opPC_def opMSize_def opGas_def)
  show "okp False 0 c (opCoinbase E c)" "okp False 0 c (opTimestamp E c)" "okp False 0 c (opNumber E c)"
    "okp False 0 c (opDifficulty E c)" "okp False 0 c (opGasLimit E c)" "okp False 0 c (opJumpDest c)"
    by (simp_all add: S opCoinbase_def opTimestamp_def opNumber_def opDifficulty_def opGasLimit_def opJumpDest_def
        okp_Some0 [OF good_refl [OF assms(1)]])
qed

section \<open>Storage and host queries\<close>

lemma popAddr_good:
  assumes "good k c0 c" "popAddr c = (a, c')"
  shows "good k c0 c'" "length (vm_stack c') = length (vm_stack c) - 1" "vm_config c' = vm_config c" "vm_host c' = vm_host c"
    "vm_msg c' = vm_msg c" "vm_gas c' = vm_gas c"
proof -
  have "c' = c\<lparr>vm_stack := tl (vm_stack c)\<rparr>"
    using assms(2) by (cases "vm_stack c") (auto simp: popAddr_def pop_def)
  then show "good k c0 c'" "length (vm_stack c') = length (vm_stack c) - 1" "vm_config c' = vm_config c" "vm_host c' = vm_host c"
    "vm_msg c' = vm_msg c" "vm_gas c' = vm_gas c"
    using good_stack [OF assms(1), of "tl (vm_stack c)"] good_range [OF assms(1)] by (auto dest: in_set_tl)
qed

lemma query_ok:
  assumes "inv c" "1 \<le> length (vm_stack c)"
  shows "okp False 1 c (opSload E c)" "okp False 1 c (opBalance E c)" "okp False 1 c (opExtCodeSize E c)"
    "okp False 1 c (opExtCodeHash E c)" "okp False 0 c (opBlockHash E c)" "okp False 0 c (opCallDataLoad c)"
proof -
  have g: "good 0 c c" by (rule good_refl [OF assms(1)])
  obtain v s where st: "vm_stack c = v # s" using assms(2) by (cases "vm_stack c") auto
  obtain a c' where ac: "popAddr c = (a, c')" by (cases "popAddr c")
  note P = popAddr_good [OF g ac]
  show "okp False 1 c (opSload E c)"
    by (auto simp: st opSload_def Let_def intro!: okp_with_gas [OF g] okp_Some good_set_top)
  show "okp False 1 c (opBalance E c)"
    by (auto simp: ac opBalance_def Let_def intro!: okp_with_gas [OF P(1)] okp_Some good_push balance_range good_hinv)
  show "okp False 1 c (opExtCodeHash E c)"
    by (auto simp: ac opExtCodeHash_def Let_def intro!: okp_with_gas [OF P(1)] okp_Some good_push okp_exit' assms)
  show "okp False 1 c (opExtCodeSize E c)"
  proof -
    have "okp False 1 c (let (n, h) = GetCodeSize (eHost E) a (vm_host d) in Some (push (int n) (d\<lparr>vm_host := h\<rparr>)))"
      if "good k c d" "1 \<le> k" for k d
    proof -
      obtain n h where nh: "GetCodeSize (eHost E) a (vm_host d) = (n, h)" by (cases "GetCodeSize (eHost E) a (vm_host d)")
      have "n < 2 ^ 62 \<and> hinv h \<and> R (vm_host d) h" by (rule code_size [OF good_hinv [OF that(1)] nh])
      then show ?thesis using that
        by (auto simp: nh intro!: okp_Some good_push good_host word_range_length)
    qed
    then show ?thesis by (auto simp: ac opExtCodeSize_def Let_def [of "if _ then _ else _"] intro!: okp_with_gas0 [OF P(1)])
  qed
  show "okp False 0 c (opBlockHash E c)"
    by (auto simp: st opBlockHash_def Let_def intro!: okp_Some0 good_set_top [OF g])
  show "okp False 0 c (opCallDataLoad c)"
  proof -
    obtain buf where "setBytes (replicate 32 0) (cInput (vm_msg c)) 32 v = Some buf" "length buf = 32"
      using setBytes_length [of 32 "replicate 32 0" "cInput (vm_msg c)" v] by auto
    then show ?thesis
      by (auto simp: st opCallDataLoad_def intro!: okp_Some0 good_set_top [OF g] word_range_SetBytes)
  qed
qed

section \<open>Memory\<close>

lemma mload_ok:
  assumes "inv c" "1 \<le> length (vm_stack c)"
  shows "okp False 0 c (opMload E c)"
proof -
  obtain v s where st: "vm_stack c = v # s" using assms(2) by (cases "vm_stack c") auto
  then have "\<forall>v\<in>set s. word_range v" using inv_range [OF assms(1)] by auto
  then have g: "good 0 c (c\<lparr>vm_stack := s\<rparr>)" by (intro good_stack good_refl assms)
  have "okp False 0 c (get2 (eGrow E) v 32 (c\<lparr>vm_stack := s\<rparr>) \<bind> (\<lambda>(tmp, c).
      case tmp of None \<Rightarrow> Some c | Some b \<Rightarrow> Some (push (SetBytes b) c)))"
    by (rule okp_get2 [OF g]) (auto intro!: okp_Some0 good_push word_range_SetBytes simp: word_range_def)
  then show ?thesis by (simp add: opMload_def st)
qed

lemma mstore_ok:
  assumes "inv c" "2 \<le> length (vm_stack c)"
  shows "okp False 0 c (opMStore E c)" "okp False 0 c (opMStore8 E c)"
proof -
  obtain a b s where st: "vm_stack c = a # b # s" using assms(2) by (metis One_nat_def Suc_1 Suc_le_length_iff)
  then have r: "word_range b" "\<forall>v\<in>set s. word_range v" using inv_range [OF assms(1)] by auto
  then have g: "good 0 c (c\<lparr>vm_stack := s\<rparr>)" by (intro good_stack good_refl assms)
  have "length (big_Bits b) \<le> 4"
    using r(1) nat_limbs_length [of "nat b" 4] by (simp add: big_Bits_def word_range_def nat_less_iff)
  then have "8 * length (big_Bits b) \<le> 32" by simp
  note W = mstore_words_length [OF this]
  define i where "i = 32 - 8 * length (big_Bits b)"
  have i: "\<exists>b'. mstore_words (big_Bits b) (32, buf) = Some (i, b') \<and> length b' = length buf" "i \<le> 32" for buf
    using W [of buf] by (simp_all add: i_def)
  show "okp False 0 c (opMStore E c)"
    unfolding opMStore_def st popv_Cons [OF st]
  proof (simp add: st, rule okp_with_mem [OF g])
    fix d assume d: "good 0 c d" "in_memory a 32 d"
    have p: "unat (big_Uint64 a) = nat a" "nat a + 32 \<le> length (vm_memory d)"
      using in_memory_unat [OF d(2)] by simp_all
    obtain b' where b': "mstore_words (big_Bits b) (32, take 32 (drop (nat a) (vm_memory d))) = Some (i, b')" "length b' = 32"
      using i(1) [of "take 32 (drop (nat a) (vm_memory d))"] p(2) by auto
    show "okp False 0 c (let p = unat (big_Uint64 a); mem = vm_memory d
       in if p + 32 \<le> length mem
          then mstore_words (big_Bits b) (32, take 32 (drop p mem)) \<bind>
            (\<lambda>(i, buf). Some (d\<lparr>vm_memory := take p mem @ replicate i 0 @ drop i buf @ drop (p + 32) mem\<rparr>))
          else None)"
      using p i(2) b' by (auto simp: Let_def intro!: okp_Some0 good_memory [OF d(1)])
  qed (simp add: word_range_def)
  show "okp False 0 c (opMStore8 E c)"
    unfolding opMStore8_def st popv_Cons [OF st]
  proof (simp add: st, rule okp_with_mem [OF g])
    fix d assume d: "good 0 c d" "in_memory a 1 d"
    have "unat (big_Uint64 a) < length (vm_memory d)" using in_memory_unat [OF d(2)] by simp
    then show "okp False 0 c (let p = unat (big_Uint64 a)
       in if p < length (vm_memory d) then Some (d\<lparr>vm_memory := (vm_memory d)[p := ucast (big_Uint64 b AND 0xff)]\<rparr>) else None)"
      by (auto simp: Let_def intro!: okp_Some0 good_memory [OF d(1)])
  qed (simp add: word_range_def)
qed

lemma sha3_ok:
  assumes "inv c" "2 \<le> length (vm_stack c)"
  shows "okp False 0 c (opSha3 E c)"
proof -
  obtain a b s where st: "vm_stack c = a # b # s" using assms(2) by (metis One_nat_def Suc_1 Suc_le_length_iff)
  then have r: "word_range b" "\<forall>v\<in>set s. word_range v" using inv_range [OF assms(1)] by auto
  then have g: "good 0 c (c\<lparr>vm_stack := s\<rparr>)" by (intro good_stack good_refl assms)
  show ?thesis unfolding opSha3_def
    by (simp add: st, rule okp_get2 [OF g r(1)])
      (auto intro!: okp_with_gas0 okp_Some0 good_push word_range_SetBytes simp: hash_length)
qed

lemma memory_setBytes_ok:
  assumes "good k c0 c" "in_memory off sz c" "sz \<noteq> 0" "n \<le> k"
  shows "okp False n c0 (memory_setBytes (big_Uint64 off) input (big_Uint64 sz) dataOff c)"
proof -
  note M = in_memory_unat [OF assms(2,3)]
  obtain b where "setBytes (drop (nat off) (vm_memory c)) input (big_Uint64 sz) dataOff = Some b"
    "length b = length (drop (nat off) (vm_memory c))"
    by (rule setBytes_length [of "big_Uint64 sz" "drop (nat off) (vm_memory c)" input dataOff]) (use M in simp)
  then show ?thesis using M assms(4) by (auto simp: memory_setBytes_def intro!: okp_Some good_memory [OF assms(1)])
qed

lemma big_Uint64_nz: "big_Uint64 sz \<noteq> 0 \<Longrightarrow> sz \<noteq> 0"
  by (auto simp: big_Uint64_def)

lemma copy_ok:
  assumes "inv c" "3 \<le> length (vm_stack c)"
  shows "okp False 0 c (opCallDataCopy E c)" "okp False 0 c (opCodeCopy E c)"
proof -
  obtain a b l s where st: "vm_stack c = a # b # l # s"
    using assms(2) by (metis One_nat_def Suc_1 Suc_le_length_iff numeral_3_eq_3)
  then have r: "word_range l" "\<forall>v\<in>set s. word_range v" using inv_range [OF assms(1)] by auto
  then have g: "good 0 c (c\<lparr>vm_stack := s\<rparr>)" by (intro good_stack good_refl assms)
  have ok: "okp False 0 c (with_gas ((big_Uint64 l + 31) div 32 * copyGas) d
      (\<lambda>c. if big_Uint64 l \<noteq> 0 then memory_setBytes (big_Uint64 a) (f c) (big_Uint64 l) b c else Some c))"
    if "good 0 c d" "in_memory a l d" for d f
    using that
    by (intro okp_with_gas0 [OF that(1)] okp_if memory_setBytes_ok)
      (auto simp: in_memory_def dest: big_Uint64_nz intro: okp_Some0)
  show "okp False 0 c (opCallDataCopy E c)" unfolding opCallDataCopy_def Let_def
    by (simp add: st, rule okp_with_mem [OF g r(1)]) (rule ok [unfolded if_not_P])
  show "okp False 0 c (opCodeCopy E c)" unfolding opCodeCopy_def Let_def
    by (simp add: st, rule okp_with_mem [OF g r(1)]) (rule ok)
qed

section \<open>Jumps\<close>

lemma jump_to_ok:
  assumes "good k c0 c" "n \<le> k"
  shows "okp False n c0 (jump_to dest c)"
proof -
  have b: "vm_bitmap c = setCode (vm_code c)" "length (vm_code c) < 2 ^ 62"
    using assms(1) by (auto simp: good_def inv_def ok_defs contract_ok_def)
  have len: "unat (of_nat (length (vm_code c)) :: u64) = length (vm_code c)"
    using b(2) by (simp add: unsigned_of_nat take_bit_nat_eq_self)
  show ?thesis
  proof (cases "BitLen dest \<ge> 63 \<or> big_Uint64 dest \<ge> of_nat (length (vm_code c))")
    case True
    then show ?thesis using assms by (auto simp: jump_to_def validJumpdest_def Let_def intro: okp_exit)
  next
    case False
    then have lt: "unat (big_Uint64 dest) < length (vm_code c)" by (simp add: word_less_nat_alt not_le len)
    then have "unat (big_Uint64 dest) div 8 < length (vm_bitmap c)" by (simp add: b(1))
    then obtain v where v: "validJumpdest dest c = Some v" using False by (auto simp: validJumpdest_def Let_def bitmap_isSet_def)
    have "- 1 \<le> sint (big_Uint64 dest - 1)"
      using sint_pred [OF refl, of "big_Uint64 dest"] order_less_trans [OF lt b(2)] by blast
    then show ?thesis using assms by (auto simp: jump_to_def v intro: okp_exit okp_Some good_ip)
  qed
qed

lemma jump_ok: "inv c \<Longrightarrow> 1 \<le> length (vm_stack c) \<Longrightarrow> okp False 0 c (opJump c)"
proof -
  assume c: "inv c" "1 \<le> length (vm_stack c)"
  then obtain a s where st: "vm_stack c = a # s" by (cases "vm_stack c") auto
  then have "good 0 c (c\<lparr>vm_stack := s\<rparr>)" using inv_range [OF c(1)] by (intro good_stack good_refl c) auto
  then show ?thesis by (simp add: opJump_def st jump_to_ok)
qed

lemma jumpi_ok: "inv c \<Longrightarrow> 2 \<le> length (vm_stack c) \<Longrightarrow> okp False 0 c (opJumpi c)"
proof -
  assume c: "inv c" "2 \<le> length (vm_stack c)"
  then obtain a b s where st: "vm_stack c = a # b # s" by (metis One_nat_def Suc_1 Suc_le_length_iff)
  then have "good 0 c (c\<lparr>vm_stack := s\<rparr>)" using inv_range [OF c(1)] by (intro good_stack good_refl c) auto
  then show ?thesis by (simp add: opJumpi_def st jump_to_ok okp_Some0)
qed

section \<open>Stack\<close>

lemma dup_ok: "inv c \<Longrightarrow> 0 < n \<Longrightarrow> okp False 0 c (opDup n c)"
  by (auto simp: opDup_def stackAtLeast_def peekAt_def inv_range not_le intro!: okp_exit' okp_push)

lemma swap_ok: "inv c \<Longrightarrow> okp False 0 c (opSwap n c)"
proof -
  assume c: "inv c"
  have "\<forall>v\<in>set ((vm_stack c)[0 := vm_stack c ! n, n := vm_stack c ! 0]). word_range v" if "n < length (vm_stack c)"
  proof -
    have "vm_stack c ! n \<in> set (vm_stack c)" "vm_stack c ! 0 \<in> set (vm_stack c)" using that by (auto intro!: nth_mem)
    then show ?thesis using inv_range [OF c]
      by (metis insert_iff set_update_subset_insert subsetD)
  qed
  then show ?thesis using c by (auto simp: opSwap_def swap_def stackAtLeast_def Let_def intro!: okp_exit' okp_stack)
qed

lemma pop_topics_good:
  "good k c0 c \<Longrightarrow> n \<le> length (vm_stack c) \<Longrightarrow>
   \<exists>ts c'. pop_topics n c = Some (ts, c') \<and> good k c0 c'"
proof (induction n arbitrary: c)
  case (Suc n)
  then obtain v s where st: "vm_stack c = v # s" by (cases "vm_stack c") auto
  then have "good k c0 (c\<lparr>vm_stack := s\<rparr>)" using Suc.prems good_range [OF Suc.prems(1)] by (intro good_stack) auto
  then show ?case using Suc.IH [of "c\<lparr>vm_stack := s\<rparr>"] Suc.prems(2) st by auto
qed simp

lemma log_ok: "inv c \<Longrightarrow> okp False 0 c (opLog E n c)"
proof -
  assume c: "inv c"
  define m where "m = n - 1"
  have g0: "good 0 c c" by (rule good_refl [OF c])
  show ?thesis
  proof (cases "inStaticCall c \<or> \<not> stackAtLeast (2 + m) c")
    case True
    then show ?thesis using c by (auto simp: opLog_def Let_def m_def [symmetric] simp del: One_nat_def intro: okp_exit')
  next
    case False
    then obtain a b s where st: "vm_stack c = a # b # s" "m \<le> length s"
      by (auto simp: stackAtLeast_def Suc_le_length_iff)
    then have r: "word_range b" "\<forall>v\<in>set s. word_range v" using inv_range [OF c] by auto
    then have "good 0 c (c\<lparr>vm_stack := s\<rparr>)" by (intro good_stack g0)
    then obtain ts d where d: "pop_topics m (c\<lparr>vm_stack := s\<rparr>) = Some (ts, d)" "good 0 c d"
      using pop_topics_good [of 0 c "c\<lparr>vm_stack := s\<rparr>" m] st(2) by auto
    have ns: "\<not> static" using False good_static [OF g0] by blast
    have "okp False 0 c (get2 (eGrow E) a b d \<bind> (\<lambda>(tmp, c). case tmp of None \<Rightarrow> Some c
        | Some bs \<Rightarrow> with_gas (of_nat m * 375)
            (c\<lparr>vm_host := EmitLog (eHost E) (cAddress (vm_msg c)) ts bs (vm_host c)\<rparr>)
            (\<lambda>c. with_gas (big_Uint64 b * 8) c Some)))"
      by (rule okp_get2 [OF d(2) r(1)])
        (auto intro!: okp_with_gas0 okp_Some0 good_host emit_log ns good_hinv)
    then show ?thesis using False st(1) d(1) by (simp add: opLog_def Let_def m_def [symmetric] del: One_nat_def)
  qed
qed

section \<open>Writing instructions\<close>

lemma popHash_Cons [simp]: "vm_stack c = v # s \<Longrightarrow> popHash c = Some (BytesToHash (big_Bytes v), c\<lparr>vm_stack := s\<rparr>)"
  by (simp add: popHash_def)

lemma sstore_ok:
  assumes "inv c" "2 \<le> length (vm_stack c)"
  shows "okp False 1 c (opSStore E c)"
proof (cases "inStaticCall c \<or> Istanbul (vm_config c) \<and> vm_gas c \<le> 2300")
  case True
  then show ?thesis using assms by (auto simp: opSStore_def intro: okp_exit')
next
  case False
  obtain a b s where st: "vm_stack c = a # b # s" using assms(2) by (metis One_nat_def Suc_1 Suc_le_length_iff)
  then have "\<forall>v\<in>set s. word_range v" using inv_range [OF assms(1)] by auto
  then have g: "good 0 c (c\<lparr>vm_stack := s\<rparr>)" by (intro good_stack good_refl assms)
  have ns: "\<not> static" using False good_static [OF g] by (auto simp: inStaticCall_def)
  obtain status h where sh: "SetStorage (eHost E) (cAddress (vm_msg c)) (BytesToHash (big_Bytes a)) (BytesToHash (big_Bytes b))
      (vm_config c) (vm_host c) = (status, h)" by (cases "SetStorage (eHost E) (cAddress (vm_msg c)) (BytesToHash (big_Bytes a))
      (BytesToHash (big_Bytes b)) (vm_config c) (vm_host c)")
  have "hinv (vm_host c)" using good_hinv [OF g] by simp
  then have "good 0 c (c\<lparr>vm_stack := s, vm_host := h\<rparr>)" using good_host [OF g] set_storage [OF ns _ sh] by simp
  then show ?thesis using False
    by (auto simp: opSStore_def st sh Let_def split: StorageStatus.split intro!: okp_with_gas0 okp_Some)
qed

lemma selfdestruct_ok:
  assumes "inv c" shows "okp False 1 c (opSelfDestruct E c)"
proof (cases "inStaticCall c")
  case False
  obtain a c' where ac: "popAddr c = (a, c')" by (cases "popAddr c")
  note g = good_refl [OF assms]
  note P = popAddr_good [OF g ac]
  have "\<not> static" using False good_static [OF g] by blast
  then have "okp False 1 c (Some (halt (d\<lparr>vm_host := Selfdestruct (eHost E) (cAddress (vm_msg d)) a (vm_host d)\<rparr>)))"
    if "good k c d" for k d
    using good_halt [OF good_host [OF that self_destruct]] good_hinv [OF that] by (intro okp_Some [where k = 1]) auto
  then show ?thesis using False
    by (auto simp: opSelfDestruct_def ac Let_def simp del: One_nat_def intro!: okp_with_gas0 [OF P(1)])
qed (use assms in \<open>simp add: opSelfDestruct_def okp_exit'\<close>)

lemma halt_ok:
  assumes "inv c" "2 \<le> length (vm_stack c)"
  shows "okp False 1 c (opHalt E op c)"
proof (cases "op = REVERT \<and> \<not> Byzantium (vm_config c)")
  case True
  then show ?thesis using assms by (simp add: opHalt_def okp_exit')
next
  case False
  obtain a b s where st: "vm_stack c = a # b # s" using assms(2) by (metis One_nat_def Suc_1 Suc_le_length_iff)
  then have r: "word_range b" "\<forall>v\<in>set s. word_range v" using inv_range [OF assms(1)] by auto
  then have g: "good 0 c (c\<lparr>vm_stack := s\<rparr>)" by (intro good_stack good_refl assms)
  have "okp False 1 c (get2 (eGrow E) a b (c\<lparr>vm_stack := s\<rparr>) \<bind> (\<lambda>(r, c). case r of
      None \<Rightarrow> Some (c\<lparr>vm_ret := []\<rparr>)
    | Some b \<Rightarrow> let c = c\<lparr>vm_ret := b\<rparr> in Some (if op = REVERT then exit ErrExecutionReverted c else halt c)))"
    by (rule okp_get2 [OF g r(1)])
      (auto simp: Let_def in_memory_def intro!: okp_Some [OF _ order_refl] good_ret good_halt good_exit)
  then show ?thesis using False by (auto simp: opHalt_def st)
qed

lemma stop_ok: "inv c \<Longrightarrow> okp False 1 c (opStop c)"
  unfolding opStop_def by (rule okp_Some [OF good_halt order_refl]) (rule good_refl)

lemma extcodecopy_ok:
  assumes "inv c" "4 \<le> length (vm_stack c)"
  shows "okp False 1 c (opExtCodeCopy E c)"
proof -
  obtain x a b l s where st: "vm_stack c = x # a # b # l # s"
    using assms(2) by (auto simp: numeral_eq_Suc Suc_le_length_iff)
  then have r: "word_range l" "\<forall>v\<in>set s. word_range v" using inv_range [OF assms(1)] by auto
  then have g: "good 0 c (c\<lparr>vm_stack := s\<rparr>)" by (intro good_stack good_refl assms)
  have pa: "popAddr c = (BytesToAddress (big_Bytes x), c\<lparr>vm_stack := a # b # l # s\<rparr>)" (is "_ = (?adr, _)")
    by (simp add: popAddr_def pop_def st)
  define body where "body d = (let (code, h) = GetCode (eHost E) ?adr (vm_host d); d = d\<lparr>vm_host := h\<rparr>
      in if big_Uint64 l \<noteq> 0 then memory_setBytes (big_Uint64 a) code (big_Uint64 l) b d else Some d)" for d :: "'h vm"
  have op: "opExtCodeCopy E c = with_mem (eGrow E) a l (c\<lparr>vm_stack := s\<rparr>) (\<lambda>c.
      with_gas ((big_Uint64 l + 31) div 32 * copyGas) c (\<lambda>d. with_gas (if EIP150 (vm_config c) then 700 else 20) d body))"
    by (simp add: opExtCodeCopy_def pa body_def [abs_def] Let_def)
  have fin: "okp False 1 c (body d)" if "good k c d" "1 \<le> k" "in_memory a l d" for k d
  proof -
    obtain code h where ch: "GetCode (eHost E) ?adr (vm_host d) = (code, h)" by (cases "GetCode (eHost E) ?adr (vm_host d)")
    have "good k c (d\<lparr>vm_host := h\<rparr>)" using good_host [OF that(1)] get_code [OF good_hinv [OF that(1)] ch] by blast
    then show ?thesis using that
      by (auto simp: ch body_def Let_def in_memory_def simp del: One_nat_def dest: big_Uint64_nz intro!: memory_setBytes_ok okp_Some)
  qed
  show ?thesis unfolding op
    by (rule okp_with_mem [OF g r(1)], rule okp_with_gas0, assumption, rule okp_with_gas0, assumption, rule fin, assumption)
      (auto simp: in_memory_def)
qed

lemma returndatacopy_ok:
  assumes "inv c" "vm_stack c = a # b # l # s"
  shows "okp (l = 0 \<and> length (vm_memory c) < unat (big_Uint64 a)) 0 c (opReturnDataCopy E c)"
proof (cases "Byzantium (vm_config c)")
  case True
  have r: "word_range l" "word_range b" "\<forall>v\<in>set s. word_range v" using inv_range [OF assms(1)] assms(2) by auto
  then have g: "good 0 c (c\<lparr>vm_stack := s\<rparr>)" by (intro good_stack good_refl assms)
  define P where "P \<longleftrightarrow> l = 0 \<and> length (vm_memory c) < unat (big_Uint64 a)"
  have mem: "l = 0 \<Longrightarrow> with_mem (eGrow E) a l (c\<lparr>vm_stack := s\<rparr>) f = f (c\<lparr>vm_stack := s\<rparr>)" for f
    by (simp add: with_mem_def checkMemory_def)
  define body where "body d = (let end' = b + l
            in if \<not> IsUint64 end' then Some (exit errReturnDataOutOfBounds d)
               else let sz = unat (big_Uint64 end'); beg = unat (big_Uint64 b); p = unat (big_Uint64 a)
                    in if length (vm_returnData d) < sz then Some (exit errReturnDataOutOfBounds d)
                       else if sz < beg \<or> length (vm_memory d) < p then None
                       else let mem = vm_memory d; dat = take (sz - beg) (drop beg (vm_returnData d))
                            in Some (d\<lparr>vm_memory := take p mem @ go_copy (drop p mem) dat\<rparr>))" for d :: "'h vm"
  have op: "opReturnDataCopy E c = with_mem (eGrow E) a l (c\<lparr>vm_stack := s\<rparr>)
      (\<lambda>c. with_gas ((big_Uint64 l + 31) div 32 * copyGas) c body)"
    using True by (simp add: opReturnDataCopy_def assms(2) body_def [abs_def])
  have fin: "okp P 0 c (body d)"
    if d: "good k c d" "in_memory a l d" "l = 0 \<longrightarrow> vm_memory d = vm_memory c" for k d
  proof (cases "IsUint64 (b + l)")
    case True
    then have "IsUint64 b" "b \<le> b + l" using r by (auto simp: IsUint64_def word_range_def)
    then have le: "unat (big_Uint64 b) \<le> unat (big_Uint64 (b + l))" using True by (simp add: big_Uint64_unat nat_mono)
    show ?thesis
    proof (cases "l = 0")
      case True
      then show ?thesis using d le by (auto simp: body_def Let_def P_def okp_def intro!: good_exit good_mono [OF good_memory])
    next
      case False
      then have "unat (big_Uint64 a) \<le> length (vm_memory d)" using in_memory_unat [OF d(2) False] by simp
      then show ?thesis using d(1) le by (auto simp: body_def Let_def okp_def intro!: good_exit good_mono [OF good_memory])
    qed
  qed (use d in \<open>auto simp: body_def Let_def intro: okp_exit\<close>)
  have "okp P 0 c (opReturnDataCopy E c)"
  proof (cases "l = 0")
    case True
    show ?thesis unfolding op mem [OF True]
      by (rule okp_with_gas [OF g], rule fin) (auto simp: in_memory_def True)
  next
    case False
    show ?thesis unfolding op
      by (rule okp_with_mem [OF g r(1)], rule okp_with_gas0, assumption, rule fin, assumption)
        (auto simp: in_memory_def False)
  qed
  then show ?thesis by (simp add: P_def)
qed (use assms in \<open>simp add: opReturnDataCopy_def okp_exit'\<close>)

section \<open>Contract creation\<close>

definition mem_frame :: "'h vm \<Rightarrow> 'h vm \<Rightarrow> bool" where
  "mem_frame c d \<longleftrightarrow> vm_stack d = vm_stack c \<and> vm_host d = vm_host c \<and> vm_msg d = vm_msg c \<and> vm_config d = vm_config c \<and>
     vm_returnData d = vm_returnData c \<and> vm_cap c \<le> vm_cap d"

lemma get2_cases [consumes 2, case_names bytes failed]:
  assumes "good k c0 c" "word_range sz"
  obtains b d where "get2 (eGrow E) off sz c = Some (Some b, d)" "good k c0 d" "length b < 2 ^ 42" "mem_frame c d"
    | d where "get2 (eGrow E) off sz c = Some (None, d)" "\<And>j. good j c0 d"
proof (cases "sz = 0")
  case True
  then show thesis using that(1) [of "[]" c] assms(1) by (simp add: get2_def mem_frame_def)
next
  case False
  obtain ok c' where c': "checkMemory (eGrow E) off sz c = (ok, c')" by (cases "checkMemory (eGrow E) off sz c")
  have "0 \<le> sz" using assms(2) by (simp add: word_range_def)
  note G = checkMemory_good [OF assms(1) this c']
  show thesis
  proof (cases ok)
    case True
    note M = in_memory_unat [OF G(3) [OF True] False]
    have "length (vm_memory c') < 2 ^ 42" using G(1) by (simp add: good_def inv_def ok_defs)
    then show thesis using that(1) [of "take (nat sz) (drop (nat off) (vm_memory c'))" c'] False True M G
      by (simp add: get2_def c' Let_def mem_frame_def)
  next
    case bad: False
    then show thesis using that(2) [of c'] G(4) False by (simp add: get2_def c' Let_def)
  qed
qed

text \<open>The gas of the contract was taken from the caller, and at least \<open>n\<close> more.\<close>

definition built :: "nat \<Rightarrow> 'h vm \<Rightarrow> build \<Rightarrow> 'h vm \<Rightarrow> bool" where
  "built n c b d \<longleftrightarrow> good 0 c d \<and>
     (case bContract b of
        None \<Rightarrow> bErr b \<or> vm_stop d
      | Some k \<Rightarrow> contract_ok k \<and> cDepth k = cDepth (vm_msg c) + 1 \<and> unat (vm_gas d) + unat (cGas k) + n \<le> unat (vm_gas c))"

lemma good_msg_same: "good k c0 c \<Longrightarrow> vm_msg c = vm_msg c0"
  by (simp add: good_def vm_same_def)

lemma good_gas: "good k c0 c \<Longrightarrow> unat (vm_gas c) \<le> unat (vm_gas c0)"
  by (simp add: good_def vm_same_def word_le_nat_alt)

lemma consumeGas_frame:
  assumes "good k c0 c" "consumeGas g c = (ok, d)"
  shows "good k c0 d" "\<not> ok \<Longrightarrow> vm_stop d" "ok \<Longrightarrow> unat (vm_gas d) + unat g = unat (vm_gas c)"
    "ok \<Longrightarrow> d = c\<lparr>vm_gas := vm_gas c - g\<rparr>"
proof -
  note G = consumeGas_good [OF assms]
  show "good k c0 d" using G(1,2) by (cases ok) (auto intro: good_mono)
  show "\<not> ok \<Longrightarrow> vm_stop d" using assms(2) by (auto simp: consumeGas_def exit_def split: if_splits)
  show "ok \<Longrightarrow> unat (vm_gas d) + unat g = unat (vm_gas c)" "ok \<Longrightarrow> d = c\<lparr>vm_gas := vm_gas c - g\<rparr>"
    using G(4) by (simp_all add: unat_sub word_le_nat_alt)
qed

lemma create_contract_built:
  assumes "good 0 c0 c" "word_range v" "length input < 2 ^ 42" "create_contract E op (Some v) len salt input c = (b, d)"
  shows "built 0 c0 b d \<and> (bErr b \<longrightarrow> bContract b = None)"
proof -
  have c0: "consumeGas 0 c = (True, c)" by (simp add: consumeGas_def)
  show ?thesis
  proof (cases "v \<noteq> 0 \<and> GetBalance (eHost E) (cAddress (vm_msg c)) (vm_host c) < v")
    case True
    then have "b = build_nil\<lparr>bErr := True\<rparr>" "d = c" using assms(4) by (simp_all add: create_contract_def c0)
    then show ?thesis using assms(1) by (simp add: built_def build_nil_def)
  next
    case bal: False
    obtain ok c1 where c1: "(if op = CREATE2 then consumeGas ((big_Uint64 len + 31) div 32 * sha3WordGas) c else (True, c)) = (ok, c1)"
      by (cases "if op = CREATE2 then consumeGas ((big_Uint64 len + 31) div 32 * sha3WordGas) c else (True, c)")
    have ok1: "ok \<Longrightarrow> good 0 c0 c1" "\<not> ok \<Longrightarrow> good 0 c0 c1 \<and> vm_stop c1"
      using c1 assms(1) consumeGas_frame(1,2) [OF assms(1)] by (auto split: if_splits)
    show ?thesis
    proof (cases ok)
      case False
      then have "b = build_nil" "d = c1" using assms(4) bal by (auto simp: create_contract_def c0 c1)
      then show ?thesis using ok1(2) False by (simp add: built_def build_nil_def)
    next
      case True
      define g where "g = (if EIP150 (vm_config c1) \<or> op = CREATE2 then vm_gas c1 - vm_gas c1 div 64 else vm_gas c1)"
      have "unat (vm_gas c1 div 64) \<le> unat (vm_gas c1)" by (simp add: unat_div)
      then have "g \<le> vm_gas c1" by (auto simp: g_def word_le_nat_alt unat_sub)
      then have cg: "consumeGas g c1 = (True, c1\<lparr>vm_gas := vm_gas c1 - g\<rparr>)" by (simp add: consumeGas_def leD)
      then have "good 0 c0 (c1\<lparr>vm_gas := vm_gas c1 - g\<rparr>)" "unat (vm_gas c1 - g) + unat g = unat (vm_gas c1)"
        using consumeGas_frame(1,3) [OF ok1(1) [OF True] cg] by simp_all
      moreover have "unat (vm_gas c1) \<le> unat (vm_gas c0)" using good_gas [OF ok1(1) [OF True]] .
      moreover have "d = c1\<lparr>vm_gas := vm_gas c1 - g\<rparr> \<and> (\<exists>k. b = \<lparr>bContract = Some k, bOffset = 0, bSize = 0, bErr = False\<rparr> \<and>
          cGas k = g \<and> cCode k = input \<and> cInput k = [] \<and> cValue k = Some v \<and> cDepth k = cDepth (vm_msg c0) + 1)"
        using assms(4) bal True good_msg_same [OF ok1(1) [OF True]]
        by (auto simp: create_contract_def c0 c1 Let_def g_def [symmetric] cg NewContractCreation_def NewContract_def)
      ultimately show ?thesis using assms(2,3) by (auto simp: built_def contract_ok_def intro: good_mono)
    qed
  qed
qed

lemma buildCreateContract_built:
  assumes "inv c" "vm_stack c = v # off # len # t" "op = CREATE2 \<Longrightarrow> t \<noteq> []"
  obtains b d where "buildCreateContract E op c = Some (b, d)" "built 0 c b d" "bErr b \<Longrightarrow> bContract b = None"
proof -
  have r: "word_range v" "word_range len" "\<forall>v\<in>set t. word_range v" using inv_range [OF assms(1)] assms(2) by auto
  define s where "s = (if op = CREATE2 then tl t else t)"
  obtain salt where salt: "(if op = CREATE2 then popv (c\<lparr>vm_stack := t\<rparr>) else Some (0, c\<lparr>vm_stack := t\<rparr>)) = Some (salt, c\<lparr>vm_stack := s\<rparr>)"
    using assms(3) by (cases "op = CREATE2"; cases t) (simp_all add: s_def)
  have eq: "buildCreateContract E op c = get2 (eGrow E) off len (c\<lparr>vm_stack := s\<rparr>) \<bind> (\<lambda>(input, c).
      case input of None \<Rightarrow> Some (build_nil, c) | Some input \<Rightarrow> Some (create_contract E op (Some v) len salt input c))"
    by (simp add: buildCreateContract_def pop_def assms(2) salt)
  have "good 0 c (c\<lparr>vm_stack := s\<rparr>)"
    using r(3) by (intro good_stack good_refl assms) (auto simp: s_def dest: in_set_tl)
  then show thesis using r(2)
  proof (cases rule: get2_cases [where off = off])
    case (bytes input d)
    obtain b e where be: "create_contract E op (Some v) len salt input d = (b, e)"
      by (cases "create_contract E op (Some v) len salt input d")
    show thesis using that [of b e] create_contract_built [OF bytes(2) r(1) bytes(3) be] by (simp add: eq bytes(1) be)
  next
    case (failed d)
    have "vm_stop d" using failed(2) [of "Suc (unat (vm_gas c))"] by (simp add: good_def)
    then show thesis using that [of build_nil d] failed by (simp add: eq built_def build_nil_def)
  qed
qed

lemma reset_good: "inv c \<Longrightarrow> good 0 c (resetReturnData c)"
  unfolding resetReturnData_def by (rule good_returnData [OF good_refl]) simp_all

lemma built_trans: "good 0 c0 c \<Longrightarrow> built n c b d \<Longrightarrow> built n c0 b d"
  unfolding built_def using good_gas [of 0 c0 c] good_msg_same [of 0 c0 c]
  by (auto simp: good_def split: option.splits intro: vm_same_trans R_trans)

text \<open>The gas that comes back with the result.\<close>

lemma good_gas_back:
  assumes "good 0 c0 d" "unat (vm_gas d) + unat g + n \<le> unat (vm_gas c0)"
  shows "good n c0 (d\<lparr>vm_gas := vm_gas d + g\<rparr>)"
proof -
  have "unat (vm_gas d + g) = unat (vm_gas d) + unat g"
    using assms(2) le_less_trans [OF _ unat_u64_bound [of "vm_gas c0"], of "unat (vm_gas d) + unat g"]
    by (intro u64_add_unat) simp
  then show ?thesis using assms by (auto simp: good_def inv_def ok_defs word_le_nat_alt)
qed

lemma build_failed_good:
  assumes "built n c0 b d" "bErr b" "bContract b \<noteq> None \<or> n = 0"
  shows "good n c0 (build_failed b d)"
proof (cases "bContract b")
  case None
  then show ?thesis using assms by (auto simp: built_def build_failed_def intro: good_push)
next
  case (Some k)
  then have "good 0 c0 (push 0 d)" using assms(1) by (intro good_push) (auto simp: built_def)
  then have "good n c0 ((push 0 d)\<lparr>vm_gas := vm_gas (push 0 d) + cGas k\<rparr>)"
    using assms(1) Some by (intro good_gas_back) (auto simp: built_def push_def)
  then show ?thesis by (simp add: build_failed_def Some Let_def)
qed

lemma callx_good:
  assumes "built n c0 b d" "bContract b = Some k" "static \<longrightarrow> static_contract (k\<lparr>cType := t\<rparr>)"
    and "Callx (eHost E) (k\<lparr>cType := t\<rparr>) (vm_host d) = Some (r, h)"
  shows "good 0 c0 (d\<lparr>vm_host := h\<rparr>)" "unat (vm_gas d) + unat (rGasLeft r) + n \<le> unat (vm_gas c0)"
    "length (rReturnValue r) < 2 ^ 62"
proof -
  have g: "good 0 c0 d" "contract_ok (k\<lparr>cType := t\<rparr>)" "unat (vm_gas d) + unat (cGas k) + n \<le> unat (vm_gas c0)"
    using assms(1,2) by (auto simp: built_def contract_ok_def)
  note C = callx [OF good_hinv [OF g(1)] g(2) assms(3,4)]
  then show "length (rReturnValue r) < 2 ^ 62" by simp
  show "good 0 c0 (d\<lparr>vm_host := h\<rparr>)" using C by (intro good_host [OF g(1)]) simp
  have "unat (rGasLeft r) \<le> unat (cGas k)" using C by (simp add: word_le_nat_alt)
  then show "unat (vm_gas d) + unat (rGasLeft r) + n \<le> unat (vm_gas c0)" using g(3) by simp
qed

lemma create_ok:
  assumes "inv c" "3 \<le> length (vm_stack c)" "op = CREATE2 \<longrightarrow> 4 \<le> length (vm_stack c)"
  shows "okp (callee_panics E hinv c) 0 c (opCreate E op c)"
proof (cases "inStaticCall c \<or> op = CREATE2 \<and> \<not> Constantinople (vm_config c)")
  case True
  then show ?thesis using assms(1) by (auto simp: opCreate_def intro: okp_exit')
next
  case False
  have g: "good 0 c (resetReturnData c)" by (rule reset_good [OF assms(1)])
  have ns: "\<not> static" using False good_static [OF g] by (auto simp: inStaticCall_def resetReturnData_def)
  obtain v off len t where st: "vm_stack c = v # off # len # t"
    using assms(2) by (metis One_nat_def Suc_1 Suc_le_length_iff numeral_3_eq_3)
  obtain b d where bd: "buildCreateContract E op (resetReturnData c) = Some (b, d)" "built 0 (resetReturnData c) b d"
    by (rule buildCreateContract_built [OF goodD [OF g], of v off len t op]) (use st assms(3) in \<open>auto simp: resetReturnData_def\<close>)
  note B = built_trans [OF g bd(2)]
  show ?thesis
  proof (cases "bErr b \<or> bContract b = None")
    case True
    then show ?thesis using False bd(1) B build_failed_good [OF B]
      by (auto simp: opCreate_def okp_def built_def)
  next
    case ok: False
    then obtain k where k: "bContract b = Some k" "\<not> bErr b" by auto
    show ?thesis
    proof (cases "Callx (eHost E) (k\<lparr>cType := Create\<rparr>) (vm_host d)")
      case None
      then have "callee_panics E hinv c" using B k(1) good_hinv unfolding callee_panics_def built_def
        by (intro exI [of _ "k\<lparr>cType := Create\<rparr>"] exI [of _ "vm_host d"]) (auto simp: contract_ok_def)
      then show ?thesis using None False bd(1) k by (auto simp: opCreate_def okp_def)
    next
      case (Some rh)
      then obtain r h where rh: "Callx (eHost E) (k\<lparr>cType := Create\<rparr>) (vm_host d) = Some (r, h)" by (cases rh) auto
      have "static \<longrightarrow> static_contract (k\<lparr>cType := Create\<rparr>)" using ns by blast
      note C = callx_good [OF B k(1) this rh]
      define v where "v = (if op = CREATE \<and> Homestead (vm_config d) \<and> rErr r = Some ErrCodeStoreOutOfGas then 0
                          else if Failed r \<and> \<not> rErr r = Some ErrCodeStoreOutOfGas then 0
                          else SetBytes (Address_Bytes (cAddress k)))"
      have "good 0 c (push v (d\<lparr>vm_host := h\<rparr>))" using C(1) by (intro good_push) (auto simp: v_def)
      then have "good 0 c ((push v (d\<lparr>vm_host := h\<rparr>))\<lparr>vm_gas := vm_gas (push v (d\<lparr>vm_host := h\<rparr>)) + rGasLeft r\<rparr>)"
        using C(2) by (intro good_gas_back) (simp_all add: push_def)
      then show ?thesis using False bd(1) k rh C(3)
        by (auto simp: opCreate_def okp_def Let_def v_def [symmetric] intro: good_returnData)
    qed
  qed
qed

section \<open>Calls\<close>

lemma call_contract_built:
  assumes "good 0 c0 c" "case val of None \<Rightarrow> True | Some v \<Rightarrow> word_range v" "length args < 2 ^ 42"
    and "call_contract E op ig addr val args ro rs c = (b, d)"
  shows "built 1 c0 b d \<and> (bErr b \<longrightarrow> bContract b \<noteq> None) \<and> vm_memory d = vm_memory c \<and> vm_cap d = vm_cap c \<and>
    (\<forall>k. bContract b = Some k \<longrightarrow> (cStatic (vm_msg c) \<longrightarrow> cStatic k) \<and> (op = CALL \<longrightarrow> cValue k = val) \<and>
       (\<not> bErr b \<longrightarrow> bOffset b = big_Uint64 ro \<and> bSize b = big_Uint64 rs))"
proof -
  define tv where "tv = ((op = CALL \<or> op = CALLCODE) \<and> (case val of None \<Rightarrow> False | Some v \<Rightarrow> v \<noteq> 0))"
  define gc where "gc = call_gasCost E op addr tv c"
  have e: "EIP150 (vm_config c)" using assms(1) by (simp add: good_def inv_def vm_ok_def base_ok_def)
  have B: "700 + (if tv then 9000 else 0) \<le> unat gc" "unat gc \<le> 40000"
    unfolding gc_def by (rule call_gasCost_bounds [OF e])+
  obtain g where g: "call_gas gc ig c = Some g" using e by (auto simp: call_gas_def Let_def)
  note W = call_gas_no_wrap [OF e g B(2)]
  obtain ok c1 where c1: "consumeGas (gc + g) c = (ok, c1)" by (cases "consumeGas (gc + g) c")
  note F = consumeGas_frame [OF assms(1) c1]
  note S = call_contract_def tv_def [symmetric] gc_def [symmetric] g c1
  show ?thesis
  proof (cases ok)
    case False
    then have "b = build_nil" "d = c1" using assms(4) by (simp_all add: S)
    moreover have "c1 = exit ErrOutOfGas c" using c1 False by (auto simp: consumeGas_def split: if_splits)
    ultimately show ?thesis using F(1,2) False by (simp add: built_def build_nil_def exit_def)
  next
    case True
    obtain code h where ch: "GetCode (eHost E) addr (vm_host c1) = (code, h)" by (cases "GetCode (eHost E) addr (vm_host c1)")
    note G = get_code [OF good_hinv [OF F(1)] ch]
    define d' where "d' = c1\<lparr>vm_host := h\<rparr>"
    have d': "good 0 c0 d'" unfolding d'_def using G by (intro good_host [OF F(1)]) simp
    define g' where "g' = (if tv then g + 2300 else g)"
    have "unat g' \<le> unat g + (if tv then 2300 else 0)" by (simp add: g'_def unat_word_ariths)
    then have gas: "unat (vm_gas d') + unat g' + 1 \<le> unat (vm_gas c0)"
      using F(3) [OF True] W B(1) good_gas [OF assms(1)] by (simp add: d'_def split: if_splits)
    have c1eq: "c1 = c\<lparr>vm_gas := vm_gas c - (gc + g)\<rparr>" by (rule F(4) [OF True])
    have msg: "vm_msg d' = vm_msg c" by (simp add: d'_def c1eq)
    have mok: "case cValue (vm_msg c) of None \<Rightarrow> True | Some v \<Rightarrow> word_range v"
      using good_msg [OF assms(1)] by (simp add: contract_ok_def)
    have "d = d' \<and> (\<exists>k. bContract b = Some k \<and> cGas k = g' \<and> contract_ok k \<and> cDepth k = cDepth (vm_msg c0) + 1 \<and> (cStatic (vm_msg c) \<longrightarrow> cStatic k) \<and>
        (op = CALL \<longrightarrow> cValue k = val) \<and> (\<not> bErr b \<longrightarrow> bOffset b = big_Uint64 ro \<and> bSize b = big_Uint64 rs))"
      using assms(2-4) True G mok good_msg_same [OF assms(1)]
      by (auto simp: S ch Let_def d'_def [symmetric] msg g'_def [symmetric] NewContractCall_def NewContract_def contract_ok_def
          split: if_splits)
    then show ?thesis using d' gas by (auto simp: built_def d'_def c1eq)
  qed
qed

definition has_value :: "u8 \<Rightarrow> bool" where
  "has_value op \<longleftrightarrow> op = CALL \<or> op = CALLCODE"

lemma buildCallContract_built:
  assumes "inv c" "vm_stack c = ig # ad # (if has_value op then [v] else []) @ io # isz # ro # rs # s"
  obtains b d where "buildCallContract E op c = Some (b, d)" "built 1 c b d" "bErr b \<Longrightarrow> bContract b \<noteq> None"
    "\<And>k. bContract b = Some k \<Longrightarrow> (static \<longrightarrow> cStatic k) \<and> (op = CALL \<longrightarrow> cValue k = Some v) \<and>
       (\<not> bErr b \<longrightarrow> bOffset b = big_Uint64 ro \<and> bSize b = big_Uint64 rs \<and> in_memory ro rs d \<and> vm_cap c \<le> vm_cap d)"
proof -
  have r: "word_range isz" "word_range rs" "\<forall>v\<in>set s. word_range v" "has_value op \<longrightarrow> word_range v"
    using inv_range [OF assms(1)] assms(2) by (auto split: if_splits)
  define val where "val = (if has_value op then Some v else None)"
  have vv: "op = CALL \<longrightarrow> val = Some v" by (simp add: val_def has_value_def)
  have val: "case val of None \<Rightarrow> True | Some v \<Rightarrow> word_range v" using r(4) by (simp add: val_def)
  define adr where "adr = BytesToAddress (big_Bytes ad)"
  define rest where "rest args d = (let (ok, c) = checkMemory (eGrow E) ro rs d
         in Some (if \<not> ok then (build_nil, c) else call_contract E op ig adr val args ro rs c))" for args and d :: "'h vm"
  have eq: "buildCallContract E op c = get2 (eGrow E) io isz (c\<lparr>vm_stack := s\<rparr>) \<bind> (\<lambda>(args, c).
      case args of None \<Rightarrow> Some (build_nil, c) | Some args \<Rightarrow> rest args c)"
    unfolding rest_def val_def by (cases "has_value op")
      (simp_all add: buildCallContract_def assms(2) popAddr_def pop_def adr_def [symmetric] has_value_def)
  have g0: "good 0 c (c\<lparr>vm_stack := s\<rparr>)" using r(3) by (intro good_stack good_refl assms)
  then show thesis using r(1)
  proof (cases rule: get2_cases [where off = io])
    case (failed d)
    have "vm_stop d" using failed(2) [of "Suc (unat (vm_gas c))"] by (simp add: good_def)
    then show thesis using that [of build_nil d] failed by (simp add: eq built_def build_nil_def)
  next
    case (bytes args c1)
    obtain ok c2 where c2: "checkMemory (eGrow E) ro rs c1 = (ok, c2)" by (cases "checkMemory (eGrow E) ro rs c1")
    have "0 \<le> rs" using r(2) by (simp add: word_range_def)
    note M = checkMemory_good [OF bytes(2) this c2]
    show thesis
    proof (cases ok)
      case False
      have "vm_stop c2" using M(4) [of "Suc (unat (vm_gas c))"] False by (simp add: good_def)
      then show thesis using that [of build_nil c2] False M(1) by (simp add: eq bytes(1) rest_def c2 built_def build_nil_def)
    next
      case True
      obtain b d where bd: "call_contract E op ig adr val args ro rs c2 = (b, d)"
        by (cases "call_contract E op ig adr val args ro rs c2")
      note C = call_contract_built [OF M(1) val bytes(3) bd]
      have cap: "vm_cap c \<le> vm_cap c1" using bytes(4) by (simp add: mem_frame_def)
      show thesis
      proof (rule that [of b d])
        show "buildCallContract E op c = Some (b, d)" using True by (simp add: eq bytes(1) rest_def c2 bd)
        fix k assume k: "bContract b = Some k"
        have st: "static \<longrightarrow> cStatic (vm_msg c2)" using good_static [OF M(1)] unfolding inStaticCall_def by blast
        have im: "in_memory ro rs d" using M(3) [OF True] C by (auto simp: in_memory_def)
        have "vm_cap c \<le> vm_cap d" using cap M(11) C by simp
        then show "(static \<longrightarrow> cStatic k) \<and> (op = CALL \<longrightarrow> cValue k = Some v) \<and>
            (\<not> bErr b \<longrightarrow> bOffset b = big_Uint64 ro \<and> bSize b = big_Uint64 rs \<and> in_memory ro rs d \<and> vm_cap c \<le> vm_cap d)"
          using C k st im vv by metis
      qed (use C in auto)
    qed
  qed
qed

lemma callType_of_Call: "callType_of op = Call \<longleftrightarrow> op = CALL"
  by (simp add: callType_of_def)

lemma length_copy_back:
  assumes "p \<le> q" "q \<le> length mem \<or> p = q"
  shows "length (take p mem @ go_copy (take (q - p) (drop p mem)) r @ drop q mem) = length mem"
  using assms by (auto simp: min_def)

lemma call_ok:
  assumes "inv c" "vm_stack c = ig # ad # (if has_value op then [v] else []) @ io # isz # ro # rs # s"
  shows "okp (callee_panics E hinv c \<or> rs = 0 \<and> vm_cap c < unat (big_Uint64 ro)) 1 c (opCall E op c)"
proof -
  define c' where "c' = resetReturnData c"
  have g: "good 0 c c'" unfolding c'_def by (rule reset_good [OF assms(1)])
  have st: "vm_stack c' = ig # ad # (if has_value op then [v] else []) @ io # isz # ro # rs # s" "inStaticCall c' = inStaticCall c"
    "vm_config c' = vm_config c" "vm_cap c' = vm_cap c"
    by (simp_all add: c'_def resetReturnData_def assms(2) inStaticCall_def)
  define blk where "blk = (op = CALL \<and> inStaticCall c \<and> v \<noteq> 0)"
  have blk: "(if op = CALL \<and> inStaticCall c' then do { v \<leftarrow> peekAt 3 c'; Some (BitLen v > 0) } else Some False) = Some blk"
  proof -
    have "0 < BitLen v \<longleftrightarrow> v \<noteq> 0" using BitLen_0 [of v] by (metis gr0I less_irrefl)
    then show ?thesis using st by (auto simp: blk_def peekAt_def has_value_def)
  qed
  show ?thesis
  proof (cases "blk \<or> op = DELEGATECALL \<and> \<not> Homestead (vm_config c) \<or> op = STATICCALL \<and> \<not> Byzantium (vm_config c)")
    case True
    then show ?thesis using okp_exit [OF g]
      unfolding opCall_def Let_def c'_def [symmetric] blk by (auto simp: st)
  next
    case False
    obtain b d where bd: "buildCallContract E op c' = Some (b, d)" "built 1 c' b d" "bErr b \<Longrightarrow> bContract b \<noteq> None"
      "\<And>k. bContract b = Some k \<Longrightarrow> (static \<longrightarrow> cStatic k) \<and> (op = CALL \<longrightarrow> cValue k = Some v) \<and>
       (\<not> bErr b \<longrightarrow> bOffset b = big_Uint64 ro \<and> bSize b = big_Uint64 rs \<and> in_memory ro rs d \<and> vm_cap c' \<le> vm_cap d)"
      by (rule buildCallContract_built [OF goodD [OF g] st(1)]) blast
    note B = built_trans [OF g bd(2)]
    have op: "opCall E op c = (if bErr b then Some (build_failed b d)
        else case bContract b of
               None \<Rightarrow> Some d
             | Some contract \<Rightarrow> do {
                 (result, h) \<leftarrow> Callx (eHost E) (contract\<lparr>cType := callType_of op\<rparr>) (vm_host d);
                 let c = push (if Succeeded result then 1 else 0) (d\<lparr>vm_host := h\<rparr>) in do {
                 c \<leftarrow> (if (Succeeded result \<or> Reverted result) \<and> rReturnValue result \<noteq> []
                      then let p = unat (bOffset b); q = unat (bOffset b + bSize b); mem = vm_memory c
                           in if p \<le> q \<and> q \<le> vm_cap c
                              then Some (c\<lparr>vm_memory := take p mem @ go_copy (take (q - p) (drop p mem)) (rReturnValue result) @ drop q mem\<rparr>)
                              else None
                      else Some c);
                 Some (c\<lparr>vm_gas := vm_gas c + rGasLeft result, vm_returnData := rReturnValue result\<rparr>) }
               })"
    proof -
      have "\<not> blk" "\<not> (op = DELEGATECALL \<and> \<not> Homestead (vm_config c'))" "\<not> (op = STATICCALL \<and> \<not> Byzantium (vm_config c'))"
        using False by (auto simp: st)
      then show ?thesis unfolding opCall_def c'_def [symmetric] Let_def [of c'] blk by (simp only: bind.bind_lunit if_False bd(1) prod.case)
    qed
    show ?thesis
    proof (cases "bErr b \<or> bContract b = None")
      case True
      have "bErr b \<Longrightarrow> good 1 c (build_failed b d)" using build_failed_good [OF B] bd(3) by blast
      moreover have "\<not> bErr b \<Longrightarrow> good 1 c d" using B True by (auto simp: built_def good_def)
      ultimately show ?thesis using True unfolding op okp_def by auto
    next
      case ok: False
      then obtain k where k: "bContract b = Some k" "\<not> bErr b" by auto
      note K = bd(4) [OF k(1)]
      have sc: "static \<longrightarrow> static_contract (k\<lparr>cType := callType_of op\<rparr>)"
      proof
        assume s: static
        then have "inStaticCall c" using good_static [OF good_refl [OF assms(1)]] by blast
        then have "op = CALL \<longrightarrow> cValue k = Some 0" using K False blk_def by auto
        moreover have "callType_of op \<noteq> Create" by (simp add: callType_of_def)
        ultimately show "static_contract (k\<lparr>cType := callType_of op\<rparr>)"
          using K s by (simp add: static_contract_def callType_of_Call)
      qed
      show ?thesis
      proof (cases "Callx (eHost E) (k\<lparr>cType := callType_of op\<rparr>) (vm_host d)")
        case None
        then have "opCall E op c = None" using k by (simp add: op)
        moreover have "callee_panics E hinv c" using B k(1) None good_hinv unfolding callee_panics_def built_def
          by (intro exI [of _ "k\<lparr>cType := callType_of op\<rparr>"] exI [of _ "vm_host d"]) (auto simp: contract_ok_def)
        ultimately show ?thesis by (simp add: okp_def)
      next
        case (Some rh)
        then obtain r h where rh: "Callx (eHost E) (k\<lparr>cType := callType_of op\<rparr>) (vm_host d) = Some (r, h)" by (cases rh) auto
        note C = callx_good [OF B k(1) sc rh]
        define e where "e = push (if Succeeded r then 1 else 0) (d\<lparr>vm_host := h\<rparr>)"
        have e0: "\<not> Succeeded r \<Longrightarrow> push 0 (d\<lparr>vm_host := h\<rparr>) = e" by (simp add: e_def)
        have e: "good 0 c e" unfolding e_def using C(1) by (intro good_push) auto
        have eg: "vm_gas e = vm_gas d" "vm_memory e = vm_memory d" "vm_cap e = vm_cap d" by (simp_all add: e_def push_def)
        have fin: "good 1 c (f\<lparr>vm_gas := vm_gas f + rGasLeft r, vm_returnData := rReturnValue r\<rparr>)"
          if "good 0 c f" "vm_gas f = vm_gas d" for f
          using good_returnData [OF good_gas_back [OF that(1), of "rGasLeft r" 1] C(3)] C(2) that(2) by simp
        define p where "p = unat (bOffset b)"
        define q where "q = unat (bOffset b + bSize b)"
        have pq: "p \<le> q" "q \<le> length (vm_memory d) \<or> rs = 0 \<and> p = q \<and> p = unat (big_Uint64 ro)"
        proof -
          have "in_memory ro rs d" "bOffset b = big_Uint64 ro" "bSize b = big_Uint64 rs" using K k(2) by auto
          then show "p \<le> q" "q \<le> length (vm_memory d) \<or> rs = 0 \<and> p = q \<and> p = unat (big_Uint64 ro)"
            using in_memory_unat [of ro rs d] by (cases "rs = 0"; simp add: p_def q_def big_Uint64_def)+
        qed
        have mem: "length (vm_memory d) \<le> vm_cap d" using B by (simp add: built_def good_def inv_def ok_defs)
        have cap: "vm_cap c \<le> vm_cap d" using K k(2) st(4) by simp
        define m' where "m' = take p (vm_memory d) @ go_copy (take (q - p) (drop p (vm_memory d))) (rReturnValue r) @ drop q (vm_memory d)"
        have ge: "good 0 c (e\<lparr>vm_memory := m'\<rparr>)"
          using length_copy_back [of p q "vm_memory d" "rReturnValue r"] pq by (intro good_memory [OF e]) (auto simp: m'_def eg)
        have "opCall E op c = (if (Succeeded r \<or> Reverted r) \<and> rReturnValue r \<noteq> [] then
            if q \<le> vm_cap d then Some (e\<lparr>vm_memory := m', vm_gas := vm_gas d + rGasLeft r, vm_returnData := rReturnValue r\<rparr>) else None
            else Some (e\<lparr>vm_gas := vm_gas d + rGasLeft r, vm_returnData := rReturnValue r\<rparr>))"
          using pq(1) e0 by (simp add: op k rh Let_def p_def [symmetric] q_def [symmetric] e_def [symmetric] eg m'_def)
        then show ?thesis using fin [OF e eg(1)] fin [OF ge] eg pq mem cap
          by (auto simp: okp_def)
      qed
    qed
  qed
qed

end

end
