(* ===== verification/EvmRun.thy ===== *)
theory EvmRun
  imports EvmStep
begin

text \<open>
  The interpreter loop of \<open>execute/state.go\<close> (\<open>Run\<close>) over the instruction lemmas of EvmStep: every entry
  of the dispatch table keeps the machine invariant and spends gas or stops, so one turn of the loop
  does, and the loop ends.
\<close>

section \<open>Where an instruction may panic\<close>

text \<open>
  \<open>RETURNDATACOPY\<close> of nothing to an offset beyond the memory, a call that asks for no result at an
  offset beyond the capacity of the memory, and a call whose callee panics.
\<close>

definition may_panic :: "('h, 'v, 'prv, 'pub) env \<Rightarrow> ('h \<Rightarrow> bool) \<Rightarrow> u8 \<Rightarrow> 'h vm \<Rightarrow> bool" where
  "may_panic E hinv op c \<longleftrightarrow>
     op = 0x3E \<and> vm_stack c ! 2 = 0 \<and> length (vm_memory c) < unat (big_Uint64 (vm_stack c ! 0)) \<or>
     op \<in> {CREATE, CREATE2} \<and> callee_panics E hinv c \<or>
     op \<in> {CALL, CALLCODE, DELEGATECALL, STATICCALL} \<and>
       (callee_panics E hinv c \<or>
        (let i = (if op \<in> {CALL, CALLCODE} then 5 else 4)
         in vm_stack c ! Suc i = 0 \<and> vm_cap c < unat (big_Uint64 (vm_stack c ! i))))"

lemma may_panic_gas [simp]: "may_panic E hinv op (c\<lparr>vm_gas := g\<rparr>) = may_panic E hinv op c"
  by (simp add: may_panic_def callee_panics_def)

definition in_code :: "'h vm \<Rightarrow> bool" where
  "in_code c \<longleftrightarrow> 0 \<le> vm_ip c \<and> vm_ip c < int (length (vm_code c))"

lemma list_of_length3: "3 \<le> length s \<Longrightarrow> \<exists>a b c t. s = a # b # c # t"
  by (metis One_nat_def Suc_1 Suc_le_length_iff numeral_3_eq_3)

lemma list_of_length6: "6 \<le> length s \<Longrightarrow> \<exists>a b c d e f t. s = a # b # c # d # e # f # t"
  by (metis One_nat_def Suc_1 Suc_le_length_iff numeral_3_eq_3 eval_nat_numeral(2,3) BitM.simps BitM_plus_one)

context evm_host
begin

definition handler_ok :: "u8 \<times> 'h handler \<Rightarrow> bool" where
  "handler_ok x \<longleftrightarrow> (case x of (op, i) \<Rightarrow> \<forall>c. inv c \<and> in_code c \<and> hstack i \<le> length (vm_stack c) \<longrightarrow>
     (\<exists>n. 0 < n + unat (hgas i) \<and> okp (may_panic E hinv op c) n c (inst i c)))"

lemma okp_mono: "okp p n c m \<Longrightarrow> (p \<longrightarrow> q) \<Longrightarrow> okp q n c m"
  by (auto simp: okp_def split: option.splits)

lemma handler_gas:
  assumes "\<And>c. inv c \<Longrightarrow> in_code c \<Longrightarrow> k \<le> length (vm_stack c) \<Longrightarrow> okp False 0 c (f c)" "0 < unat g"
  shows "handler_ok (register op f k g)"
  using assms okp_mono [of False 0] by (fastforce simp: handler_ok_def register_def)

lemma handler_one:
  assumes "\<And>c. inv c \<Longrightarrow> in_code c \<Longrightarrow> k \<le> length (vm_stack c) \<Longrightarrow> okp False 1 c (f c)"
  shows "handler_ok (register op f k g)"
  using assms okp_mono [of False 1] by (fastforce simp: handler_ok_def register_def)

lemma context_ok': 
  assumes "inv c" "in_code c"
  shows "okp False 0 c (opAddress c)" "okp False 0 c (opSelfBalance E c)" "okp False 0 c (opChainID E c)"
    "okp False 0 c (opOrigin E c)" "okp False 0 c (opCaller c)" "okp False 0 c (opCallValue c)"
    "okp False 0 c (opCallDataSize c)" "okp False 0 c (opCodeSize c)" "okp False 0 c (opGasPrice E c)"
    "okp False 0 c (opReturnDataSize c)" "okp False 0 c (opPC c)" "okp False 0 c (opMSize c)" "okp False 0 c (opGas c)"
    "okp False 0 c (opCoinbase E c)" "okp False 0 c (opTimestamp E c)" "okp False 0 c (opNumber E c)"
    "okp False 0 c (opDifficulty E c)" "okp False 0 c (opGasLimit E c)" "okp False 0 c (opJumpDest c)"
  using assms by (auto simp: in_code_def intro: context_ok)

lemma handler_returndatacopy: "handler_ok (register 0x3E (opReturnDataCopy E) 3 3)"
proof -
  have "okp (may_panic E hinv 0x3E c) 0 c (opReturnDataCopy E c)" if c: "inv c" "3 \<le> length (vm_stack c)" for c
  proof -
    obtain a b l s where st: "vm_stack c = a # b # l # s" using list_of_length3 [OF c(2)] by auto
    show ?thesis by (rule okp_mono [OF returndatacopy_ok [OF c(1) st]]) (simp add: may_panic_def st)
  qed
  then show ?thesis by (auto simp: handler_ok_def register_def)
qed

lemma handler_create: "handler_ok (register CREATE (opCreate E CREATE) 3 32000)" "handler_ok (register CREATE2 (opCreate E CREATE2) 4 32000)"
proof -
  have "okp (may_panic E hinv op c) 0 c (opCreate E op c)" if "inv c" "op = CREATE \<and> 3 \<le> length (vm_stack c) \<or> op = CREATE2 \<and> 4 \<le> length (vm_stack c)" for c op
    by (rule okp_mono [OF create_ok]) (use that in \<open>auto simp: may_panic_def\<close>)
  then show "handler_ok (register CREATE (opCreate E CREATE) 3 32000)" "handler_ok (register CREATE2 (opCreate E CREATE2) 4 32000)"
    by (auto simp: handler_ok_def register_def)
qed

lemma handler_call: "handler_ok (register CALL (opCall E CALL) 7 0)" "handler_ok (register CALLCODE (opCall E CALLCODE) 7 0)"
    "handler_ok (register DELEGATECALL (opCall E DELEGATECALL) 6 0)" "handler_ok (register STATICCALL (opCall E STATICCALL) 6 0)"
proof -
  have v: "okp (may_panic E hinv op c) 1 c (opCall E op c)" if op: "op \<in> {CALL, CALLCODE}" and c: "inv c" "7 \<le> length (vm_stack c)" for op c
  proof -
    obtain x t where xt: "vm_stack c = x # t" "6 \<le> length t" using c(2) by (cases "vm_stack c") auto
    obtain a b e f g h u where t: "t = a # b # e # f # g # h # u" using list_of_length6 [OF xt(2)] by auto
    have st: "vm_stack c = x # a # (if has_value op then [b] else []) @ e # f # g # h # u"
      using op by (auto simp: xt(1) t has_value_def)
    show ?thesis by (rule okp_mono [OF call_ok [OF c(1) st]]) (use op in \<open>auto simp: may_panic_def xt(1) t Let_def\<close>)
  qed
  have n: "okp (may_panic E hinv op c) 1 c (opCall E op c)" if op: "op \<in> {DELEGATECALL, STATICCALL}" and c: "inv c" "6 \<le> length (vm_stack c)" for op c
  proof -
    obtain a b e f g h u where t: "vm_stack c = a # b # e # f # g # h # u" using list_of_length6 [OF c(2)] by auto
    have st: "vm_stack c = a # b # (if has_value op then [0] else []) @ e # f # g # h # u"
      using op by (auto simp: t has_value_def)
    show ?thesis by (rule okp_mono [OF call_ok [OF c(1) st]]) (use op in \<open>auto simp: may_panic_def t Let_def\<close>)
  qed
  show "handler_ok (register CALL (opCall E CALL) 7 0)" "handler_ok (register CALLCODE (opCall E CALLCODE) 7 0)"
    using v by (auto simp: handler_ok_def register_def)
  show "handler_ok (register DELEGATECALL (opCall E DELEGATECALL) 6 0)" "handler_ok (register STATICCALL (opCall E STATICCALL) 6 0)"
    using n by (auto simp: handler_ok_def register_def)
qed

definition entry_ok :: "u8 \<times> 'h handler \<Rightarrow> bool" where
  "entry_ok x \<longleftrightarrow> handler_ok x \<or> (\<exists>n. inst (snd x) = opPush n \<and> hstack (snd x) = 0 \<and> hgas (snd x) = 3 \<and> n \<le> 32)"

lemma entry_handler: "handler_ok x \<Longrightarrow> entry_ok x"
  by (simp add: entry_ok_def)

lemma entry_gas:
  assumes "\<And>c. inv c \<Longrightarrow> in_code c \<Longrightarrow> k \<le> length (vm_stack c) \<Longrightarrow> okp False 0 c (f c)" "0 < unat g"
  shows "entry_ok (register op f k g)"
  using handler_gas [OF assms] by (simp add: entry_ok_def)

lemma entry_one:
  assumes "\<And>c. inv c \<Longrightarrow> in_code c \<Longrightarrow> k \<le> length (vm_stack c) \<Longrightarrow> okp False 1 c (f c)"
  shows "entry_ok (register op f k g)"
  using handler_one [OF assms] by (simp add: entry_ok_def)

lemma entry_ranges:
  "list_all entry_ok (registerRange 0x60 0x7F opPush 3)"
  "list_all entry_ok (registerRange 0x80 0x8F opDup 3)"
  "list_all entry_ok (registerRange 0x90 0x9F opSwap 3)"
  "list_all entry_ok (registerRange 0xA0 0xA4 (opLog E) 375)"
proof -
  show "list_all entry_ok (registerRange 0x60 0x7F opPush 3)"
    by (auto simp: registerRange_def register_def entry_ok_def list_all_iff)
qed (auto simp: registerRange_def list_all_iff intro!: entry_gas dup_ok swap_ok log_ok)

text \<open>Every entry of the dispatch table keeps the invariant; a push does unless the code ends in it.\<close>

lemma handlers_ok: "list_all entry_ok (handlers E)"
  unfolding handlers_def list_all_append list.pred_inject
  by (intro conjI TrueI entry_ranges handler_create [THEN entry_handler] handler_call [THEN entry_handler]
      handler_returndatacopy [THEN entry_handler] arith_ok [THEN entry_gas] arith2_ok [THEN entry_gas]
      arith1_ok [THEN entry_gas] arith3_ok [THEN entry_gas] context_ok' [THEN entry_gas] query_ok(1-4) [THEN entry_one]
      query_ok(5-) [THEN entry_gas] mload_ok [THEN entry_gas] mstore_ok [THEN entry_gas] sha3_ok [THEN entry_gas]
      copy_ok [THEN entry_gas] jump_ok [THEN entry_gas] jumpi_ok [THEN entry_gas] sstore_ok [THEN entry_one]
      selfdestruct_ok [THEN entry_one] halt_ok [THEN entry_one] stop_ok [THEN entry_one] extcodecopy_ok [THEN entry_one]) simp_all

section \<open>One turn of the loop\<close>

definition run_inv :: "'h vm \<Rightarrow> bool" where
  "run_inv c \<longleftrightarrow> base_ok c \<and> hinv (vm_host c) \<and> (static \<longrightarrow> cStatic (vm_msg c)) \<and>
     (vm_stop c \<or> 0 \<le> vm_ip c \<and> length (vm_stack c) \<le> stackSize \<and> (stack_ok c \<or> int (length (vm_code c)) \<le> vm_ip c))"

definition run_good :: "'h vm \<Rightarrow> 'h vm \<Rightarrow> bool" where
  "run_good c c' \<longleftrightarrow> run_inv c' \<and> vm_msg c' = vm_msg c \<and> vm_config c' = vm_config c \<and> vm_gas c' \<le> vm_gas c \<and>
     R (vm_host c) (vm_host c') \<and> (vm_stop c' \<or> vm_gas c' < vm_gas c)"

lemma good_stopped: "good n c c' \<Longrightarrow> vm_stop c' \<Longrightarrow> run_good c c'"
  by (auto simp: good_def run_good_def run_inv_def inv_def vm_ok_def vm_same_def)

lemma good_continues:
  assumes "good n c c'" "0 < n" "0 \<le> vm_ip c"
  shows "run_good c (if length (vm_stack c') > stackSize then exit ErrStackOverflow c' else c'\<lparr>vm_ip := vm_ip c' + 1\<rparr>)"
proof (cases "length (vm_stack c') > stackSize")
  case True
  have "good n c (exit ErrStackOverflow c')" "vm_stop (exit ErrStackOverflow c')"
    using good_exit [OF assms(1)] by (simp_all add: exit_def)
  then show ?thesis using True good_stopped by simp
next
  case False
  then show ?thesis using assms
    by (auto simp: good_def run_good_def run_inv_def inv_def ok_defs word_less_nat_alt)
qed

lemma run_inv_inv: "run_inv c \<Longrightarrow> \<not> vm_stop c \<Longrightarrow> vm_ip c < int (length (vm_code c)) \<Longrightarrow> inv c \<and> in_code c"
  by (auto simp: run_inv_def inv_def vm_ok_def in_code_def)

lemma push_continues:
  assumes "inv c" "in_code c" "n \<le> 32" "opPush n (c\<lparr>vm_gas := g\<rparr>) = Some c'" "g < vm_gas c" "\<not> vm_stop c"
  shows "run_good c (if length (vm_stack c') > stackSize then exit ErrStackOverflow c' else c'\<lparr>vm_ip := vm_ip c' + 1\<rparr>)"
proof -
  define p where "p = nat (vm_ip c + 1)"
  define v where "v = (if p + n > length (vm_code c) then SetBytes (drop p (vm_code c) @ replicate n 0)
    else SetBytes (take n (drop p (vm_code c))))"
  have c': "c' = (push v (c\<lparr>vm_gas := g\<rparr>))\<lparr>vm_ip := vm_ip c + int n\<rparr>"
    using assms(4) by (cases "p + n > length (vm_code c)") (simp_all add: opPush_def Let_def v_def p_def)
  have p: "int p = vm_ip c + 1" using assms(2) by (simp add: p_def in_code_def)
  have "word_range v \<or> int (length (vm_code c)) \<le> vm_ip c + int n + 1"
    using word_range_SetBytes [of "take n (drop p (vm_code c))"] assms(3) p by (auto simp: v_def)
  then show ?thesis using assms
    by (auto simp: c' push_def run_good_def run_inv_def inv_def ok_defs in_code_def exit_def R_refl)
qed

lemma run_step_good:
  assumes "run_inv c" "\<not> vm_stop c"
  shows "case run_step E c of None \<Rightarrow> in_code c \<and> may_panic E hinv (vm_code c ! nat (vm_ip c)) c | Some c' \<Rightarrow> run_good c c'"
proof (cases "vm_ip c < int (length (vm_code c))")
  case False
  then show ?thesis using assms by (auto simp: run_step_def run_good_def run_inv_def halt_def base_ok_def mem_ok_def R_refl)
next
  case True
  have i: "inv c" "in_code c" using run_inv_inv [OF assms True] by auto
  note g0 = good_refl [OF i(1)]
  have ex: "run_good c (exit e d)" if "good 0 c d" for e d
    using good_stopped [OF good_exit [OF that]] by (simp add: exit_def)
  define op where "op = vm_code c ! nat (vm_ip c)"
  have u: "run_step E c = (case dispatchTable E op of
             None \<Rightarrow> Some (exit errOpCodeNotFound c)
           | Some i \<Rightarrow>
               if length (vm_stack c) < hstack i then Some (exit ErrStackUnderflow c)
               else let (ok, c) = consumeGas (hgas i) c
                    in if \<not> ok then Some (exit ErrOutOfGas c)
                       else do {
                         c \<leftarrow> inst i c;
                         Some (if length (vm_stack c) > stackSize then exit ErrStackOverflow c
                               else c\<lparr>vm_ip := vm_ip c + 1\<rparr>)
                       })"
    using True i(2) by (simp add: run_step_def op_def in_code_def)
  show ?thesis
  proof (cases "dispatchTable E op")
    case None
    then show ?thesis using ex [OF g0] by (simp add: u)
  next
    case (Some h)
    then have e: "entry_ok (op, h)" using handlers_ok by (auto simp: dispatchTable_def list_all_iff dest: map_of_SomeD)
    show ?thesis
    proof (cases "length (vm_stack c) < hstack h")
      case True
      then show ?thesis using Some ex [OF g0] by (simp add: u)
    next
      case st: False
      obtain ok d where d: "consumeGas (hgas h) c = (ok, d)" by (cases "consumeGas (hgas h) c")
      note G = consumeGas_good [OF g0 d]
      show ?thesis
      proof (cases ok)
        case False
        then show ?thesis using Some st ex [OF G(2)] by (simp add: u d)
      next
        case ok: True
        have g: "good (unat (hgas h)) c d" using G(1) [OF ok] by simp
        have d': "d = c\<lparr>vm_gas := vm_gas c - hgas h\<rparr>" "hgas h \<le> vm_gas c" using G(4) [OF ok] by auto
        have step: "run_step E c = inst h d \<bind> (\<lambda>c. Some (if length (vm_stack c) > stackSize then exit ErrStackOverflow c
                               else c\<lparr>vm_ip := vm_ip c + 1\<rparr>))"
          using Some st ok by (simp add: u d)
        from e consider "handler_ok (op, h)" | n where "inst h = opPush n" "hgas h = 3" "n \<le> 32"
          by (auto simp: entry_ok_def)
        then show ?thesis
        proof cases
          case 1
          have "inv d" "in_code d" "hstack h \<le> length (vm_stack d)"
            using goodD [OF g] i(2) st by (auto simp: d'(1) in_code_def)
          then obtain n where n: "0 < n + unat (hgas h)" "okp (may_panic E hinv op d) n d (inst h d)"
            using 1 by (auto simp: handler_ok_def)
          show ?thesis
          proof (cases "inst h d")
            case None
            then show ?thesis using n(2) i(2) by (simp add: step okp_def op_def d'(1))
          next
            case (Some c')
            have "\<not> vm_stop d" using assms(2) by (simp add: d'(1))
            then have "good (unat (hgas h) + n) c c'" using good_trans [OF g] n(2) Some by (simp add: okp_def)
            moreover have "0 < unat (hgas h) + n" "0 \<le> vm_ip c" using n(1) i(2) by (auto simp: in_code_def)
            ultimately show ?thesis using good_continues Some by (simp add: step del: if_split)
          qed
        next
          case (2 n)
          then have "vm_gas c - hgas h < vm_gas c" using d'(2) by (simp add: word_less_nat_alt unat_sub word_le_nat_alt)
          moreover obtain c' where c': "opPush n d = Some c'" by (simp add: opPush_def Let_def)
          ultimately have "run_good c (if length (vm_stack c') > stackSize then exit ErrStackOverflow c' else c'\<lparr>vm_ip := vm_ip c' + 1\<rparr>)"
            using push_continues [OF i 2(3)] assms(2) by (simp add: d'(1))
          then show ?thesis using c' 2(1) by (simp add: step)
        qed
      qed
    qed
  qed
qed

section \<open>The loop\<close>

lemma run_good_trans: "run_good c d \<Longrightarrow> run_good d e \<Longrightarrow> run_good c e"
  by (auto simp: run_good_def intro: R_trans)

text \<open>The loop ends. If an instruction panics, some reachable state explains it.\<close>

lemma run_loop_ends:
  assumes "run_inv c"
  shows "\<exists>r. run_loop E c = Some r \<and>
    (case r of
       None \<Rightarrow> \<exists>d. (d = c \<or> run_good c d) \<and> in_code d \<and> may_panic E hinv (vm_code d ! nat (vm_ip d)) d
     | Some c' \<Rightarrow> vm_stop c' \<and> (c' = c \<or> run_good c c'))"
  using assms
proof (induction "unat (vm_gas c)" arbitrary: c rule: less_induct)
  case less
  show ?case
  proof (cases "vm_stop c")
    case True
    then show ?thesis by (subst run_loop.simps) simp
  next
    case go: False
    note S = run_step_good [OF less.prems go]
    show ?thesis
    proof (cases "run_step E c")
      case None
      then show ?thesis using S go by (subst run_loop.simps) auto
    next
      case (Some d)
      then have d: "run_good c d" using S by simp
      have l: "run_loop E c = run_loop E d" using go Some by (subst run_loop.simps) simp
      show ?thesis
      proof (cases "vm_stop d")
        case True
        then have "run_loop E d = Some (Some d)" by (subst run_loop.simps) simp
        then show ?thesis using True d by (simp add: l)
      next
        case False
        then have "unat (vm_gas d) < unat (vm_gas c)" "run_inv d" using d by (simp_all add: run_good_def word_less_nat_alt)
        from less.hyps [OF this] obtain r where r: "run_loop E d = Some r" 
          "case r of None \<Rightarrow> \<exists>e. (e = d \<or> run_good d e) \<and> in_code e \<and> may_panic E hinv (vm_code e ! nat (vm_ip e)) e
             | Some c' \<Rightarrow> vm_stop c' \<and> (c' = d \<or> run_good d c')" by auto
        then show ?thesis using d run_good_trans [OF d] by (auto simp: l split: option.splits)
      qed
    qed
  qed
qed

lemma vm_init_inv:
  assumes "contract_ok k" "hinv h" "static \<longrightarrow> cStatic k" "EIP150 config"
  shows "run_inv (vm_init (vm_reset p) k h config)"
  using assms by (auto simp: run_inv_def vm_init_def vm_reset_def resetReturnData_def ok_defs stackSize_def)

text \<open>A run of the interpreter.\<close>

lemma EVM_Run_ends:
  assumes "contract_ok k" "hinv h" "static \<longrightarrow> cStatic k" "EIP150 config"
  shows "\<exists>r. EVM_Run E p k config h = Some r \<and>
    (case r of
       None \<Rightarrow> \<exists>d. run_inv d \<and> vm_msg d = k \<and> in_code d \<and> may_panic E hinv (vm_code d ! nat (vm_ip d)) d
     | Some (res, h') \<Rightarrow> hinv h' \<and> R h h' \<and> rGasLeft res \<le> cGas k \<and> length (rReturnValue res) < 2 ^ 62)"
proof -
  define c where "c = vm_init (vm_reset p) k h config"
  have c: "vm_msg c = k" "vm_gas c = cGas k" "vm_host c = h" by (simp_all add: c_def vm_init_def)
  have i: "run_inv c" unfolding c_def by (rule vm_init_inv [OF assms])
  from run_loop_ends [OF i] obtain r where r: "run_loop E c = Some r"
    "case r of None \<Rightarrow> \<exists>d. (d = c \<or> run_good c d) \<and> in_code d \<and> may_panic E hinv (vm_code d ! nat (vm_ip d)) d
       | Some c' \<Rightarrow> vm_stop c' \<and> (c' = c \<or> run_good c c')" by auto
  show ?thesis
  proof (cases r)
    case None
    then show ?thesis using r i c by (auto simp: EVM_Run_def c_def [symmetric] run_good_def)
  next
    case (Some d)
    then have "hinv (vm_host d) \<and> R h (vm_host d) \<and> vm_gas d \<le> cGas k \<and> length (vm_ret d) < 2 ^ 62"
      using r(2) i c by (auto simp: run_good_def run_inv_def base_ok_def R_refl)
    then show ?thesis using r(1) Some by (auto simp: EVM_Run_def c_def [symmetric] vm_result_def)
  qed
qed

end

end
