(* ===== verification/EvmDepth.thy ===== *)
theory EvmDepth
  imports EvmRun
begin

text \<open>
  A frame calls only one level deeper: two hosts that answer the calls of the next depth alike cannot
  be told apart by a run. With the depth check of the executor this bounds the nesting of calls.
\<close>

definition callx_env :: "('h, 'v, 'prv, 'pub) env \<Rightarrow> (Contract \<Rightarrow> 'h \<Rightarrow> (ExecutionResult \<times> 'h) option) \<Rightarrow> ('h, 'v, 'prv, 'pub) env" where
  "callx_env E f = E\<lparr>eHost := (eHost E)\<lparr>Callx := f\<rparr>\<rparr>"

definition callx_agree :: "('h, 'v, 'prv, 'pub) env \<Rightarrow> ('h \<Rightarrow> bool) \<Rightarrow> (Contract \<Rightarrow> 'h \<Rightarrow> (ExecutionResult \<times> 'h) option) \<Rightarrow> 'h vm \<Rightarrow> bool" where
  "callx_agree E hinv f c \<longleftrightarrow>
     (\<forall>k h. contract_ok k \<and> hinv h \<and> cDepth k = cDepth (vm_msg c) + 1 \<longrightarrow> f k h = Callx (eHost E) k h)"

lemma callx_env_sel [simp]:
  "eGrow (callx_env E f) = eGrow E" "eRlp (callx_env E f) = eRlp E" "eCurve (callx_env E f) = eCurve E"
  "Callx (eHost (callx_env E f)) = f" "GetBalance (eHost (callx_env E f)) = GetBalance (eHost E)"
  "GetTxContext (eHost (callx_env E f)) = GetTxContext (eHost E)" "GetCode (eHost (callx_env E f)) = GetCode (eHost E)"
  "GetCodeSize (eHost (callx_env E f)) = GetCodeSize (eHost E)" "GetCodeHash (eHost (callx_env E f)) = GetCodeHash (eHost E)"
  "SetStorage (eHost (callx_env E f)) = SetStorage (eHost E)" "GetStorage (eHost (callx_env E f)) = GetStorage (eHost E)"
  "EmitLog (eHost (callx_env E f)) = EmitLog (eHost E)" "Selfdestruct (eHost (callx_env E f)) = Selfdestruct (eHost E)"
  "hEmpty (eHost (callx_env E f)) = hEmpty (eHost E)" "AccountExists (eHost (callx_env E f)) = AccountExists (eHost E)"
  "GetNonce (eHost (callx_env E f)) = GetNonce (eHost E)" "GetBlockHash (eHost (callx_env E f)) = GetBlockHash (eHost E)"
  by (simp_all add: callx_env_def)

lemma op_callx_env:
  "opLog (callx_env E f) = opLog E" "opMload (callx_env E f) = opMload E" "opMStore (callx_env E f) = opMStore E"
  "opMStore8 (callx_env E f) = opMStore8 E" "opSload (callx_env E f) = opSload E" "opSStore (callx_env E f) = opSStore E"
  "opSha3 (callx_env E f) = opSha3 E" "opExtCodeHash (callx_env E f) = opExtCodeHash E" "opBalance (callx_env E f) = opBalance E"
  "opSelfBalance (callx_env E f) = opSelfBalance E" "opOrigin (callx_env E f) = opOrigin E"
  "opExtCodeSize (callx_env E f) = opExtCodeSize E" "opGasPrice (callx_env E f) = opGasPrice E" "opChainID (callx_env E f) = opChainID E"
  "opExtCodeCopy (callx_env E f) = opExtCodeCopy E" "opCallDataCopy (callx_env E f) = opCallDataCopy E"
  "opReturnDataCopy (callx_env E f) = opReturnDataCopy E" "opCodeCopy (callx_env E f) = opCodeCopy E"
  "opBlockHash (callx_env E f) = opBlockHash E" "opCoinbase (callx_env E f) = opCoinbase E" "opTimestamp (callx_env E f) = opTimestamp E"
  "opNumber (callx_env E f) = opNumber E" "opDifficulty (callx_env E f) = opDifficulty E" "opGasLimit (callx_env E f) = opGasLimit E"
  "opSelfDestruct (callx_env E f) = opSelfDestruct E" "opHalt (callx_env E f) = opHalt E"
  by (intro ext, simp only: opLog_def opMload_def opMStore_def opMStore8_def opSload_def opSStore_def opSha3_def opExtCodeHash_def
      opBalance_def opSelfBalance_def opOrigin_def opExtCodeSize_def opGasPrice_def opChainID_def opExtCodeCopy_def opCallDataCopy_def
      opReturnDataCopy_def opCodeCopy_def opBlockHash_def opCoinbase_def opTimestamp_def opNumber_def opDifficulty_def opGasLimit_def
      opSelfDestruct_def opHalt_def with_mem_def with_gas_def callx_env_sel)+

lemma build_callx_env:
  "buildCallContract (callx_env E f) = buildCallContract E" "buildCreateContract (callx_env E f) = buildCreateContract E"
  by (intro ext, simp only: buildCallContract_def buildCreateContract_def call_contract_def create_contract_def call_gasCost_def callx_env_sel)+

lemma map_of_rel: "list_all2 (rel_prod (=) S) xs ys \<Longrightarrow> rel_option S (map_of xs k) (map_of ys k)"
  by (induction rule: list_all2_induct) auto

context evm_host
begin

lemma built_callx:
  assumes "callx_agree E hinv f c" "built n c b d" "bContract b = Some k"
  shows "f (k\<lparr>cType := t\<rparr>) (vm_host d) = Callx (eHost E) (k\<lparr>cType := t\<rparr>) (vm_host d)"
  using assms good_hinv [of 0 c d] by (auto simp: callx_agree_def built_def contract_ok_def)

lemma opCall_callx_env:
  assumes "callx_agree E hinv f c" "inv c" "vm_stack c = ig # ad # (if has_value op then [v] else []) @ io # isz # ro # rs # s"
  shows "opCall (callx_env E f) op c = opCall E op c"
proof -
  define c' where "c' = resetReturnData c"
  have g: "good 0 c c'" unfolding c'_def by (rule reset_good [OF assms(2)])
  have st: "vm_stack c' = ig # ad # (if has_value op then [v] else []) @ io # isz # ro # rs # s"
    by (simp add: c'_def resetReturnData_def assms(3))
  obtain b d where bd: "buildCallContract E op c' = Some (b, d)" "built 1 c' b d"
    by (rule buildCallContract_built [OF goodD [OF g] st]) blast
  have a: "callx_agree E hinv f c'" using assms(1) good_msg_same [OF g] by (simp add: callx_agree_def)
  show ?thesis unfolding opCall_def build_callx_env callx_env_sel c'_def [symmetric] Let_def [of c'] bd(1) bind.bind_lunit prod.case
    using built_callx [OF a bd(2)] by (intro Option.bind_cong if_cong refl) (simp split: option.split)
qed

lemma opCreate_callx_env:
  assumes "callx_agree E hinv f c" "inv c" "3 \<le> length (vm_stack c)" "op = CREATE2 \<longrightarrow> 4 \<le> length (vm_stack c)"
  shows "opCreate (callx_env E f) op c = opCreate E op c"
proof -
  define c' where "c' = resetReturnData c"
  have g: "good 0 c c'" unfolding c'_def by (rule reset_good [OF assms(2)])
  obtain v off len t where st: "vm_stack c = v # off # len # t" using list_of_length3 [OF assms(3)] by auto
  obtain b d where bd: "buildCreateContract E op c' = Some (b, d)" "built 0 c' b d"
    by (rule buildCreateContract_built [OF goodD [OF g], of v off len t op]) (use st assms(4) in \<open>auto simp: c'_def resetReturnData_def\<close>)
  have a: "callx_agree E hinv f c'" using assms(1) good_msg_same [OF g] by (simp add: callx_agree_def)
  show ?thesis unfolding opCreate_def build_callx_env callx_env_sel c'_def [symmetric] bd(1) bind.bind_lunit prod.case
    using built_callx [OF a bd(2)] by (intro if_cong refl) (simp split: option.split)
qed

definition same_entry :: "(Contract \<Rightarrow> 'h \<Rightarrow> (ExecutionResult \<times> 'h) option) \<Rightarrow> 'h handler \<Rightarrow> 'h handler \<Rightarrow> bool" where
  "same_entry f h h' \<longleftrightarrow> hstack h = hstack h' \<and> hgas h = hgas h' \<and>
     (\<forall>c. callx_agree E hinv f c \<and> inv c \<and> hstack h \<le> length (vm_stack c) \<longrightarrow> inst h c = inst h' c)"

lemma same_entry_refl [simp]: "same_entry f h h"
  by (simp add: same_entry_def)

lemma same_entry_list: "list_all2 (rel_prod (=) (same_entry f)) xs xs"
  by (simp add: list.rel_refl_strong rel_prod_sel)

lemma same_call_create:
  "rel_prod (=) (same_entry f) (register CALL (opCall (callx_env E f) CALL) 7 g) (register CALL (opCall E CALL) 7 g)"
  "rel_prod (=) (same_entry f) (register CALLCODE (opCall (callx_env E f) CALLCODE) 7 g) (register CALLCODE (opCall E CALLCODE) 7 g)"
  "rel_prod (=) (same_entry f) (register DELEGATECALL (opCall (callx_env E f) DELEGATECALL) 6 g) (register DELEGATECALL (opCall E DELEGATECALL) 6 g)"
  "rel_prod (=) (same_entry f) (register STATICCALL (opCall (callx_env E f) STATICCALL) 6 g) (register STATICCALL (opCall E STATICCALL) 6 g)"
  "rel_prod (=) (same_entry f) (register CREATE (opCreate (callx_env E f) CREATE) 3 g) (register CREATE (opCreate E CREATE) 3 g)"
  "rel_prod (=) (same_entry f) (register CREATE2 (opCreate (callx_env E f) CREATE2) 4 g) (register CREATE2 (opCreate E CREATE2) 4 g)"
proof -
  have v: "opCall (callx_env E f) op c = opCall E op c"
    if op: "op \<in> {CALL, CALLCODE}" and c: "callx_agree E hinv f c" "inv c" "7 \<le> length (vm_stack c)" for op c
  proof -
    obtain x t where xt: "vm_stack c = x # t" "6 \<le> length t" using c(3) by (cases "vm_stack c") auto
    obtain a b e f g h u where t: "t = a # b # e # f # g # h # u" using list_of_length6 [OF xt(2)] by auto
    show ?thesis by (rule opCall_callx_env [OF c(1,2), of x a op b e f g h u]) (use op in \<open>auto simp: xt(1) t has_value_def\<close>)
  qed
  have n: "opCall (callx_env E f) op c = opCall E op c"
    if op: "op \<in> {DELEGATECALL, STATICCALL}" and c: "callx_agree E hinv f c" "inv c" "6 \<le> length (vm_stack c)" for op c
  proof -
    obtain a b e f g h u where t: "vm_stack c = a # b # e # f # g # h # u" using list_of_length6 [OF c(3)] by auto
    show ?thesis by (rule opCall_callx_env [OF c(1,2), of a b op 0 e f g h u]) (use op in \<open>auto simp: t has_value_def\<close>)
  qed
  have cr: "opCreate (callx_env E f) op c = opCreate E op c"
    if "callx_agree E hinv f c" "inv c" "op = CREATE \<and> 3 \<le> length (vm_stack c) \<or> op = CREATE2 \<and> 4 \<le> length (vm_stack c)" for op c
    using that by (intro opCreate_callx_env) auto
  show "rel_prod (=) (same_entry f) (register CALL (opCall (callx_env E f) CALL) 7 g) (register CALL (opCall E CALL) 7 g)"
    "rel_prod (=) (same_entry f) (register CALLCODE (opCall (callx_env E f) CALLCODE) 7 g) (register CALLCODE (opCall E CALLCODE) 7 g)"
    "rel_prod (=) (same_entry f) (register DELEGATECALL (opCall (callx_env E f) DELEGATECALL) 6 g) (register DELEGATECALL (opCall E DELEGATECALL) 6 g)"
    "rel_prod (=) (same_entry f) (register STATICCALL (opCall (callx_env E f) STATICCALL) 6 g) (register STATICCALL (opCall E STATICCALL) 6 g)"
    "rel_prod (=) (same_entry f) (register CREATE (opCreate (callx_env E f) CREATE) 3 g) (register CREATE (opCreate E CREATE) 3 g)"
    "rel_prod (=) (same_entry f) (register CREATE2 (opCreate (callx_env E f) CREATE2) 4 g) (register CREATE2 (opCreate E CREATE2) 4 g)"
    by (simp_all add: register_def same_entry_def v n cr)
qed

lemma handlers_callx_env: "list_all2 (rel_prod (=) (same_entry f)) (handlers (callx_env E f)) (handlers E)"
  unfolding handlers_def op_callx_env
  by (intro list_all2_appendI list.rel_intros same_call_create same_entry_list) (simp_all add: rel_prod_sel)

lemma run_step_callx_env:
  assumes "callx_agree E hinv f c" "run_inv c" "\<not> vm_stop c"
  shows "run_step (callx_env E f) c = run_step E c"
proof (cases "vm_ip c < int (length (vm_code c))")
  case False
  then show ?thesis by (simp add: run_step_def)
next
  case True
  have i: "inv c" using run_inv_inv [OF assms(2,3) True] by simp
  have "rel_option (same_entry f) (dispatchTable (callx_env E f) op) (dispatchTable E op)" for op
    unfolding dispatchTable_def by (rule map_of_rel [OF handlers_callx_env])
  note d = this [of "vm_code c ! nat (vm_ip c)"]
  show ?thesis
  proof (cases "dispatchTable E (vm_code c ! nat (vm_ip c))")
    case None
    then show ?thesis using d by (simp add: run_step_def)
  next
    case (Some h)
    then obtain h' where h': "dispatchTable (callx_env E f) (vm_code c ! nat (vm_ip c)) = Some h'" "same_entry f h' h"
      using d by (auto simp: option_rel_Some2)
    obtain ok c' where c': "consumeGas (hgas h) c = (ok, c')" by (cases "consumeGas (hgas h) c")
    have "inst h' c' = inst h c'" if "ok" "hstack h \<le> length (vm_stack c)"
    proof -
      note G = consumeGas_good [OF good_refl [OF i] c']
      have "inv c'" "c' = c\<lparr>vm_gas := vm_gas c - hgas h\<rparr>" using G(1) [OF that(1)] G(4) [OF that(1)] goodD by auto
      then show ?thesis using h'(2) assms(1) that(2) by (auto simp: same_entry_def callx_agree_def)
    qed
    then show ?thesis using Some h' c' by (auto simp: run_step_def same_entry_def Let_def)
  qed
qed

lemma run_loop_callx_env:
  assumes "run_inv c" "callx_agree E hinv f c"
  shows "run_loop (callx_env E f) c = run_loop E c"
  using assms
proof (induction "unat (vm_gas c)" arbitrary: c rule: less_induct)
  case less
  have s: "\<not> vm_stop c \<Longrightarrow> run_step (callx_env E f) c = run_step E c" by (rule run_step_callx_env [OF less.prems(2,1)])
  show ?case
  proof (cases "vm_stop c \<or> run_step E c = None")
    case True
    then show ?thesis by (subst (1 2) run_loop.simps) (auto simp: s)
  next
    case False
    then obtain d where d: "run_step E c = Some d" by auto
    then have g: "run_good c d" using run_step_good [OF less.prems(1)] False by simp
    have eq: "run_loop (callx_env E f) c = run_loop (callx_env E f) d" "run_loop E c = run_loop E d"
      using False d by (subst run_loop.simps, simp add: s)+
    show ?thesis
    proof (cases "vm_stop d")
      case True
      then have "run_loop E' d = Some (Some d)" for E' :: "('h, 'v, 'prv, 'pub) env" by (subst run_loop.simps) simp
      then show ?thesis by (simp add: eq)
    next
      case go: False
      have "run_loop (callx_env E f) d = run_loop E d"
        using g go less.prems(2) by (intro less.hyps) (auto simp: run_good_def word_less_nat_alt callx_agree_def)
      then show ?thesis by (simp add: eq)
    qed
  qed
qed

lemma EVM_Run_callx_env:
  assumes "contract_ok k" "hinv h" "static \<longrightarrow> cStatic k" "EIP150 config"
    and "\<And>k' h. contract_ok k' \<Longrightarrow> hinv h \<Longrightarrow> cDepth k' = cDepth k + 1 \<Longrightarrow> f k' h = Callx (eHost E) k' h"
  shows "EVM_Run (callx_env E f) p k config h = EVM_Run E p k config h"
proof -
  have "callx_agree E hinv f (vm_init (vm_reset p) k h config)" using assms(5) by (simp add: callx_agree_def vm_init_def)
  then show ?thesis using run_loop_callx_env [OF vm_init_inv [OF assms(1-4)]] by (simp add: EVM_Run_def)
qed

end

end
