(* ===== verification/StateTxnInv.thy ===== *)
theory StateTxnInv
  imports StateTxn
begin

text \<open>
  Laws of the account layer: every operation changes one account and leaves the others, the
  entries keep their types, and snapshots restore exactly the accounts they were taken of.
\<close>

section \<open>Assumptions on the libraries\<close>

definition senv_laws :: "('t, 's, 'l, 'n, 'd, 'v, 'prv, 'pub) senv \<Rightarrow> bool" where
  "senv_laws D \<longleftrightarrow> iradix_laws (sTree D) \<and> iradix_laws (sStore D) \<and> lru_laws (sLru D) \<and>
     (\<forall>b. length (keccak (sCurve D) b) = 32) \<and>
     (\<forall>h d c. state_GetCode (sState D) h d = Some c \<longrightarrow> length c < 2 ^ 62)"

named_theorems txn_simps \<open>how the operations change what is read back\<close>

lemma tree_laws:
  assumes "senv_laws D"
  shows "irGet (sTree D) k (irNew (sTree D)) = None"
    "irGet (sTree D) k' (irInsert (sTree D) k v t) = (if k' = k then Some v else irGet (sTree D) k' t)"
    "irGet (sTree D) k' (irDelete (sTree D) k t) = (if k' = k then None else irGet (sTree D) k' t)"
    "distinct (map fst (irWalk (sTree D) t))" "map_of (irWalk (sTree D) t) k = irGet (sTree D) k t"
  using assms unfolding senv_laws_def iradix_laws_def by auto

lemma store_laws:
  assumes "senv_laws D"
  shows "irGet (sStore D) k (irNew (sStore D)) = None"
    "irGet (sStore D) k' (irInsert (sStore D) k v t2) = (if k' = k then Some v else irGet (sStore D) k' t2)"
    "distinct (map fst (irWalk (sStore D) t2))" "map_of (irWalk (sStore D) t2) k = irGet (sStore D) k t2"
  using assms unfolding senv_laws_def iradix_laws_def by auto

section \<open>Keys\<close>

lemma Address_Bytes_inj [simp]: "Address_Bytes a = Address_Bytes b \<longleftrightarrow> a = b"
  by (metis BytesToAddress_Bytes)

lemma Hash_Bytes_inj [simp]: "Hash_Bytes a = Hash_Bytes b \<longleftrightarrow> a = b"
  by (metis BytesToHash_Bytes)

lemma length_index [simp]: "length logIndex = 32" "length refundIndex = 32"
  by (simp_all add: logIndex_def refundIndex_def)

lemma index_distinct [simp]:
  "Address_Bytes a \<noteq> logIndex" "logIndex \<noteq> Address_Bytes a" "Address_Bytes a \<noteq> refundIndex" "refundIndex \<noteq> Address_Bytes a"
  "logIndex \<noteq> refundIndex" "refundIndex \<noteq> logIndex"
proof -
  have "logIndex \<noteq> refundIndex" unfolding logIndex_def refundIndex_def by simp code_simp
  then show "logIndex \<noteq> refundIndex" "refundIndex \<noteq> logIndex" by auto
  have "length (Address_Bytes a) \<noteq> length logIndex" "length (Address_Bytes a) \<noteq> length refundIndex" by simp_all
  then show "Address_Bytes a \<noteq> logIndex" "logIndex \<noteq> Address_Bytes a" "Address_Bytes a \<noteq> refundIndex" "refundIndex \<noteq> Address_Bytes a"
    by metis+
qed

section \<open>Reading an account\<close>

lemma Copy_simps [simp]:
  "oDeleted (StateObject_Copy s) = oDeleted s" "oSuicide (StateObject_Copy s) = oSuicide s" "oCode (StateObject_Copy s) = oCode s"
  "oDirtyCode (StateObject_Copy s) = oDirtyCode s" "oTxn (StateObject_Copy s) = oTxn s"
  "oAccount (StateObject_Copy s) = (oAccount s)\<lparr>aBalance := \<bar>aBalance (oAccount s)\<bar>\<rparr>"
  by (simp_all add: StateObject_Copy_def Account_Copy_def SetBytes_big_Bytes)

lemma Copy_id: "0 \<le> aBalance (oAccount s) \<Longrightarrow> StateObject_Copy s = s"
  by (cases s) (simp add: StateObject_Copy_def Account_Copy_def SetBytes_big_Bytes)

lemma getStateObject_fresh:
  assumes "getStateObject D a T = Some obj"
  shows "\<not> oDeleted obj" "0 \<le> aBalance (oAccount obj)" "StateObject_Copy obj = obj"
proof -
  show "\<not> oDeleted obj" "0 \<le> aBalance (oAccount obj)"
    using assms by (auto simp: getStateObject_def load_object_def bind_eq_Some_conv Account_Copy_def SetBytes_big_Bytes
        split: option.splits entry.splits if_splits)
  then show "StateObject_Copy obj = obj" by (simp add: Copy_id)
qed

lemma newStateObject_simps [simp]:
  "oDeleted (newStateObject D) = False" "aBalance (oAccount (newStateObject D)) = 0" "oTxn (newStateObject D) = None"
  "oSuicide (newStateObject D) = False" "oDirtyCode (newStateObject D) = False" "aNonce (oAccount (newStateObject D)) = 0"
  "aCodeHash (oAccount (newStateObject D)) = emptyCodeHash D" "oCode (newStateObject D) = []"
  by (simp_all add: newStateObject_def)

text \<open>The object an operation works on.\<close>

definition current :: "('t, 's, 'l, 'n, 'd, 'v, 'prv, 'pub) senv \<Rightarrow> address \<Rightarrow> ('t, 'l, 'n, 'd) Txn \<Rightarrow> ('s, 'n) StateObject" where
  "current D a T = (case getStateObject D a T of None \<Rightarrow> newStateObject D | Some obj \<Rightarrow> obj)"

lemma current_fresh [simp]: "\<not> oDeleted (current D a T)" "0 \<le> aBalance (oAccount (current D a T))"
  by (auto simp: current_def getStateObject_fresh split: option.split)

lemma current_Some: "getStateObject D a T = Some obj \<Longrightarrow> current D a T = obj"
  by (simp add: current_def)

lemma upsertAccount_True: "upsertAccount D a True f T = insert_object D a (f (current D a T)) T"
  by (simp add: upsertAccount_def current_def split: option.split)

lemma getStateObject_insert_object:
  assumes "senv_laws D"
  shows "getStateObject D b (insert_object D a obj T) =
    (if b = a then (if oDeleted obj then None else Some (StateObject_Copy obj)) else getStateObject D b T)"
  by (simp add: getStateObject_def insert_object_def tree_laws [OF assms] split: option.split entry.split)

lemma getStateObject_insert_entry [txn_simps]:
  assumes "senv_laws D" "k = logIndex \<or> k = refundIndex"
  shows "getStateObject D b (insert_entry D k e T) = getStateObject D b T"
  using assms(2) by (auto simp: getStateObject_def insert_entry_def tree_laws [OF assms(1)] split: option.split entry.split)

text \<open>An operation on one account writes the changed object and touches nothing else.\<close>

lemma getStateObject_upsert [txn_simps]:
  assumes "senv_laws D" "\<And>obj. oDeleted (f obj) = oDeleted obj" "0 \<le> aBalance (oAccount (f (current D a T)))"
  shows "getStateObject D b (upsertAccount D a True f T) = (if b = a then Some (f (current D a T)) else getStateObject D b T)"
  using assms(2,3) by (simp add: upsertAccount_True getStateObject_insert_object [OF assms(1)] Copy_id)

lemma current_upsert:
  assumes "senv_laws D" "\<And>obj. oDeleted (f obj) = oDeleted obj" "0 \<le> aBalance (oAccount (f (current D a T)))"
  shows "current D b (upsertAccount D a True f T) = (if b = a then f (current D a T) else current D b T)"
  unfolding current_def [of D b] by (simp add: getStateObject_upsert [OF assms])

lemma txn_reads:
  "txn_GetBalance D a T = aBalance (oAccount (current D a T))" "txn_GetNonce D a T = aNonce (oAccount (current D a T))"
  "HasSuicided D a T = oSuicide (current D a T)"
  by (simp_all add: txn_GetBalance_def txn_GetNonce_def HasSuicided_def current_def split: option.split)

lemma map_account_simps [simp]:
  "oDeleted (map_account f obj) = oDeleted obj" "oAccount (map_account f obj) = f (oAccount obj)"
  "oSuicide (map_account f obj) = oSuicide obj" "oTxn (map_account f obj) = oTxn obj"
  "oDirtyCode (map_account f obj) = oDirtyCode obj" "oCode (map_account f obj) = oCode obj"
  by (simp_all add: map_account_def)

section \<open>The invariant of a layer\<close>

definition tree_typed :: "('t, 's, 'l, 'n, 'd, 'v, 'prv, 'pub) senv \<Rightarrow> 't \<Rightarrow> bool" where
  "tree_typed D t \<longleftrightarrow>
     (\<forall>a e. irGet (sTree D) (Address_Bytes a) t = Some e \<longrightarrow> (\<exists>obj. e = EObject obj)) \<and>
     (\<forall>e. irGet (sTree D) logIndex t = Some e \<longrightarrow> (\<exists>l. e = ELogs l)) \<and>
     (\<forall>e. irGet (sTree D) refundIndex t = Some e \<longrightarrow> (\<exists>r. e = ERefund r))"

text \<open>The sum of all balances, over the finite type of addresses.\<close>

definition total :: "('t, 's, 'l, 'n, 'd, 'v, 'prv, 'pub) senv \<Rightarrow> ('t, 'l, 'n, 'd) Txn \<Rightarrow> int" where
  "total D T = (\<Sum>a\<in>UNIV. txn_GetBalance D a T)"

definition code_ok :: "bytes \<Rightarrow> bool" where
  "code_ok c \<longleftrightarrow> length c < 2 ^ 62"

definition cache_ok :: "('t, 's, 'l, 'n, 'd, 'v, 'prv, 'pub) senv \<Rightarrow> ('t, 'l, 'n, 'd) Txn \<Rightarrow> bool" where
  "cache_ok D T \<longleftrightarrow> (\<forall>a c. fst (lruGet (sLru D) a (tCodeCache T)) = Some c \<longrightarrow> code_ok c)"

definition txn_ok :: "('t, 's, 'l, 'n, 'd, 'v, 'prv, 'pub) senv \<Rightarrow> ('t, 'l, 'n, 'd) Txn \<Rightarrow> bool" where
  "txn_ok D T \<longleftrightarrow> tree_typed D (tTxn T) \<and> (\<forall>a. code_ok (oCode (current D a T))) \<and> cache_ok D T"

lemma balance_nonneg [simp]: "0 \<le> txn_GetBalance D a T"
  by (simp add: txn_reads)

lemma balance_le_total: "txn_GetBalance D a T \<le> total D T"
  unfolding total_def by (rule member_le_sum) simp_all

lemma total_nonneg: "0 \<le> total D T"
  unfolding total_def by (simp add: sum_nonneg)

lemma total_change:
  assumes "\<And>b. txn_GetBalance D b T' = (if b = a then x else txn_GetBalance D b T)"
  shows "total D T' = total D T - txn_GetBalance D a T + x"
proof -
  have "total D T' = x + (\<Sum>b\<in>UNIV - {a}. txn_GetBalance D b T)"
    unfolding total_def by (subst sum.remove [of UNIV a]) (simp_all add: assms)
  moreover have "total D T = txn_GetBalance D a T + (\<Sum>b\<in>UNIV - {a}. txn_GetBalance D b T)"
    unfolding total_def by (subst sum.remove [of UNIV a]) simp_all
  ultimately show ?thesis by simp
qed

lemma total_cong: "(\<And>a. txn_GetBalance D a T' = txn_GetBalance D a T) \<Longrightarrow> total D T' = total D T"
  by (simp add: total_def)

lemma frame_simps [simp]:
  "tSnapshot (insert_object D a obj T) = tSnapshot T" "tState (insert_object D a obj T) = tState T"
  "tSnapshots (insert_object D a obj T) = tSnapshots T" "tCodeCache (insert_object D a obj T) = tCodeCache T"
  "tSnapshot (insert_entry D k e T) = tSnapshot T" "tState (insert_entry D k e T) = tState T"
  "tSnapshots (insert_entry D k e T) = tSnapshots T" "tCodeCache (insert_entry D k e T) = tCodeCache T"
  by (simp_all add: insert_object_def insert_entry_def)

lemma frame_upsert [simp]:
  "tSnapshot (upsertAccount D a b f T) = tSnapshot T" "tState (upsertAccount D a b f T) = tState T"
  "tSnapshots (upsertAccount D a b f T) = tSnapshots T" "tCodeCache (upsertAccount D a b f T) = tCodeCache T"
  by (simp_all add: upsertAccount_def Let_def split: option.split)

text \<open>What one operation on an account does to the layer.\<close>

definition changes :: "('t, 's, 'l, 'n, 'd, 'v, 'prv, 'pub) senv \<Rightarrow> address \<Rightarrow> ('s, 'n) StateObject
    \<Rightarrow> ('t, 'l, 'n, 'd) Txn \<Rightarrow> ('t, 'l, 'n, 'd) Txn \<Rightarrow> bool" where
  "changes D a obj T T' \<longleftrightarrow>
     (\<forall>b. current D b T' = (if b = a then obj else current D b T)) \<and> (tree_typed D (tTxn T) \<longrightarrow> tree_typed D (tTxn T')) \<and>
     logs_of D T' = logs_of D T \<and> GetRefund D T' = GetRefund D T \<and>
     tSnapshot T' = tSnapshot T \<and> tState T' = tState T \<and> tSnapshots T' = tSnapshots T \<and> tCodeCache T' = tCodeCache T"

lemma changes_insert_object:
  assumes "senv_laws D" "\<not> oDeleted obj" "0 \<le> aBalance (oAccount obj)"
  shows "changes D a obj T (insert_object D a obj T)"
proof -
  have "current D b (insert_object D a obj T) = (if b = a then obj else current D b T)" for b
    unfolding current_def [of D b] using assms by (simp add: getStateObject_insert_object Copy_id)
  moreover have "logs_of D (insert_object D a obj T) = logs_of D T" "GetRefund D (insert_object D a obj T) = GetRefund D T"
    by (simp_all add: logs_of_def GetRefund_def insert_object_def tree_laws [OF assms(1)])
  moreover have "tree_typed D (tTxn T) \<Longrightarrow> tree_typed D (tTxn (insert_object D a obj T))"
    by (auto simp: tree_typed_def insert_object_def tree_laws [OF assms(1)])
  ultimately show ?thesis by (simp add: changes_def)
qed

lemma changes_upsert:
  assumes "senv_laws D" "\<And>obj. oDeleted (f obj) = oDeleted obj" "0 \<le> aBalance (oAccount (f (current D a T)))"
  shows "changes D a (f (current D a T)) T (upsertAccount D a True f T)"
  unfolding upsertAccount_True using assms by (intro changes_insert_object) simp_all

lemma changes_total:
  "changes D a obj T T' \<Longrightarrow> total D T' = total D T - txn_GetBalance D a T + aBalance (oAccount obj)"
  by (rule total_change) (simp add: changes_def txn_reads)

lemma changes_ok: "changes D a obj T T' \<Longrightarrow> txn_ok D T \<Longrightarrow> code_ok (oCode obj) \<Longrightarrow> txn_ok D T'"
  by (auto simp: changes_def txn_ok_def cache_ok_def)

lemma changes_balance:
  "changes D a obj T T' \<Longrightarrow> txn_GetBalance D b T' = (if b = a then aBalance (oAccount obj) else txn_GetBalance D b T)"
  by (simp add: changes_def txn_reads)

text \<open>The operations on one account.\<close>

lemma changes_ops:
  assumes "senv_laws D"
  shows "0 \<le> txn_GetBalance D a T + x \<Longrightarrow>
      changes D a (map_account (\<lambda>c. c\<lparr>aBalance := aBalance c + x\<rparr>) (current D a T)) T (AddBalance D a x T)"
    "changes D a (map_account (\<lambda>c. c\<lparr>aBalance := \<bar>x\<bar>\<rparr>) (current D a T)) T (SetBalance D a x T)"
    "changes D a (map_account (\<lambda>c. c\<lparr>aNonce := aNonce c + 1\<rparr>) (current D a T)) T (IncrNonce D a T)"
    "changes D a (map_account (\<lambda>c. c\<lparr>aNonce := n\<rparr>) (current D a T)) T (txn_SetNonce D a n T)"
    "changes D a ((map_account (\<lambda>c. c\<lparr>aCodeHash := Keccak256 (sCurve D) [code]\<rparr>) (current D a T))\<lparr>oDirtyCode := True, oCode := code\<rparr>) T (SetCode D a code T)"
    "changes D a (current D a T) T (TouchAccount D a T)"
    "changes D a (map_account (\<lambda>c. c\<lparr>aBalance := txn_GetBalance D a T\<rparr>) (newStateObject D)) T (CreateAccount D a T)"
proof -
  show "0 \<le> txn_GetBalance D a T + x \<Longrightarrow>
      changes D a (map_account (\<lambda>c. c\<lparr>aBalance := aBalance c + x\<rparr>) (current D a T)) T (AddBalance D a x T)"
    unfolding AddBalance_def by (rule changes_upsert [OF assms]) (simp_all add: txn_reads)
  show "changes D a (map_account (\<lambda>c. c\<lparr>aBalance := \<bar>x\<bar>\<rparr>) (current D a T)) T (SetBalance D a x T)"
    unfolding SetBalance_def SetBytes_big_Bytes by (rule changes_upsert [OF assms]) simp_all
  show "changes D a (map_account (\<lambda>c. c\<lparr>aNonce := aNonce c + 1\<rparr>) (current D a T)) T (IncrNonce D a T)"
    unfolding IncrNonce_def by (rule changes_upsert [OF assms]) simp_all
  show "changes D a (map_account (\<lambda>c. c\<lparr>aNonce := n\<rparr>) (current D a T)) T (txn_SetNonce D a n T)"
    unfolding txn_SetNonce_def by (rule changes_upsert [OF assms]) simp_all
  show "changes D a ((map_account (\<lambda>c. c\<lparr>aCodeHash := Keccak256 (sCurve D) [code]\<rparr>) (current D a T))\<lparr>oDirtyCode := True, oCode := code\<rparr>) T (SetCode D a code T)"
    unfolding SetCode_def by (rule changes_upsert [OF assms]) simp_all
  show "changes D a (current D a T) T (TouchAccount D a T)"
    unfolding TouchAccount_def by (rule changes_upsert [OF assms]) simp_all
  have "(case getStateObject D a T of None \<Rightarrow> newStateObject D
      | Some prev \<Rightarrow> map_account (\<lambda>c. c\<lparr>aBalance := SetBytes (big_Bytes (aBalance (oAccount prev)))\<rparr>) (newStateObject D))
    = map_account (\<lambda>c. c\<lparr>aBalance := txn_GetBalance D a T\<rparr>) (newStateObject D)"
    by (auto simp: txn_GetBalance_def SetBytes_big_Bytes getStateObject_fresh map_account_def newStateObject_def split: option.split)
  then show "changes D a (map_account (\<lambda>c. c\<lparr>aBalance := txn_GetBalance D a T\<rparr>) (newStateObject D)) T (CreateAccount D a T)"
    unfolding CreateAccount_def Let_def by (simp add: changes_insert_object [OF assms])
qed

section \<open>Compound operations\<close>

text \<open>
  \<open>evolves\<close> bounds how an execution changes the layer: the snapshots taken so far stay, the base does not
  change, and no money is created. \<open>same_accounts\<close>: nothing that a contract can read back has changed.
\<close>

definition txn_frame :: "('t, 'l, 'n, 'd) Txn \<Rightarrow> ('t, 'l, 'n, 'd) Txn \<Rightarrow> bool" where
  "txn_frame T T' \<longleftrightarrow> tSnapshot T' = tSnapshot T \<and> tState T' = tState T \<and> (\<exists>xs. tSnapshots T' = tSnapshots T @ xs)"

definition same_accounts :: "('t, 's, 'l, 'n, 'd, 'v, 'prv, 'pub) senv \<Rightarrow> ('t, 'l, 'n, 'd) Txn \<Rightarrow> ('t, 'l, 'n, 'd) Txn \<Rightarrow> bool" where
  "same_accounts D T T' \<longleftrightarrow> (\<forall>a. current D a T' = current D a T) \<and> logs_of D T' = logs_of D T \<and> GetRefund D T' = GetRefund D T"

definition evolves :: "('t, 's, 'l, 'n, 'd, 'v, 'prv, 'pub) senv \<Rightarrow> bool \<Rightarrow> ('t, 'l, 'n, 'd) Txn \<Rightarrow> ('t, 'l, 'n, 'd) Txn \<Rightarrow> bool" where
  "evolves D static T T' \<longleftrightarrow> txn_frame T T' \<and> (txn_ok D T \<longrightarrow> txn_ok D T') \<and> total D T' \<le> total D T \<and> (static \<longrightarrow> same_accounts D T T')"

lemma txn_frame_refl [simp]: "txn_frame T T"
  by (simp add: txn_frame_def)

lemma txn_frame_trans: "txn_frame T T' \<Longrightarrow> txn_frame T' T'' \<Longrightarrow> txn_frame T T''"
  by (auto simp: txn_frame_def)

lemma evolves_refl [simp]: "evolves D s T T"
  by (simp add: evolves_def same_accounts_def)

lemma evolves_trans: "evolves D s T T' \<Longrightarrow> evolves D s T' T'' \<Longrightarrow> evolves D s T T''"
  by (auto simp: evolves_def same_accounts_def intro: txn_frame_trans)

lemma reads_cong:
  assumes "tTxn T' = tTxn T" "txn_frame T T'"
  shows "getStateObject D a T' = getStateObject D a T" "current D a T' = current D a T" "total D T' = total D T"
    "logs_of D T' = logs_of D T" "GetRefund D T' = GetRefund D T"
proof -
  have "tSnapshot T' = tSnapshot T" "tState T' = tState T" using assms(2) by (simp_all add: txn_frame_def)
  then show g: "getStateObject D a T' = getStateObject D a T" for a unfolding getStateObject_def assms(1) by (simp only:)
  show "current D a T' = current D a T" "total D T' = total D T" by (simp_all add: current_def total_def txn_GetBalance_def g)
  show "logs_of D T' = logs_of D T" "GetRefund D T' = GetRefund D T" by (simp_all add: logs_of_def GetRefund_def assms(1))
qed

lemma evolves_cong:
  assumes "tTxn T' = tTxn T" "txn_frame T T'" "cache_ok D T \<Longrightarrow> cache_ok D T'"
  shows "evolves D s T T'"
  using assms(2,3) by (auto simp: evolves_def txn_ok_def same_accounts_def reads_cong [OF assms(1,2)] assms(1))

lemma changes_evolves:
  assumes "changes D a obj T T'" "code_ok (oCode (current D a T)) \<longrightarrow> code_ok (oCode obj)" "aBalance (oAccount obj) \<le> txn_GetBalance D a T"
    and "s \<longrightarrow> obj = current D a T"
  shows "evolves D s T T'"
  unfolding evolves_def using assms changes_ok [OF assms(1)] changes_total [OF assms(1)]
  by (auto simp: txn_frame_def same_accounts_def changes_def txn_ok_def)

lemma Snapshot_evolves: "txn_Snapshot T = (i, T') \<Longrightarrow> evolves D s T T' \<and> i < length (tSnapshots T') \<and> tSnapshots T' ! i = tTxn T"
  by (auto simp: txn_Snapshot_def txn_frame_def cache_ok_def intro!: evolves_cong)

text \<open>Going back to a snapshot restores the accounts it was taken of.\<close>

lemma RevertToSnapshot_restores:
  assumes "txn_Snapshot T = (i, T1)" "txn_frame T1 T2"
  obtains T3 where "RevertToSnapshot i T2 = Some T3" "tTxn T3 = tTxn T" "txn_frame T T3" "tCodeCache T3 = tCodeCache T2"
proof -
  have "tSnapshots T1 = tSnapshots T @ [tTxn T]" "i = length (tSnapshots T)" "txn_frame T T1"
    using assms(1) by (auto simp: txn_Snapshot_def txn_frame_def)
  then show thesis using assms(2) that [of "T2\<lparr>tTxn := tTxn T\<rparr>"]
    by (auto simp: txn_frame_def RevertToSnapshot_def nth_append)
qed

lemma revert_evolves:
  assumes "txn_Snapshot T = (i, T1)" "evolves D s' T1 T2" "RevertToSnapshot i T2 = Some T3"
  shows "evolves D s T T3"
proof -
  have f: "txn_frame T1 T2" "txn_ok D T1 \<longrightarrow> txn_ok D T2" using assms(2) by (auto simp: evolves_def)
  obtain T4 where T4: "RevertToSnapshot i T2 = Some T4" "tTxn T4 = tTxn T" "txn_frame T T4" "tCodeCache T4 = tCodeCache T2"
    by (rule RevertToSnapshot_restores [OF assms(1) f(1)])
  have T1: "txn_ok D T \<longrightarrow> txn_ok D T1" using Snapshot_evolves [OF assms(1)] by (auto simp: evolves_def)
  note c = reads_cong [OF T4(2,3)]
  have "cache_ok D T4 \<longleftrightarrow> cache_ok D T2" by (simp add: cache_ok_def T4(4))
  then have "txn_ok D T \<longrightarrow> txn_ok D T4" using f(2) T1 by (simp add: txn_ok_def c T4(2))
  moreover have "same_accounts D T T4" by (simp add: same_accounts_def c)
  ultimately show ?thesis using T4 assms(3) by (simp add: evolves_def c)
qed

lemma entry_reads:
  assumes "senv_laws D" "k = logIndex \<or> k = refundIndex"
  shows "current D a (insert_entry D k e T) = current D a T" "total D (insert_entry D k e T) = total D T"
  by (simp_all add: current_def total_def txn_GetBalance_def getStateObject_insert_entry [OF assms])

lemma entry_evolves:
  assumes "senv_laws D" "k = logIndex \<and> (\<exists>l. e = ELogs l) \<or> k = refundIndex \<and> (\<exists>r. e = ERefund r)"
  shows "evolves D False T (insert_entry D k e T)"
proof -
  have k: "k = logIndex \<or> k = refundIndex" using assms(2) by auto
  have "tree_typed D (tTxn T) \<Longrightarrow> tree_typed D (tTxn (insert_entry D k e T))"
    using assms(2) by (auto simp: tree_typed_def insert_entry_def tree_laws [OF assms(1)])
  then show ?thesis
    by (auto simp: evolves_def txn_frame_def txn_ok_def cache_ok_def entry_reads [OF assms(1) k])
qed

lemma txn_ops_evolve:
  assumes "senv_laws D"
  shows "evolves D False T (txn_EmitLog D a ts d T)" "evolves D False T (AddRefund D g T)" "evolves D False T (SubRefund D g T)"
    "evolves D s T (TouchAccount D a T)" "evolves D False T (IncrNonce D a T)" "evolves D False T (SetState D a key val T)"
    "evolves D False T (CreateAccount D a T)" "code_ok code \<Longrightarrow> evolves D False T (SetCode D a code T)"
proof -
  show "evolves D False T (txn_EmitLog D a ts d T)" "evolves D False T (AddRefund D g T)" "evolves D False T (SubRefund D g T)"
    unfolding txn_EmitLog_def AddRefund_def SubRefund_def Let_def by (rule entry_evolves [OF assms], simp)+
  note C = changes_ops [OF assms, where a = a and T = T]
  show "evolves D s T (TouchAccount D a T)" by (rule changes_evolves [OF C(6)]) (simp_all add: txn_reads)
  show "evolves D False T (IncrNonce D a T)" by (rule changes_evolves [OF C(3)]) (simp_all add: txn_reads)
  show "evolves D False T (CreateAccount D a T)" by (rule changes_evolves [OF C(7)]) (simp_all add: code_ok_def)
  show "code_ok code \<Longrightarrow> evolves D False T (SetCode D a code T)" by (rule changes_evolves [OF C(5)]) (simp_all add: txn_reads)
  show "evolves D False T (SetState D a key val T)" unfolding SetState_def
    by (rule changes_evolves [OF changes_upsert [OF assms]]) (simp_all add: Let_def txn_reads)
qed

lemma again_refund_evolves:
  assumes "senv_laws D"
  shows "evolves D False T (again_refund D original cur val f T)"
proof -
  note ops = txn_ops_evolve [OF assms]
  define T2 where "T2 = (if original \<noteq> 0 then if cur = 0 then SubRefund D 15000 T else if val = 0 then AddRefund D 15000 T else T else T)"
  have "evolves D False T T2" unfolding T2_def by (simp add: ops)
  moreover have "evolves D False T2 (again_refund D original cur val f T)"
    unfolding again_refund_def T2_def [symmetric] Let_def by (simp add: ops)
  ultimately show ?thesis by (rule evolves_trans)
qed

lemma SetStorage_evolves:
  assumes "senv_laws D" "txn_SetStorage D a key val f T = (st, T')"
  shows "evolves D False T T'"
proof -
  define T1 where "T1 = SetState D a key val T"
  have s: "evolves D False T T1" unfolding T1_def by (rule txn_ops_evolve [OF assms(1)])
  have "T' = T \<or> T' = T1 \<or> T' = AddRefund D 15000 T1 \<or> (\<exists>x y. T' = again_refund D x y val f T1)"
    using assms(2) unfolding txn_SetStorage_def T1_def [symmetric] by (auto simp: Let_def split: if_splits)
  then show ?thesis
    using s evolves_trans [OF s txn_ops_evolve(2) [OF assms(1)]] evolves_trans [OF s again_refund_evolves [OF assms(1)]] by auto
qed

section \<open>Transfers and the end of a contract\<close>

text \<open>A withdrawal that succeeds lowers one balance by the amount, which the balance covers.\<close>

lemma SubBalance_cases:
  assumes "senv_laws D" "SubBalance D a x T = (e, T1)"
  obtains (Zero) "x = 0" "e = None" "T1 = T"
  | (Poor) "x \<noteq> 0" "txn_GetBalance D a T < x" "e = Some ErrNotEnoughFunds" "T1 = T"
  | (Paid) "x \<noteq> 0" "x \<le> txn_GetBalance D a T" "e = None"
      "changes D a (map_account (\<lambda>c. c\<lparr>aBalance := aBalance c - x\<rparr>) (current D a T)) T T1"
proof -
  have "changes D a (map_account (\<lambda>c. c\<lparr>aBalance := aBalance c - x\<rparr>) (current D a T)) T
      (upsertAccount D a True (map_account (\<lambda>c. c\<lparr>aBalance := aBalance c - x\<rparr>)) T)" if "x \<le> txn_GetBalance D a T"
    by (rule changes_upsert [OF assms(1)]) (use that in \<open>simp_all add: txn_reads\<close>)
  then show thesis using assms(2) that by (auto simp: SubBalance_def split: if_splits)
qed

lemma SubBalance_frame:
  assumes "senv_laws D" "SubBalance D a x T = (e, T1)" "0 \<le> x"
  shows "evolves D (x = 0) T T1" "total D T1 = total D T - (if e = None then x else 0)"
    "txn_GetBalance D b T1 = txn_GetBalance D b T - (if e = None \<and> b = a then x else 0)" "e \<in> {None, Some ErrNotEnoughFunds}"
proof -
  have "evolves D (x = 0) T T1 \<and> total D T1 = total D T - (if e = None then x else 0) \<and>
    txn_GetBalance D b T1 = txn_GetBalance D b T - (if e = None \<and> b = a then x else 0) \<and> e \<in> {None, Some ErrNotEnoughFunds}"
    using assms(1,2)
  proof (cases rule: SubBalance_cases)
    case Paid
    have "evolves D (x = 0) T T1" by (rule changes_evolves [OF Paid(4)]) (use Paid assms(3) in \<open>simp_all add: txn_reads\<close>)
    then show ?thesis using Paid changes_total [OF Paid(4)] changes_balance [OF Paid(4)] by (simp add: txn_reads)
  qed auto
  then show "evolves D (x = 0) T T1" "total D T1 = total D T - (if e = None then x else 0)"
    "txn_GetBalance D b T1 = txn_GetBalance D b T - (if e = None \<and> b = a then x else 0)" "e \<in> {None, Some ErrNotEnoughFunds}"
    by auto
qed

lemma AddBalance_frame:
  assumes "senv_laws D" "0 \<le> x"
  shows "txn_frame T (AddBalance D a x T)" "txn_ok D T \<Longrightarrow> txn_ok D (AddBalance D a x T)"
    "total D (AddBalance D a x T) = total D T + x"
    "txn_GetBalance D b (AddBalance D a x T) = txn_GetBalance D b T + (if b = a then x else 0)"
    "x = 0 \<Longrightarrow> same_accounts D T (AddBalance D a x T)"
    "tCodeCache (AddBalance D a x T) = tCodeCache T"
proof -
  have c: "changes D a (map_account (\<lambda>c. c\<lparr>aBalance := aBalance c + x\<rparr>) (current D a T)) T (AddBalance D a x T)"
    by (rule changes_ops [OF assms(1)]) (use assms(2) balance_nonneg [of D a T] in linarith)
  show "txn_ok D T \<Longrightarrow> txn_ok D (AddBalance D a x T)" by (rule changes_ok [OF c]) (simp_all add: txn_ok_def)
  show "txn_frame T (AddBalance D a x T)" "tCodeCache (AddBalance D a x T) = tCodeCache T"
    using c by (simp_all add: changes_def txn_frame_def)
  show "total D (AddBalance D a x T) = total D T + x" using changes_total [OF c] by (simp add: txn_reads)
  show "txn_GetBalance D b (AddBalance D a x T) = txn_GetBalance D b T + (if b = a then x else 0)"
    using changes_balance [OF c] by (simp add: txn_reads)
  show "x = 0 \<Longrightarrow> same_accounts D T (AddBalance D a x T)" using c by (simp add: same_accounts_def changes_def map_account_def)
qed

text \<open>Reading code fills the cache; nothing that can be read back changes.\<close>

lemma GetCode_evolves:
  assumes "senv_laws D" "txn_GetCode D a T = (code, T')"
  shows "evolves D s T T'" "txn_ok D T \<Longrightarrow> code_ok code" "tTxn T' = tTxn T" "txn_frame T T'"
proof -
  have lru: "lru_laws (sLru D)" and db: "\<And>h d c. state_GetCode (sState D) h d = Some c \<Longrightarrow> code_ok c"
    using assms(1) by (auto simp: senv_laws_def code_ok_def)
  have get: "fst (lruGet (sLru D) k (snd (lruGet (sLru D) a l))) = fst (lruGet (sLru D) k l)" for k l
    using lru unfolding lru_laws_def by blast
  have add: "fst (lruGet (sLru D) k (lruAdd (sLru D) a v l)) \<in> {None, if k = a then Some v else fst (lruGet (sLru D) k l)}" for k v l
    using lru unfolding lru_laws_def by blast
  define v where "v = (case state_GetCode (sState D) (BytesToHash (aCodeHash (oAccount (current D a T)))) (tState T) of None \<Rightarrow> [] | Some c \<Rightarrow> c)"
  have v: "code_ok v" using db by (simp add: v_def code_ok_def split: option.split)
  define l where "l = snd (lruGet (sLru D) a (tCodeCache T))"
  have r: "code = [] \<and> T' = T \<or> code = oCode (current D a T) \<and> T' = T \<or>
      fst (lruGet (sLru D) a (tCodeCache T)) = Some code \<and> T' = T\<lparr>tCodeCache := l\<rparr> \<or>
      code = v \<and> T' = T\<lparr>tCodeCache := lruAdd (sLru D) a v l\<rparr>"
    using assms(2) by (auto simp: txn_GetCode_def current_def v_def l_def Let_def split: option.splits if_splits prod.splits)
  show t: "tTxn T' = tTxn T" "txn_frame T T'" using r by (auto simp: txn_frame_def)
  show "evolves D s T T'"
  proof (rule evolves_cong [OF t])
    assume c: "cache_ok D T"
    have 1: "cache_ok D (T\<lparr>tCodeCache := l\<rparr>)" using c by (simp add: cache_ok_def l_def get)
    have "fst (lruGet (sLru D) k (lruAdd (sLru D) a v l)) = Some x \<Longrightarrow> code_ok x" for k x
      using add [of k v l] 1 v by (auto simp: cache_ok_def split: if_splits)
    then have "cache_ok D (T\<lparr>tCodeCache := lruAdd (sLru D) a v l\<rparr>)" by (simp add: cache_ok_def)
    with 1 c r show "cache_ok D T'" by auto
  qed
  show "txn_ok D T \<Longrightarrow> code_ok code" using r v by (auto simp: txn_ok_def cache_ok_def code_ok_def)
qed

lemma Suicide_frame:
  assumes "senv_laws D" "Suicide D a T = (b, T')"
  shows "evolves D False T T'" "total D T' = total D T - txn_GetBalance D a T"
    "txn_GetBalance D c T' = (if c = a then 0 else txn_GetBalance D c T)"
proof -
  have "T' = T \<and> txn_GetBalance D a T = 0 \<or>
    changes D a ((map_account (\<lambda>a. a\<lparr>aBalance := 0\<rparr>) (current D a T))\<lparr>oSuicide := True\<rparr>) T T'"
  proof (cases "getStateObject D a T")
    case None
    then show ?thesis using assms(2) by (simp add: Suicide_def upsertAccount_def txn_GetBalance_def)
  next
    case (Some obj)
    then have "T' = upsertAccount D a True (\<lambda>obj. (map_account (\<lambda>a. a\<lparr>aBalance := 0\<rparr>) obj)\<lparr>oSuicide := True\<rparr>) T"
      using assms(2) by (simp add: Suicide_def upsertAccount_def)
    moreover have "changes D a ((map_account (\<lambda>a. a\<lparr>aBalance := 0\<rparr>) (current D a T))\<lparr>oSuicide := True\<rparr>) T
      (upsertAccount D a True (\<lambda>obj. (map_account (\<lambda>a. a\<lparr>aBalance := 0\<rparr>) obj)\<lparr>oSuicide := True\<rparr>) T)"
      by (rule changes_upsert [OF assms(1)]) simp_all
    ultimately show ?thesis by simp
  qed
  then consider "T' = T" "txn_GetBalance D a T = 0"
    | (C) "changes D a ((map_account (\<lambda>a. a\<lparr>aBalance := 0\<rparr>) (current D a T))\<lparr>oSuicide := True\<rparr>) T T'" by blast
  then have "evolves D False T T' \<and> total D T' = total D T - txn_GetBalance D a T \<and>
    txn_GetBalance D c T' = (if c = a then 0 else txn_GetBalance D c T)"
  proof cases
    case C
    have "evolves D False T T'" by (rule changes_evolves [OF C]) simp_all
    then show ?thesis using changes_total [OF C] changes_balance [OF C] by simp
  qed auto
  then show "evolves D False T T'" "total D T' = total D T - txn_GetBalance D a T"
    "txn_GetBalance D c T' = (if c = a then 0 else txn_GetBalance D c T)" by auto
qed

section \<open>The end of a transaction\<close>

definition mark_deleted :: "('s, 'n) entry \<Rightarrow> ('s, 'n) entry" where
  "mark_deleted e = (case e of EObject obj \<Rightarrow> EObject ((StateObject_Copy obj)\<lparr>oDeleted := True\<rparr>) | _ \<Rightarrow> e)"

lemma clean_keys_marks:
  assumes "senv_laws D" "distinct ks" "\<forall>k\<in>set ks. \<exists>obj. irGet (sTree D) k t = Some (EObject obj)"
  shows "\<exists>t'. clean_keys D ks t = Some t' \<and>
    (\<forall>k. irGet (sTree D) k t' = (if k \<in> set ks then map_option mark_deleted (irGet (sTree D) k t) else irGet (sTree D) k t))"
  using assms(2,3)
proof (induction ks arbitrary: t)
  case (Cons k ks)
  then obtain obj where obj: "irGet (sTree D) k t = Some (EObject obj)" by auto
  define t1 where "t1 = irInsert (sTree D) k (EObject ((StateObject_Copy obj)\<lparr>oDeleted := True\<rparr>)) t"
  have g: "irGet (sTree D) k' t1 = (if k' = k then Some (mark_deleted (EObject obj)) else irGet (sTree D) k' t)" for k'
    by (simp add: t1_def tree_laws [OF assms(1)] mark_deleted_def)
  have "distinct ks" "\<forall>k\<in>set ks. \<exists>obj. irGet (sTree D) k t1 = Some (EObject obj)" using Cons.prems by (auto simp: g)
  from Cons.IH [OF this] obtain t' where t': "clean_keys D ks t1 = Some t'"
    "\<And>k. irGet (sTree D) k t' = (if k \<in> set ks then map_option mark_deleted (irGet (sTree D) k t1) else irGet (sTree D) k t1)" by auto
  show ?case using t' obj Cons.prems(1) by (intro exI [of _ t']) (auto simp: t1_def [symmetric] g)
qed simp

lemma removable_object: "removable D del e \<Longrightarrow> \<exists>obj. e = EObject obj"
  by (cases e) (auto simp: removable_def)

text \<open>Cleaning never panics. It deletes the accounts that ended or are empty and keeps all others.\<close>

lemma CleanDeleteObjects_reads:
  assumes "senv_laws D"
  obtains T' where "CleanDeleteObjects D del T = Some T'" "txn_frame T T'" "tCodeCache T' = tCodeCache T" "tree_typed D (tTxn T) \<longrightarrow> tree_typed D (tTxn T')"
    "\<And>a. current D a T' = (case irGet (sTree D) (Address_Bytes a) (tTxn T) of
       Some e \<Rightarrow> if removable D del e then newStateObject D else current D a T | None \<Rightarrow> current D a T)"
    "logs_of D T' = logs_of D T" "GetRefund D T' = 0"
proof -
  let ?get = "irGet (sTree D)"
  define rem where "rem = map fst (filter (\<lambda>(k, v). removable D del v) (irWalk (sTree D) (tTxn T)))"
  have walk: "map_of (irWalk (sTree D) (tTxn T)) k = ?get k (tTxn T)" "distinct (map fst (irWalk (sTree D) (tTxn T)))" for k
    using tree_laws [OF assms] by auto
  have mem: "k \<in> set rem \<longleftrightarrow> (\<exists>e. ?get k (tTxn T) = Some e \<and> removable D del e)" for k
    unfolding rem_def walk(1) [symmetric] using walk(2) by (auto simp: map_of_eq_Some_iff image_iff)
  have "distinct rem" using walk(2) unfolding rem_def by (rule distinct_map_filter)
  moreover have "\<forall>k\<in>set rem. \<exists>obj. ?get k (tTxn T) = Some (EObject obj)"
    using mem removable_object by blast
  ultimately obtain t' where t': "clean_keys D rem (tTxn T) = Some t'"
    "\<And>k. ?get k t' = (if k \<in> set rem then map_option mark_deleted (?get k (tTxn T)) else ?get k (tTxn T))"
    using clean_keys_marks [OF assms] by blast
  define T' where "T' = T\<lparr>tTxn := irDelete (sTree D) refundIndex t'\<rparr>"
  have g: "?get k (tTxn T') = (if k = refundIndex then None else ?get k t')" for k by (simp add: T'_def tree_laws [OF assms])
  have f: "txn_frame T T'" "tCodeCache T' = tCodeCache T" "tSnapshot T' = tSnapshot T" "tState T' = tState T" by (simp_all add: T'_def txn_frame_def)
  have 1: "CleanDeleteObjects D del T = Some T'" by (simp add: CleanDeleteObjects_def rem_def [symmetric] t'(1) T'_def)
  have m: "\<not> removable D del (ELogs l)" "\<not> removable D del (ERefund r)" for l r by (simp_all add: removable_def)
  have lr: "logs_of D T' = logs_of D T" "GetRefund D T' = 0"
    using m by (auto simp: logs_of_def GetRefund_def g t'(2) mem mark_deleted_def split: option.split entry.split)
  have ty: "tree_typed D (tTxn T) \<longrightarrow> tree_typed D (tTxn T')"
    using m by (fastforce simp: tree_typed_def g t'(2) mem mark_deleted_def split: if_splits)
  have cur: "current D a T' = (case ?get (Address_Bytes a) (tTxn T) of
       Some e \<Rightarrow> if removable D del e then newStateObject D else current D a T | None \<Rightarrow> current D a T)" for a
  proof (cases "\<exists>e. ?get (Address_Bytes a) (tTxn T) = Some e \<and> removable D del e")
    case True
    then obtain obj where "?get (Address_Bytes a) (tTxn T) = Some (EObject obj)" "removable D del (EObject obj)"
      using removable_object by blast
    then show ?thesis by (simp add: current_def getStateObject_def g t'(2) mem mark_deleted_def)
  next
    case False
    then have "?get (Address_Bytes a) (tTxn T') = ?get (Address_Bytes a) (tTxn T)" by (auto simp: g t'(2) mem)
    then have "current D a T' = current D a T" unfolding current_def getStateObject_def f(3,4) by simp
    then show ?thesis using False by (simp split: option.split)
  qed
  show thesis by (rule that [OF 1 f(1,2) ty cur lr])
qed

lemma CleanDeleteObjects_ok:
  assumes "senv_laws D" "CleanDeleteObjects D del T = Some T'"
  shows "evolves D False T T'"
proof -
  obtain T2 where C: "CleanDeleteObjects D del T = Some T2" "txn_frame T T2" "tCodeCache T2 = tCodeCache T"
    "tree_typed D (tTxn T) \<longrightarrow> tree_typed D (tTxn T2)"
    "\<And>a. current D a T2 = (case irGet (sTree D) (Address_Bytes a) (tTxn T) of
       Some e \<Rightarrow> if removable D del e then newStateObject D else current D a T | None \<Rightarrow> current D a T)"
    by (rule CleanDeleteObjects_reads [OF assms(1), of del T]) (rule that)
  have "txn_GetBalance D a T2 \<le> txn_GetBalance D a T" for a
    by (auto simp: txn_reads C(5) split: option.split)
  then have "total D T2 \<le> total D T" unfolding total_def by (intro sum_mono)
  moreover have "txn_ok D T \<longrightarrow> txn_ok D T2"
    using C(4) by (auto simp: txn_ok_def cache_ok_def C(3,5) code_ok_def split: option.split)
  ultimately show ?thesis using C(1,2) assms(2) by (simp add: evolves_def)
qed

lemma Logs_ok:
  assumes "senv_laws D" "Logs D T = (l, T')"
  shows "evolves D False T T'" "l = logs_of D T"
proof -
  have "T' = T \<or> T' = T\<lparr>tTxn := irDelete (sTree D) logIndex (tTxn T)\<rparr>"
    using assms(2) by (auto simp: Logs_def split: option.splits)
  moreover have "evolves D False T (T\<lparr>tTxn := irDelete (sTree D) logIndex (tTxn T)\<rparr>)"
  proof -
    let ?T = "T\<lparr>tTxn := irDelete (sTree D) logIndex (tTxn T)\<rparr>"
    have "getStateObject D a ?T = getStateObject D a T" for a
      by (simp add: getStateObject_def tree_laws [OF assms(1)] split: option.split entry.split)
    then have c: "current D a ?T = current D a T" "txn_GetBalance D a ?T = txn_GetBalance D a T" for a
      by (simp_all add: current_def txn_GetBalance_def)
    have "tree_typed D (tTxn T) \<Longrightarrow> tree_typed D (tTxn ?T)" by (auto simp: tree_typed_def tree_laws [OF assms(1)])
    then show ?thesis by (auto simp: evolves_def txn_frame_def txn_ok_def cache_ok_def c total_def)
  qed
  ultimately show "evolves D False T T'" by auto
  show "l = logs_of D T" using assms(2) by (auto simp: Logs_def logs_of_def split: option.splits)
qed

end
