(* ===== verification/ExecutorInv.thy ===== *)
theory ExecutorInv
  imports Executor EvmDepth StateTxnInv
begin

text \<open>
  The transition keeps the contract that the virtual machine expects of its host (locale \<open>evm_host\<close>), for
  every bound on the nesting of calls. From this follow the accounting of the executor: no call creates
  money, a static call changes nothing, a failed call is undone, and a transaction pays for its gas.
\<close>

section \<open>The invariant of a transition\<close>

definition xlaws :: "('t, 's, 'l, 'n, 'd, 'v, 'prv, 'pub, 'g1, 'g2) Executor \<Rightarrow> bool" where
  "xlaws X \<longleftrightarrow> senv_laws (xState X) \<and> pre_laws (xPre X) \<and> (\<forall>cap n. n \<le> xGrow X cap n)"

definition ctx_ok :: "TxContext \<Rightarrow> bool" where
  "ctx_ok c \<longleftrightarrow> 0 \<le> sint (ctxNumber c) \<and> 0 \<le> sint (ctxTimestamp c) \<and> 0 \<le> sint (ctxGasLimit c)"

definition tr_inv :: "('t, 's, 'l, 'n, 'd, 'v, 'prv, 'pub) senv \<Rightarrow> ('t, 'l, 'n, 'd) Transition \<Rightarrow> bool" where
  "tr_inv D t \<longleftrightarrow> txn_ok D (trState t) \<and> total D (trState t) < 2 ^ 256 \<and> ctx_ok (trCtx t) \<and> EIP150 (trConfig t)"

text \<open>How an execution may change the transition: only the accounts, and within \<open>evolves\<close>.\<close>

definition tr_rel :: "('t, 's, 'l, 'n, 'd, 'v, 'prv, 'pub) senv \<Rightarrow> bool \<Rightarrow> ('t, 'l, 'n, 'd) Transition \<Rightarrow> ('t, 'l, 'n, 'd) Transition \<Rightarrow> bool" where
  "tr_rel D static t t' \<longleftrightarrow> evolves D static (trState t) (trState t') \<and> t' = t\<lparr>trState := trState t'\<rparr>"

lemma tr_rel_refl [simp]: "tr_rel D s t t"
  by (simp add: tr_rel_def)

lemma tr_rel_sel:
  assumes "tr_rel D s t t'"
  shows "evolves D s (trState t) (trState t')" "trConfig t' = trConfig t" "trCtx t' = trCtx t" "trGasPool t' = trGasPool t"
    "trReceipts t' = trReceipts t" "trTotalGas t' = trTotalGas t" "trFee t' = trFee t" "trLock t' = trLock t"
    "trBlock t' = trBlock t" "trGetHash t' = trGetHash t"
proof -
  define T where "T = trState t'"
  have "t' = t\<lparr>trState := T\<rparr>" and e: "evolves D s (trState t) (trState t')" using assms by (auto simp: tr_rel_def T_def)
  then show "evolves D s (trState t) (trState t')" "trConfig t' = trConfig t" "trCtx t' = trCtx t" "trGasPool t' = trGasPool t"
    "trReceipts t' = trReceipts t" "trTotalGas t' = trTotalGas t" "trFee t' = trFee t" "trLock t' = trLock t"
    "trBlock t' = trBlock t" "trGetHash t' = trGetHash t" by auto
qed

lemma tr_relI:
  assumes "evolves D s (trState t) T" "t' = t\<lparr>trState := T\<rparr>"
  shows "tr_rel D s t t'"
  using assms by (simp add: tr_rel_def)

lemma tr_rel_trans:
  assumes "tr_rel D s t t1" "tr_rel D s t1 t2"
  shows "tr_rel D s t t2"
proof (rule tr_relI)
  show "evolves D s (trState t) (trState t2)" using assms by (auto simp: tr_rel_def intro: evolves_trans)
  show "t2 = t\<lparr>trState := trState t2\<rparr>" using tr_rel_sel [OF assms(1)] tr_rel_sel [OF assms(2)] by (intro Transition.equality) simp_all
qed

lemma tr_rel_inv: "tr_rel D s t t' \<Longrightarrow> tr_inv D t \<Longrightarrow> tr_inv D t'"
  using tr_rel_sel [of D s t t'] by (auto simp: tr_inv_def evolves_def)

lemma tr_rel_state [simp]: "tr_rel D s t (t\<lparr>trState := T\<rparr>) \<longleftrightarrow> evolves D s (trState t) T"
  by (simp add: tr_rel_def)

lemma tr_rel_map_state [simp]: "tr_rel D s t (map_state f t) \<longleftrightarrow> evolves D s (trState t) (f (trState t))"
  by (simp add: map_state_def)

lemma evolves_mono: "evolves D s T T' \<Longrightarrow> (s' \<longrightarrow> s) \<Longrightarrow> evolves D s' T T'"
  by (auto simp: evolves_def)

lemma tr_rel_mono: "tr_rel D s t t' \<Longrightarrow> (s' \<longrightarrow> s) \<Longrightarrow> tr_rel D s' t t'"
  by (auto simp: tr_rel_def intro: evolves_mono)

section \<open>The host\<close>

lemma Selfdestruct_evolves:
  assumes "senv_laws D"
  shows "tr_rel D False t (tr_Selfdestruct D a b t)"
proof -
  define s where "s = (if \<not> HasSuicided D a (trState t) then AddRefund D 24000 (trState t) else trState t)"
  define x where "x = txn_GetBalance D a s"
  define s1 where "s1 = AddBalance D b x s"
  obtain k s2 where s2: "Suicide D a s1 = (k, s2)" by (cases "Suicide D a s1")
  have x: "0 \<le> x" by (simp add: x_def)
  note A = AddBalance_frame [OF assms x]
  note S = Suicide_frame [OF assms s2]
  have "evolves D False (trState t) s" by (simp add: s_def txn_ops_evolve [OF assms])
  moreover have "evolves D False s s2"
  proof -
    have "total D s2 = total D s + x - txn_GetBalance D a s1" using S(2) A(3) by (simp add: s1_def)
    moreover have "x \<le> txn_GetBalance D a s1" using A(4) x by (simp add: s1_def x_def)
    moreover have "txn_frame s s2" using txn_frame_trans [OF A(1) [of s b], of s2] S(1) by (simp add: s1_def evolves_def)
    moreover have "txn_ok D s \<longrightarrow> txn_ok D s2" using A(2) S(1) by (simp add: s1_def evolves_def)
    ultimately show ?thesis by (simp add: evolves_def)
  qed
  ultimately have "evolves D False (trState t) s2" by (rule evolves_trans)
  then show ?thesis
    by (simp add: tr_Selfdestruct_def Let_def s_def [symmetric] x_def [symmetric] s1_def [symmetric] s2)
qed

text \<open>What the machine may rely on when it calls out.\<close>

definition callx_ok ::
  "('t, 's, 'l, 'n, 'd, 'v, 'prv, 'pub) senv \<Rightarrow> bool
    \<Rightarrow> (Contract \<Rightarrow> ('t, 'l, 'n, 'd) Transition \<Rightarrow> (ExecutionResult \<times> ('t, 'l, 'n, 'd) Transition) option) \<Rightarrow> bool" where
  "callx_ok D static callx \<longleftrightarrow> (\<forall>k t r t'. tr_inv D t \<and> contract_ok k \<and> (static \<longrightarrow> static_contract k) \<and> callx k t = Some (r, t') \<longrightarrow>
     tr_rel D static t t' \<and> rGasLeft r \<le> cGas k \<and> length (rReturnValue r) < 2 ^ 62)"

lemma tr_host_sel [simp]:
  "eGrow (tr_env X f) = xGrow X" "eCurve (tr_env X f) = sCurve (xState X)" "eRlp (tr_env X f) = sRlp (xState X)"
  "GetBalance (eHost (tr_env X f)) a t = txn_GetBalance (xState X) a (trState t)" "GetTxContext (eHost (tr_env X f)) t = trCtx t"
  "GetCodeSize (eHost (tr_env X f)) a t = with_state (txn_GetCodeSize (xState X) a (trState t)) t"
  "GetCode (eHost (tr_env X f)) a t = with_state (txn_GetCode (xState X) a (trState t)) t"
  "SetStorage (eHost (tr_env X f)) a key v c t = with_state (txn_SetStorage (xState X) a key v c (trState t)) t"
  "EmitLog (eHost (tr_env X f)) a ts d t = map_state (txn_EmitLog (xState X) a ts d) t"
  "Selfdestruct (eHost (tr_env X f)) a b t = tr_Selfdestruct (xState X) a b t" "Callx (eHost (tr_env X f)) = f"
  by (simp_all add: tr_env_def tr_host_def Let_def)

lemma transition_evm_host:
  assumes "xlaws X" "callx_ok (xState X) static f"
  shows "evm_host (tr_env X f) static (tr_inv (xState X)) (tr_rel (xState X) static)"
proof -
  define D where "D = xState X"
  have D: "senv_laws D" using assms(1) by (simp add: xlaws_def D_def)
  note inv = tr_rel_inv [of D static] and invF = tr_rel_inv [of D False]
  show ?thesis unfolding D_def [symmetric]
  proof unfold_locales
    show "n \<le> eGrow (tr_env X f) cap n" for cap n using assms(1) by (simp add: xlaws_def)
    show "word_range (GetBalance (eHost (tr_env X f)) a h)" if "tr_inv D h" for h a
      using that balance_le_total [of D a "trState h"] by (simp add: word_range_def tr_inv_def D_def [symmetric])
    show "0 \<le> sint (ctxNumber (GetTxContext (eHost (tr_env X f)) h)) \<and> 0 \<le> sint (ctxTimestamp (GetTxContext (eHost (tr_env X f)) h)) \<and>
        0 \<le> sint (ctxGasLimit (GetTxContext (eHost (tr_env X f)) h))" if "tr_inv D h" for h
      using that by (simp add: tr_inv_def ctx_ok_def)
    show "length (keccak (eCurve (tr_env X f)) d) = 32" for d using D by (simp add: senv_laws_def D_def)
    have code: "tr_inv D (h\<lparr>trState := T\<rparr>) \<and> tr_rel D static h (h\<lparr>trState := T\<rparr>) \<and> length c < 2 ^ 62"
      if "tr_inv D h" "txn_GetCode D a (trState h) = (c, T)" for h a c T
    proof -
      have "tr_rel D static h (h\<lparr>trState := T\<rparr>)" using GetCode_evolves(1) [OF D that(2)] by simp
      moreover have "length c < 2 ^ 62" using GetCode_evolves(2) [OF D that(2)] that(1) by (simp add: tr_inv_def code_ok_def)
      ultimately show ?thesis using inv [OF _ that(1)] by blast
    qed
    show "n < 2 ^ 62 \<and> tr_inv D h' \<and> tr_rel D static h h'"
      if "tr_inv D h" "GetCodeSize (eHost (tr_env X f)) a h = (n, h')" for h a n h'
      using that code [OF that(1), of a] by (cases "txn_GetCode D a (trState h)") (auto simp: with_state_def txn_GetCodeSize_def D_def [symmetric])
    show "length c < 2 ^ 62 \<and> tr_inv D h' \<and> tr_rel D static h h'"
      if "tr_inv D h" "GetCode (eHost (tr_env X f)) a h = (c, h')" for h a c h'
      using that code [OF that(1), of a] by (cases "txn_GetCode D a (trState h)") (auto simp: with_state_def D_def [symmetric])
    show "tr_inv D h' \<and> tr_rel D static h h'"
      if ns: "\<not> static" and h: "tr_inv D h" and s: "SetStorage (eHost (tr_env X f)) a key v c h = (st, h')" for h a key v c st h'
    proof -
      obtain T where T: "txn_SetStorage D a key v c (trState h) = (st, T)" "h' = h\<lparr>trState := T\<rparr>"
        using s by (cases "txn_SetStorage D a key v c (trState h)") (auto simp: with_state_def D_def [symmetric])
      then have "tr_rel D False h h'" using SetStorage_evolves [OF D T(1)] by simp
      then show ?thesis using ns invF [OF _ h] tr_rel_mono [of D False h h' static] by blast
    qed
    show "tr_inv D (EmitLog (eHost (tr_env X f)) a ts d h) \<and> tr_rel D static h (EmitLog (eHost (tr_env X f)) a ts d h)"
      if ns: "\<not> static" and h: "tr_inv D h" for h a ts d
    proof -
      have "tr_rel D False h (EmitLog (eHost (tr_env X f)) a ts d h)" by (simp add: txn_ops_evolve [OF D] D_def [symmetric])
      then show ?thesis using ns invF [OF _ h] tr_rel_mono by blast
    qed
    show "tr_inv D (Selfdestruct (eHost (tr_env X f)) a b h) \<and> tr_rel D static h (Selfdestruct (eHost (tr_env X f)) a b h)"
      if ns: "\<not> static" and h: "tr_inv D h" for h a b
    proof -
      have "tr_rel D False h (Selfdestruct (eHost (tr_env X f)) a b h)" by (simp add: Selfdestruct_evolves [OF D] D_def [symmetric])
      then show ?thesis using ns invF [OF _ h] tr_rel_mono by blast
    qed
    show "tr_inv D h' \<and> tr_rel D static h h' \<and> rGasLeft r \<le> cGas k \<and> length (rReturnValue r) < 2 ^ 62"
      if "tr_inv D h" "contract_ok k" "static \<longrightarrow> static_contract k" "Callx (eHost (tr_env X f)) k h = Some (r, h')" for h k r h'
      using that assms(2) inv unfolding callx_ok_def D_def tr_host_sel by blast
  qed (auto intro: tr_rel_trans)
qed

section \<open>Running, calling, creating\<close>

text \<open>What the result of a call promises to its caller.\<close>

definition call_result ::
  "('t, 's, 'l, 'n, 'd, 'v, 'prv, 'pub) senv \<Rightarrow> bool \<Rightarrow> u64 \<Rightarrow> ('t, 'l, 'n, 'd) Transition \<Rightarrow> ExecutionResult \<times> ('t, 'l, 'n, 'd) Transition \<Rightarrow> bool" where
  "call_result D static gas t rt \<longleftrightarrow> tr_rel D static t (snd rt) \<and> rGasLeft (fst rt) \<le> gas \<and> length (rReturnValue (fst rt)) < 2 ^ 62"

lemma call_resultD:
  assumes "call_result D s g t (r, t')"
  shows "tr_rel D s t t'" "rGasLeft r \<le> g" "length (rReturnValue r) < 2 ^ 62"
  using assms by (simp_all add: call_result_def)

lemma call_result_failed: "tr_rel D s t t' \<Longrightarrow> call_result D s g t (failed_with g e, t')" "tr_rel D s t t' \<Longrightarrow> call_result D s g t (failed_with 0 e, t')"
  by (simp_all add: call_result_def failed_with_def)

lemma call_result_trans: "tr_rel D s t t1 \<Longrightarrow> call_result D s g t1 rt \<Longrightarrow> call_result D s g t rt"
  by (auto simp: call_result_def intro: tr_rel_trans)

lemma run_on_ok:
  assumes "xlaws X" "callx_ok (xState X) static f" "tr_inv (xState X) t" "contract_ok k" "static \<longrightarrow> cStatic k"
    and "run_on X f rs k t = Some rt"
  shows "call_result (xState X) static (cGas k) t rt"
  using assms(6)
proof (induction rs)
  case (Cons r rs)
  show ?case
  proof (cases r)
    case RPrecompiled
    have "length (cInput k) < 2 ^ 62" "pre_laws (xPre X)" using assms(1,4) by (simp_all add: contract_ok_def xlaws_def)
    note P = Precompiled_Run_bounds [OF this(2,1)]
    show ?thesis using Cons RPrecompiled P by (auto simp: call_result_def split: if_splits)
  next
    case REVM
    then obtain res t' where r: "EVM_Run (tr_env X f) (acquireState (xCap X k) k (trConfig t) t) k (trConfig t) t = Some (Some (res, t'))"
      "rt = (res, t')"
      using Cons.prems by (cases rt) (auto split: option.splits)
    have "EIP150 (trConfig t)" using assms(3) by (simp add: tr_inv_def)
    note E = evm_host.EVM_Run_ends [OF transition_evm_host [OF assms(1,2)] assms(4,3,5) this, of "acquireState (xCap X k) k (trConfig t) t"]
    then show ?thesis by (simp add: r call_result_def)
  qed
qed (auto intro: call_result_failed)

lemma tr_run_ok:
  assumes "xlaws X" "callx_ok (xState X) static f" "tr_inv (xState X) t" "contract_ok k" "static \<longrightarrow> cStatic k"
    and "tr_run X f k t = Some rt"
  shows "call_result (xState X) static (cGas k) t rt"
  using run_on_ok [OF assms(1-5)] assms(6) by (simp add: tr_run_def)

lemma transfer_rel:
  assumes "senv_laws D" "transfer D from to v t = (e, t')" "case v of None \<Rightarrow> True | Some x \<Rightarrow> 0 \<le> x"
  shows "tr_rel D (v \<in> {None, Some 0}) t t'" "total D (trState t') = total D (trState t)"
proof -
  have "tr_rel D (v \<in> {None, Some 0}) t t' \<and> total D (trState t') = total D (trState t)"
  proof (cases v)
    case (Some x)
    then have x: "0 \<le> x" using assms(3) by simp
    obtain e1 T where S: "SubBalance D from x (trState t) = (e1, T)" by (cases "SubBalance D from x (trState t)")
    note F = SubBalance_frame [OF assms(1) S x]
    show ?thesis
    proof (cases e1)
      case None
      then have t': "t' = t\<lparr>trState := AddBalance D to x T\<rparr>" using assms(2) Some S by (simp add: transfer_def)
      note A = AddBalance_frame [OF assms(1) x, where T = T and a = to]
      have "total D (AddBalance D to x T) = total D (trState t)" using A(3) F(2) None by simp
      moreover have "evolves D (x = 0) (trState t) (AddBalance D to x T)"
        using F(1) A calculation txn_frame_trans [OF _ A(1)]
        by (auto simp: evolves_def same_accounts_def)
      ultimately show ?thesis using Some by (simp add: t')
    next
      case (Some e2)
      then have "t' = t\<lparr>trState := T\<rparr>" using assms(2) \<open>v = Some x\<close> S by (simp add: transfer_def)
      then show ?thesis using F Some \<open>v = Some x\<close> by simp
    qed
  qed (use assms(2) in \<open>simp add: transfer_def\<close>)
  then show "tr_rel D (v \<in> {None, Some 0}) t t'" "total D (trState t') = total D (trState t)" by auto
qed

text \<open>A transfer that fails changes nothing.\<close>

lemma transfer_error:
  assumes "senv_laws D" "transfer D from to v t = (Some err, t')"
  shows "t' = t"
proof -
  obtain x where v: "v = Some x" using assms(2) by (cases v) (simp_all add: transfer_def)
  obtain e T where S: "SubBalance D from x (trState t) = (e, T)" by (cases "SubBalance D from x (trState t)")
  have "e \<noteq> None" "t' = t\<lparr>trState := T\<rparr>" using assms(2) S by (auto simp: transfer_def v split: option.splits)
  moreover have "e \<noteq> None \<Longrightarrow> T = trState t" using assms(1) S by (cases rule: SubBalance_cases) simp_all
  ultimately show ?thesis by simp
qed

lemma contract_value: "contract_ok k \<Longrightarrow> case cValue k of None \<Rightarrow> True | Some x \<Rightarrow> 0 \<le> x"
  by (simp add: contract_ok_def word_range_def split: option.splits)

lemma reverted_ok:
  assumes "txn_Snapshot (trState t) = (i, s)" "tr_rel D s1 (t\<lparr>trState := s\<rparr>) t1" "reverted i r t1 = Some rt"
    and "rGasLeft r \<le> g" "length (rReturnValue r) < 2 ^ 62"
  shows "call_result D static g t rt"
proof -
  obtain T where T: "RevertToSnapshot i (trState t1) = Some T" "rt = (r, t1\<lparr>trState := T\<rparr>)"
    using assms(3) by (auto simp: reverted_def bind_eq_Some_conv)
  note R = tr_rel_sel [OF assms(2)]
  have "evolves D static (trState t) T" using revert_evolves [OF assms(1) _ T(1)] R(1) by simp
  moreover have "t1\<lparr>trState := T\<rparr> = t\<lparr>trState := T\<rparr>" using R by (intro Transition.equality) simp_all
  ultimately show ?thesis using assms(4,5) by (simp add: call_result_def T(2))
qed

text \<open>A call up to the start of its code: the snapshot \<open>i\<close>, the error \<open>e\<close> of the transfer and the state \<open>t2\<close>.\<close>

lemma applyCall_start:
  fixes t :: "('t, 'l, 'n, 'd) Transition"
  assumes "senv_laws (xState X)" "contract_ok k" "\<not> cDepth k > 1024 + 1"
  obtains i s e t2 where "txn_Snapshot (trState t) = (i, s)"
    "tr_rel (xState X) (ct = Call \<longrightarrow> cValue k \<in> {None, Some 0} \<or> e \<noteq> None) (t\<lparr>trState := s\<rparr>) t2"
    "tr_rel (xState X) (ct = Call \<longrightarrow> cValue k \<in> {None, Some 0} \<or> e \<noteq> None) t t2"
    "\<And>f. applyCall X f k ct t = (case e of Some err \<Rightarrow> Some (failed_with (cGas k) err, t2)
      | None \<Rightarrow> do { (result, t) \<leftarrow> tr_run X f k t2; if Failed result then reverted i result t else Some (result, t) })"
proof -
  define D where "D = xState X"
  have D: "senv_laws D" using assms(1) by (simp add: D_def)
  obtain i s where s: "txn_Snapshot (trState t) = (i, s)" by (cases "txn_Snapshot (trState t)")
  define t1 where "t1 = t\<lparr>trState := TouchAccount D (cAddress k) s\<rparr>"
  obtain e t2 where t2: "(if ct = Call then transfer D (cCaller k) (cAddress k) (cValue k) t1 else (None, t1)) = (e, t2)"
    by (cases "if ct = Call then transfer D (cCaller k) (cAddress k) (cValue k) t1 else (None, t1)")
  define st where "st \<longleftrightarrow> (ct = Call \<longrightarrow> cValue k \<in> {None, Some 0} \<or> e \<noteq> None)"
  have app: "applyCall X f k ct t = (case e of Some err \<Rightarrow> Some (failed_with (cGas k) err, t2)
      | None \<Rightarrow> do { (result, t) \<leftarrow> tr_run X f k t2; if Failed result then reverted i result t else Some (result, t) })" for f
    using assms(3) t2 by (cases "ct = Call"; cases e) (simp_all add: applyCall_def s D_def [symmetric] t1_def)
  have r01: "tr_rel D st (t\<lparr>trState := s\<rparr>) t1" by (rule tr_relI [OF txn_ops_evolve(4) [OF D]]) (simp add: t1_def)
  have r12: "tr_rel D st t1 t2"
  proof (cases "ct = Call")
    case True
    then have tr: "transfer D (cCaller k) (cAddress k) (cValue k) t1 = (e, t2)" using t2 by simp
    show ?thesis
    proof (cases e)
      case None
      then show ?thesis using tr_rel_mono [OF transfer_rel(1) [OF D tr contract_value [OF assms(2)]]] True by (simp add: st_def)
    next
      case (Some err)
      then show ?thesis using transfer_error [OF D] tr by (metis tr_rel_refl)
    qed
  qed (use t2 in simp)
  have r02: "tr_rel D st (t\<lparr>trState := s\<rparr>) t2" by (rule tr_rel_trans [OF r01 r12])
  have "tr_rel D st t (t\<lparr>trState := s\<rparr>)" using Snapshot_evolves [OF s] by (simp, blast)
  then have "tr_rel D st t t2" by (rule tr_rel_trans [OF _ r02])
  then show thesis using that s r02 app unfolding st_def D_def by blast
qed

lemma applyCall_ok:
  assumes "xlaws X" "callx_ok (xState X) static f" "tr_inv (xState X) t" "contract_ok k"
    and "static \<longrightarrow> cStatic k \<and> (ct = Call \<longrightarrow> cValue k \<in> {None, Some 0})"
    and "applyCall X f k ct t = Some rt"
  shows "call_result (xState X) static (cGas k) t rt"
proof (cases "cDepth k > 1024 + 1")
  case True
  then show ?thesis using assms(6) by (auto simp: applyCall_def call_result_failed)
next
  case False
  define D where "D = xState X"
  have D: "senv_laws D" using assms(1) by (simp add: xlaws_def D_def)
  from applyCall_start [OF D [unfolded D_def] assms(4) False, where ct = ct and t = t]
  obtain i s e t2 where s: "txn_Snapshot (trState t) = (i, s)"
    and r: "tr_rel D (ct = Call \<longrightarrow> cValue k \<in> {None, Some 0} \<or> e \<noteq> None) (t\<lparr>trState := s\<rparr>) t2"
      "tr_rel D (ct = Call \<longrightarrow> cValue k \<in> {None, Some 0} \<or> e \<noteq> None) t t2"
    and app: "\<And>f. applyCall X f k ct t = (case e of Some err \<Rightarrow> Some (failed_with (cGas k) err, t2)
      | None \<Rightarrow> do { (result, t) \<leftarrow> tr_run X f k t2; if Failed result then reverted i result t else Some (result, t) })"
    unfolding D_def by blast
  have r02: "tr_rel D static (t\<lparr>trState := s\<rparr>) t2" and r2: "tr_rel D static t t2"
    using r [THEN tr_rel_mono, of static] assms(5) by blast+
  show ?thesis
  proof (cases e)
    case (Some err)
    then show ?thesis using assms(6) r2 by (auto simp: app D_def intro: call_result_failed)
  next
    case None
    then obtain res t3 where t3: "tr_run X f k t2 = Some (res, t3)"
      "(if Failed res then reverted i res t3 else Some (res, t3)) = Some rt"
      using assms(6) by (auto simp: app bind_eq_Some_conv)
    have "tr_inv D t2" using tr_rel_inv [OF r2] assms(3) by (simp add: D_def)
    then have R: "call_result D static (cGas k) t2 (res, t3)"
      using tr_run_ok [OF assms(1,2) _ assms(4) _ t3(1)] assms(5) by (simp add: D_def)
    show ?thesis
    proof (cases "Failed res")
      case True
      then show ?thesis using reverted_ok [OF s tr_rel_trans [OF r02 call_resultD(1) [OF R]]] t3(2) call_resultD [OF R]
        by (simp add: D_def)
    next
      case False
      then show ?thesis using call_result_trans [OF r2 R] t3(2) by (simp add: D_def)
    qed
  qed
qed

lemma store_code_ok:
  assumes "senv_laws D" "txn_Snapshot (trState t0) = (i, s)" "tr_rel D False (t0\<lparr>trState := s\<rparr>) t1" "store_code D i k res t1 = Some rt"
    and "rGasLeft res \<le> g" "length (rReturnValue res) < 2 ^ 62"
  shows "call_result D False g t0 rt"
proof -
  have snap: "tr_rel D False t0 t1" using Snapshot_evolves [OF assms(2)] by (intro tr_rel_trans [OF _ assms(3)]) (simp, blast)
  note rev = reverted_ok [OF assms(2,3), where g = g and static = False]
  define cost :: u64 where "cost = of_nat (length (rReturnValue res)) * 200"
  have st: "store_code D i k res t1 =
     (if EIP158 (trConfig t1) \<and> length (rReturnValue res) > spuriousDragonMaxCodeSize
      then reverted i (failed_with 0 ErrMaxCodeSizeExceeded) t1
      else if rGasLeft res < cost
      then if Homestead (trConfig t1) then reverted i (res\<lparr>rErr := Some ErrCodeStoreOutOfGas, rReturnValue := [], rGasLeft := 0\<rparr>) t1
           else Some (res\<lparr>rErr := Some ErrCodeStoreOutOfGas, rReturnValue := []\<rparr>, t1)
      else Some (res\<lparr>rGasLeft := rGasLeft res - cost\<rparr>, map_state (SetCode D (cAddress k) (rReturnValue res)) t1))"
    by (simp only: store_code_def Let_def cost_def)
  show ?thesis
  proof (cases "EIP158 (trConfig t1) \<and> length (rReturnValue res) > spuriousDragonMaxCodeSize")
    case True
    then have "reverted i (failed_with 0 ErrMaxCodeSizeExceeded) t1 = Some rt" using assms(4) by (simp add: st)
    then show ?thesis by (rule rev) (simp_all add: failed_with_def)
  next
    case small: False
    show ?thesis
    proof (cases "rGasLeft res < cost")
      case True
      show ?thesis
      proof (cases "Homestead (trConfig t1)")
        case hs: True
        have "reverted i (res\<lparr>rErr := Some ErrCodeStoreOutOfGas, rReturnValue := [], rGasLeft := 0\<rparr>) t1 = Some rt"
          using assms(4) small True hs by (simp only: st if_True if_False)
        then show ?thesis by (rule rev) simp_all
      next
        case False
        then have "Some (res\<lparr>rErr := Some ErrCodeStoreOutOfGas, rReturnValue := []\<rparr>, t1) = Some rt"
          using assms(4) small True by (simp only: st if_True if_False)
        then show ?thesis using snap assms(5) by (auto simp: call_result_def)
      qed
    next
      case False
      then have rt: "Some (res\<lparr>rGasLeft := rGasLeft res - cost\<rparr>, map_state (SetCode D (cAddress k) (rReturnValue res)) t1) = Some rt"
        using assms(4) small by (simp only: st if_False)
      have "rGasLeft res - cost \<le> rGasLeft res" by (rule word_sub_le) (use False in simp)
      then have "rGasLeft res - cost \<le> g" using assms(5) by (rule order_trans)
      moreover have "tr_rel D False t1 (map_state (SetCode D (cAddress k) (rReturnValue res)) t1)"
        using txn_ops_evolve(8) [OF assms(1)] assms(6) by (simp add: code_ok_def)
      ultimately show ?thesis using tr_rel_trans [OF snap] rt assms(6) by (auto simp: call_result_def)
    qed
  qed
qed

lemma applyCreate_start:
  fixes t :: "('t, 'l, 'n, 'd) Transition"
  assumes "senv_laws (xState X)" "contract_ok k" "\<not> cDepth k > 1024 + 1" "\<not> hasCodeOrNonce (xState X) (cAddress k) (map_state (IncrNonce (xState X) (cCaller k)) t)"
  obtains i s e t1 t3 where "tr_rel (xState X) False t t1" "txn_Snapshot (trState t1) = (i, s)" "tr_rel (xState X) False (t1\<lparr>trState := s\<rparr>) t3"
    "tr_rel (xState X) False t t3"
    "\<And>f. applyCreate X f k t = (case e of Some err \<Rightarrow> Some (failed_with (cGas k) err, t3)
        | None \<Rightarrow> do { (result, t) \<leftarrow> tr_run X f k t3; if Failed result then reverted i result t else store_code (xState X) i k result t })"
proof -
  define D where "D = xState X"
  have D: "senv_laws D" using assms(1) by (simp add: D_def)
  define t1 where "t1 = map_state (IncrNonce D (cCaller k)) t"
  have r1: "tr_rel D False t t1" by (simp add: t1_def txn_ops_evolve [OF D])
  have new: "\<not> hasCodeOrNonce D (cAddress k) t1" using assms(4) by (simp add: D_def t1_def)
  obtain i s where s: "txn_Snapshot (trState t1) = (i, s)" by (cases "txn_Snapshot (trState t1)")
  define s2 where "s2 = (if EIP158 (trConfig t1) then IncrNonce D (cAddress k) (CreateAccount D (cAddress k) s) else s)"
  obtain e t3 where t3: "transfer D (cCaller k) (cAddress k) (cValue k) (t1\<lparr>trState := s2\<rparr>) = (e, t3)"
    by (cases "transfer D (cCaller k) (cAddress k) (cValue k) (t1\<lparr>trState := s2\<rparr>)")
  have app: "applyCreate X f k t = (case e of Some err \<Rightarrow> Some (failed_with (cGas k) err, t3)
      | None \<Rightarrow> do { (result, t) \<leftarrow> tr_run X f k t3; if Failed result then reverted i result t else store_code D i k result t })" for f
    unfolding applyCreate_def D_def [symmetric] Let_def t1_def [symmetric] s prod.case s2_def [symmetric] t3
    using assms(3) new by (simp split: option.split)
  have "evolves D False s s2"
    using evolves_trans [OF txn_ops_evolve(7) [OF D] txn_ops_evolve(5) [OF D]] by (simp add: s2_def)
  then have "tr_rel D False (t1\<lparr>trState := s\<rparr>) (t1\<lparr>trState := s2\<rparr>)" by (intro tr_relI [where T = s2]) simp_all
  moreover have "tr_rel D False (t1\<lparr>trState := s2\<rparr>) t3"
    using transfer_rel(1) [OF D t3 contract_value [OF assms(2)]] by (rule tr_rel_mono) simp
  ultimately have r3: "tr_rel D False (t1\<lparr>trState := s\<rparr>) t3" by (rule tr_rel_trans)
  have "tr_rel D False t1 (t1\<lparr>trState := s\<rparr>)" using Snapshot_evolves [OF s] by (simp, blast)
  from tr_rel_trans [OF r1 tr_rel_trans [OF this r3]] show thesis using that r1 s r3 app unfolding D_def by blast
qed

lemma applyCreate_ok:
  assumes "xlaws X" "callx_ok (xState X) False f" "tr_inv (xState X) t" "contract_ok k" "applyCreate X f k t = Some rt"
  shows "call_result (xState X) False (cGas k) t rt"
proof (cases "cDepth k > 1024 + 1 \<or> hasCodeOrNonce (xState X) (cAddress k) (map_state (IncrNonce (xState X) (cCaller k)) t)")
  case True
  have "senv_laws (xState X)" using assms(1) by (simp add: xlaws_def)
  then have r: "tr_rel (xState X) False t (map_state (IncrNonce (xState X) (cCaller k)) t)" by (simp add: txn_ops_evolve)
  have "applyCreate X f k t = Some (failed_with (cGas k) ErrDepth, t) \<or>
    applyCreate X f k t = Some (failed_with 0 ErrContractAddressCollision, map_state (IncrNonce (xState X) (cCaller k)) t)"
    using True unfolding applyCreate_def Let_def by (simp only: if_True if_False split: if_split) blast
  then show ?thesis using assms(5) call_result_failed [OF r] call_result_failed [OF tr_rel_refl] by auto
next
  case False
  let ?D = "xState X"
  have D: "senv_laws ?D" using assms(1) by (simp add: xlaws_def)
  from False have d: "\<not> cDepth k > 1024 + 1" "\<not> hasCodeOrNonce (xState X) (cAddress k) (map_state (IncrNonce (xState X) (cCaller k)) t)" by auto
  obtain i s e t1 t3 where r1: "tr_rel ?D False t t1" and s: "txn_Snapshot (trState t1) = (i, s)"
    and r3: "tr_rel ?D False (t1\<lparr>trState := s\<rparr>) t3" and r03: "tr_rel ?D False t t3"
    and app: "\<And>f. applyCreate X f k t = (case e of Some err \<Rightarrow> Some (failed_with (cGas k) err, t3)
        | None \<Rightarrow> do { (result, t) \<leftarrow> tr_run X f k t3; if Failed result then reverted i result t else store_code ?D i k result t })"
    by (rule applyCreate_start [OF D assms(4) d]) (rule that)
  show ?thesis
  proof (cases e)
    case (Some err)
    then show ?thesis using assms(5) r03 by (auto simp: app intro: call_result_failed)
  next
    case None
    then obtain res t4 where t4: "tr_run X f k t3 = Some (res, t4)"
      "(if Failed res then reverted i res t4 else store_code ?D i k res t4) = Some rt"
      using assms(5) by (auto simp: app bind_eq_Some_conv)
    have "tr_inv ?D t3" using tr_rel_inv [OF r03] assms(3) by simp
    then have R: "call_result ?D False (cGas k) t3 (res, t4)"
      using tr_run_ok [OF assms(1,2) _ assms(4) _ t4(1)] by simp
    note r4 = tr_rel_trans [OF r3 call_resultD(1) [OF R]]
    have "call_result ?D False (cGas k) t1 rt"
      using reverted_ok [OF s r4] store_code_ok [OF D s r4] t4(2) call_resultD [OF R] by (cases "Failed res") auto
    then show ?thesis using call_result_trans [OF r1] by simp
  qed
qed

text \<open>The contract of a call holds for every bound on the nesting.\<close>

lemma Callx_ok:
  assumes "xlaws X"
  shows "callx_ok (xState X) static (tr_Callx n X)"
proof (induction n arbitrary: static)
  case 0
  show ?case using call_result_failed(1) [of "xState X" static]
    by (auto simp: callx_ok_def call_result_def failed_with_def)
next
  case (Suc n)
  have "call_result (xState X) static (cGas k) t rt"
    if "tr_inv (xState X) t" "contract_ok k" "static \<longrightarrow> static_contract k" "tr_Callx (Suc n) X k t = Some rt" for k t rt
  proof (cases "cType k = Create")
    case True
    then have "\<not> static" using that(3) by (auto simp: static_contract_def)
    then show ?thesis using applyCreate_ok [OF assms Suc that(1,2)] True that(4) by simp
  next
    case False
    then show ?thesis using applyCall_ok [OF assms Suc that(1,2)] that(3,4) by (simp add: static_contract_def)
  qed
  then show ?case unfolding callx_ok_def using call_resultD [of "xState X" static] by blast
qed

lemmas transition_host = transition_evm_host [OF _ Callx_ok]

section \<open>The bound on the nesting\<close>

lemma run_on_cong:
  assumes "xlaws X" "callx_ok (xState X) False g" "tr_inv (xState X) t" "contract_ok k"
    and "\<And>k' t'. contract_ok k' \<Longrightarrow> tr_inv (xState X) t' \<Longrightarrow> cDepth k' = cDepth k + 1 \<Longrightarrow> f k' t' = g k' t'"
  shows "run_on X f rs k t = run_on X g rs k t"
proof (induction rs)
  case (Cons r rs)
  have "EIP150 (trConfig t)" using assms(3) by (simp add: tr_inv_def)
  moreover have "tr_env X f = callx_env (tr_env X g) f" by (simp add: tr_env_def callx_env_def tr_host_def Let_def)
  ultimately have "EVM_Run (tr_env X f) p k (trConfig t) t = EVM_Run (tr_env X g) p k (trConfig t) t" for p
    using evm_host.EVM_Run_callx_env [OF transition_evm_host [OF assms(1,2)] assms(4,3)] assms(5) by simp
  then show ?case using Cons.IH by (cases r) simp_all
qed simp

lemma call_cong:
  assumes "xlaws X" "callx_ok (xState X) False g" "tr_inv (xState X) t" "contract_ok k"
    and "\<And>k' t'. contract_ok k' \<Longrightarrow> tr_inv (xState X) t' \<Longrightarrow> cDepth k' = cDepth k + 1 \<Longrightarrow> f k' t' = g k' t'"
  shows "applyCall X f k ct t = applyCall X g k ct t" "applyCreate X f k t = applyCreate X g k t"
proof -
  let ?D = "xState X"
  have D: "senv_laws ?D" using assms(1) by (simp add: xlaws_def)
  have run: "tr_run X f k t' = tr_run X g k t'" if "tr_rel ?D s t t'" for s t'
    unfolding tr_run_def using tr_rel_inv [OF that assms(3)] assms by (intro run_on_cong) auto
  show "applyCall X f k ct t = applyCall X g k ct t"
  proof (cases "cDepth k > 1024 + 1")
    case False
    obtain i s e t2 where s: "txn_Snapshot (trState t) = (i, s)"
      and r: "tr_rel ?D (ct = Call \<longrightarrow> cValue k \<in> {None, Some 0} \<or> e \<noteq> None) (t\<lparr>trState := s\<rparr>) t2"
        "tr_rel ?D (ct = Call \<longrightarrow> cValue k \<in> {None, Some 0} \<or> e \<noteq> None) t t2"
      and app: "\<And>f. applyCall X f k ct t = (case e of Some err \<Rightarrow> Some (failed_with (cGas k) err, t2)
        | None \<Rightarrow> do { (result, t) \<leftarrow> tr_run X f k t2; if Failed result then reverted i result t else Some (result, t) })"
      by (rule applyCall_start [OF D assms(4) False]) (rule that)
    show ?thesis by (simp only: app run [OF r(2)])
  qed (simp add: applyCall_def)
  show "applyCreate X f k t = applyCreate X g k t"
  proof (cases "cDepth k > 1024 + 1 \<or> hasCodeOrNonce ?D (cAddress k) (map_state (IncrNonce ?D (cCaller k)) t)")
    case True
    then show ?thesis unfolding applyCreate_def Let_def by (simp only: if_True if_False split: if_split) blast
  next
    case False
    then have d: "\<not> cDepth k > 1024 + 1" "\<not> hasCodeOrNonce ?D (cAddress k) (map_state (IncrNonce ?D (cCaller k)) t)" by auto
    obtain i s e t1 t3 where r1: "tr_rel ?D False t t1" and s: "txn_Snapshot (trState t1) = (i, s)"
      and r3: "tr_rel ?D False (t1\<lparr>trState := s\<rparr>) t3" and r03: "tr_rel ?D False t t3"
      and app: "\<And>f. applyCreate X f k t = (case e of Some err \<Rightarrow> Some (failed_with (cGas k) err, t3)
          | None \<Rightarrow> do { (result, t) \<leftarrow> tr_run X f k t3; if Failed result then reverted i result t else store_code ?D i k result t })"
      by (rule applyCreate_start [OF D assms(4) d]) (rule that)
    show ?thesis by (simp only: app run [OF r03])
  qed
qed

text \<open>More levels than the depth leaves make no difference.\<close>

lemma Callx_bound:
  assumes "xlaws X" "tr_inv (xState X) t" "contract_ok k" "1026 - cDepth k \<le> int n" "1026 - cDepth k \<le> int m"
  shows "tr_Callx n X k t = tr_Callx m X k t"
  using assms(2-5)
proof (induction n arbitrary: m k t)
  case deep: 0
  then have "cDepth k > 1024 + 1" by simp
  then show ?case by (cases m) (simp_all add: applyCall_def applyCreate_def)
next
  case (Suc n)
  show ?case
  proof (cases m)
    case 0
    then have "cDepth k > 1024 + 1" using Suc.prems by simp
    then show ?thesis using 0 by (simp add: applyCall_def applyCreate_def)
  next
    case m: (Suc m')
    have agree: "tr_Callx n X k' t' = tr_Callx m' X k' t'"
      if "contract_ok k'" "tr_inv (xState X) t'" "cDepth k' = cDepth k + 1" for k' t'
      using Suc.prems(3,4) that m by (intro Suc.IH) simp_all
    have "applyCall X (tr_Callx n X) k ct t = applyCall X (tr_Callx m' X) k ct t" for ct
      by (rule call_cong(1) [OF assms(1) Callx_ok [OF assms(1)] Suc.prems(1,2) agree])
    moreover have "applyCreate X (tr_Callx n X) k t = applyCreate X (tr_Callx m' X) k t"
      by (rule call_cong(2) [OF assms(1) Callx_ok [OF assms(1)] Suc.prems(1,2) agree])
    ultimately show ?thesis by (simp add: m)
  qed
qed

section \<open>Failed calls\<close>

lemma applyCall_failed:
  assumes "xlaws X" "callx_ok (xState X) False f" "tr_inv (xState X) t" "contract_ok k" "applyCall X f k ct t = Some (r, t')" "Failed r"
  shows "tr_rel (xState X) True t t'"
proof (cases "cDepth k > 1024 + 1")
  case True
  then show ?thesis using assms(5) by (auto simp: applyCall_def)
next
  case False
  let ?D = "xState X"
  have D: "senv_laws ?D" using assms(1) by (simp add: xlaws_def)
  obtain i s e t2 where s: "txn_Snapshot (trState t) = (i, s)"
    and r: "tr_rel ?D (ct = Call \<longrightarrow> cValue k \<in> {None, Some 0} \<or> e \<noteq> None) (t\<lparr>trState := s\<rparr>) t2"
      "tr_rel ?D (ct = Call \<longrightarrow> cValue k \<in> {None, Some 0} \<or> e \<noteq> None) t t2"
    and app: "\<And>f. applyCall X f k ct t = (case e of Some err \<Rightarrow> Some (failed_with (cGas k) err, t2)
      | None \<Rightarrow> do { (result, t) \<leftarrow> tr_run X f k t2; if Failed result then reverted i result t else Some (result, t) })"
    by (rule applyCall_start [OF D assms(4) False]) (rule that)
  show ?thesis
  proof (cases e)
    case (Some err)
    then show ?thesis using assms(5) r(2) by (auto simp: app elim: tr_rel_mono)
  next
    case None
    then obtain res t3 where t3: "tr_run X f k t2 = Some (res, t3)"
      "(if Failed res then reverted i res t3 else Some (res, t3)) = Some (r, t')"
      using assms(5) by (auto simp: app bind_eq_Some_conv)
    have fr: "reverted i res t3 = Some (r, t')" using t3(2) assms(6) by (auto split: if_splits)
    have rF: "tr_rel ?D False (t\<lparr>trState := s\<rparr>) t2" "tr_rel ?D False t t2" using r by (auto elim: tr_rel_mono)
    have R: "call_result ?D False (cGas k) t2 (res, t3)"
      using tr_run_ok [OF assms(1,2) tr_rel_inv [OF rF(2) assms(3)] assms(4) _ t3(1)] by simp
    from reverted_ok [OF s tr_rel_trans [OF rF(1) call_resultD(1) [OF R]] fr call_resultD(2,3) [OF R], where static = True]
    show ?thesis by (simp add: call_result_def)
  qed
qed

section \<open>Transactions\<close>

text \<open>A message whose numbers a decoded transaction can have.\<close>

definition tx_ok :: "transaction \<Rightarrow> bool" where
  "tx_ok msg \<longleftrightarrow> 0 \<le> txGasPrice msg \<and> word_range (txValue msg) \<and> length (txInput msg) < 2 ^ 62"

text \<open>
  The gas that a message buys covers its intrinsic cost. The code checks this only for messages that do not
  contain the selector of the fixed reward.
\<close>

definition intrinsic_paid :: "ForksInTime \<Rightarrow> transaction \<Rightarrow> bool" where
  "intrinsic_paid f msg \<longleftrightarrow> \<not> IsFixedRewardTx msg \<or> \<not> IsContractCreation msg \<or>
     (\<forall>c. TransactionGasCost msg (Homestead f) (Istanbul f) = Inr c \<longrightarrow> c \<le> txGas msg)"

lemma gas_guard: "\<not> (g - c > (g :: u64)) \<longleftrightarrow> c \<le> g"
  using word_sub_le_iff [of g c] by (simp add: linorder_not_less)

text \<open>What the execution of a message leaves alone.\<close>

definition tr_keeps :: "('t, 's, 'l, 'n, 'd, 'v, 'prv, 'pub) senv \<Rightarrow> ('t, 'l, 'n, 'd) Transition \<Rightarrow> ('t, 'l, 'n, 'd) Transition \<Rightarrow> bool" where
  "tr_keeps D t t' \<longleftrightarrow> txn_frame (trState t) (trState t') \<and> (txn_ok D (trState t) \<longrightarrow> txn_ok D (trState t')) \<and>
     trConfig t' = trConfig t \<and> trCtx t' = trCtx t \<and> trReceipts t' = trReceipts t \<and> trTotalGas t' = trTotalGas t"

lemma tr_keeps_refl [simp]: "tr_keeps D t t"
  by (simp add: tr_keeps_def)

lemma tr_keeps_trans: "tr_keeps D t t1 \<Longrightarrow> tr_keeps D t1 t2 \<Longrightarrow> tr_keeps D t t2"
  by (auto simp: tr_keeps_def intro: txn_frame_trans)

lemma tr_rel_keeps: "tr_rel D s t t' \<Longrightarrow> tr_keeps D t t'"
  using tr_rel_sel [of D s t t'] by (auto simp: tr_keeps_def evolves_def)

lemma apply_checks_ok:
  assumes "senv_laws D" "tx_ok msg" "apply_checks D msg t = (r, t')"
  shows "tr_keeps D t t'" "total D (trState t') \<le> total D (trState t)"
    "r = Inr g \<Longrightarrow> total D (trState t') = total D (trState t) - txGasPrice msg * uint (txGas msg) \<and>
       txGas msg \<le> trGasPool t \<and> trGasPool t' = trGasPool t - txGas msg \<and> txn_GetNonce D (txFrom msg) (trState t) = txNonce msg \<and>
       (\<exists>c. TransactionGasCost msg (Homestead (trConfig t)) (Istanbul (trConfig t)) = Inr c \<and> g = txGas msg - c \<and>
          (\<not> IsFixedRewardTx msg \<longrightarrow> c \<le> txGas msg))"
proof -
  let ?cost = "txGasPrice msg * uint (txGas msg)"
  obtain e T where S: "SubBalance D (txFrom msg) ?cost (trState t) = (e, T)" by (cases "SubBalance D (txFrom msg) ?cost (trState t)")
  have cost: "0 \<le> ?cost" using assms(2) by (simp add: tx_ok_def)
  note F = SubBalance_frame [OF assms(1) S cost]
  define t1 where "t1 = t\<lparr>trState := T\<rparr>"
  define t2 where "t2 = t1\<lparr>trGasPool := trGasPool t - txGas msg\<rparr>"
  have k1: "tr_keeps D t t1" using F(1) by (simp add: tr_keeps_def t1_def evolves_def)
  have k2: "tr_keeps D t t2" using F(1) by (simp add: tr_keeps_def t1_def t2_def evolves_def)
  have tot: "total D (trState t1) = total D (trState t) - (if e = None then ?cost else 0)" "trState t2 = trState t1"
    using F(2) by (simp_all add: t1_def t2_def)
  have price: "subGasLimitPrice D msg t = (case e of Some err \<Rightarrow> (Some (if err = ErrNotEnoughFunds then ErrNotEnoughFundsForGas else ErrOther err), t1)
      | None \<Rightarrow> (None, t1))"
    by (simp add: subGasLimitPrice_def S t1_def split: option.split)
  have pool: "subGasPool (txGas msg) t1 = (if trGasPool t < txGas msg then (Some ErrBlockLimitReached, t1) else (None, t2))"
    by (simp add: subGasPool_def t2_def t1_def)
  have cfg: "trConfig t2 = trConfig t" by (simp add: t1_def t2_def)
  consider "t' = t" "\<exists>x. r = Inl x" | "t' = t1" "\<exists>x. r = Inl x" | "t' = t2" "\<exists>x. r = Inl x" "e = None"
    | c where "t' = t2" "e = None" "\<not> trGasPool t < txGas msg" "nonceCheck D msg t = None"
      "TransactionGasCost msg (Homestead (trConfig t)) (Istanbul (trConfig t)) = Inr c" "r = Inr (txGas msg - c)"
      "\<not> (\<not> IsFixedRewardTx msg \<and> txGas msg - c > txGas msg)"
    using assms(3) unfolding apply_checks_def price pool
    by (cases "nonceCheck D msg t"; cases e; cases "TransactionGasCost msg (Homestead (trConfig t)) (Istanbul (trConfig t))")
      (auto simp: pool cfg Let_def split: if_split_asm)
  note C = this
  show "tr_keeps D t t'" using C k1 k2 by cases simp_all
  show "total D (trState t') \<le> total D (trState t)" using C tot cost by cases auto
  assume r: "r = Inr g"
  from C r obtain c where c: "t' = t2" "e = None" "\<not> trGasPool t < txGas msg" "nonceCheck D msg t = None"
      "TransactionGasCost msg (Homestead (trConfig t)) (Istanbul (trConfig t)) = Inr c" "g = txGas msg - c"
      "\<not> (\<not> IsFixedRewardTx msg \<and> txGas msg - c > txGas msg)"
    by cases auto
  have "trGasPool t2 = trGasPool t - txGas msg" by (simp add: t2_def)
  moreover have "\<not> IsFixedRewardTx msg \<longrightarrow> c \<le> txGas msg" using c(7) gas_guard by blast
  ultimately show "total D (trState t') = total D (trState t) - ?cost \<and> txGas msg \<le> trGasPool t \<and> trGasPool t' = trGasPool t - txGas msg \<and>
       txn_GetNonce D (txFrom msg) (trState t) = txNonce msg \<and>
       (\<exists>c. TransactionGasCost msg (Homestead (trConfig t)) (Istanbul (trConfig t)) = Inr c \<and> g = txGas msg - c \<and>
          (\<not> IsFixedRewardTx msg \<longrightarrow> c \<le> txGas msg))"
    using c tot by (auto simp: nonceCheck_def linorder_not_less split: if_splits)
qed

text \<open>The execution of a message: it creates no money, keeps the gas pool and returns no more gas than it got.\<close>

definition body_result :: "('t, 's, 'l, 'n, 'd, 'v, 'prv, 'pub) senv \<Rightarrow> ('t, 'l, 'n, 'd) Transition \<Rightarrow> ('t, 'l, 'n, 'd) Transition \<Rightarrow> bool" where
  "body_result D t t' \<longleftrightarrow> tr_keeps D t t' \<and> total D (trState t') \<le> total D (trState t) \<and> trGasPool t' = trGasPool t"

lemma tr_rel_body: "tr_rel D s t t' \<Longrightarrow> body_result D t t'"
  using tr_rel_keeps [of D s t t'] tr_rel_sel [of D s t t'] by (simp add: body_result_def evolves_def)

lemma body_trans: "body_result D t t1 \<Longrightarrow> body_result D t1 t2 \<Longrightarrow> body_result D t t2"
  by (auto simp: body_result_def intro: tr_keeps_trans)

lemma body_nonce: "senv_laws D \<Longrightarrow> body_result D t (map_state (IncrNonce D a) t)"
  by (rule tr_rel_body [where s = False]) (simp add: txn_ops_evolve)

lemma Withdraw_body:
  assumes "senv_laws D" "0 \<le> v" "WithdrawTxFee D caller to v t = Some (r, t')"
  shows "body_result D t t'" "r = Inr res \<Longrightarrow> rGasLeft res = 0"
proof -
  obtain e t1 where T: "transfer D FeePool caller (Some v) t = (e, t1)" by (cases "transfer D FeePool caller (Some v) t")
  have b: "body_result D t t1" using tr_rel_body [OF transfer_rel(1) [OF assms(1) T]] assms(2) by simp
  then have "body_result D t (t1\<lparr>trFee := x\<rparr>)" for x by (simp add: body_result_def tr_keeps_def)
  moreover have "t' = t \<or> t' = t1 \<or> (\<exists>x. t' = t1\<lparr>trFee := x\<rparr>)"
    using assms(3) by (auto simp: WithdrawTxFee_def T bind_eq_Some_conv split: if_splits option.splits)
  ultimately show "body_result D t t'" using b by (auto simp: body_result_def)
  show "r = Inr res \<Longrightarrow> rGasLeft res = 0"
    using assms(3) by (auto simp: WithdrawTxFee_def T bind_eq_Some_conv empty_result_def split: if_splits option.splits)
qed

lemma FixedReward_body:
  assumes "senv_laws D" "0 \<le> v" "SendFixedReward D caller to v t = (r, t')"
  shows "body_result D t t'" "r = Inr res \<Longrightarrow> rGasLeft res = 0"
proof -
  obtain e t1 where T: "transfer D to caller (Some v) t = (e, t1)" by (cases "transfer D to caller (Some v) t")
  have b: "body_result D t t1" using tr_rel_body [OF transfer_rel(1) [OF assms(1) T]] assms(2) by simp
  then have "body_result D t (t1\<lparr>trLock := x\<rparr>)" for x by (simp add: body_result_def tr_keeps_def)
  moreover have "t' = t \<or> t' = t1 \<or> (\<exists>x. t' = t1\<lparr>trLock := x\<rparr>)"
    using assms(3) by (auto simp: SendFixedReward_def T split: if_splits option.splits)
  ultimately show "body_result D t t'" using b by (auto simp: body_result_def)
  show "r = Inr res \<Longrightarrow> rGasLeft res = 0"
    using assms(3) by (auto simp: SendFixedReward_def T empty_result_def split: if_splits option.splits)
qed

lemma Create2_body:
  assumes "xlaws X" "tr_inv (xState X) t" "word_range v" "length code < 2 ^ 62" "tr_Create2 X caller code v g t = Some (r, t')"
  shows "body_result (xState X) t t' \<and> rGasLeft r \<le> g"
proof -
  define k where "k = NewContractCreation 1 caller caller (CreateAddress (sRlp (xState X)) (sCurve (xState X)) caller
      (txn_GetNonce (xState X) caller (trState t))) (Some v) g code"
  have k: "contract_ok k" "cGas k = g" using assms(3,4) by (simp_all add: k_def NewContractCreation_def NewContract_def contract_ok_def)
  have "applyCreate X (tr_Callx Callx_levels X) k t = Some (r, t')" using assms(5) by (simp add: tr_Create2_def Let_def k_def)
  from applyCreate_ok [OF assms(1) Callx_ok [OF assms(1)] assms(2) k(1) this]
  show ?thesis using tr_rel_body by (auto simp: call_result_def k(2))
qed

lemma Call2_body:
  assumes "xlaws X" "tr_inv (xState X) t" "word_range v" "length input < 2 ^ 62" "tr_Call2 X caller to input v g t = Some (r, t')"
  shows "body_result (xState X) t t' \<and> rGasLeft r \<le> g"
proof -
  let ?D = "xState X"
  have D: "senv_laws ?D" using assms(1) by (simp add: xlaws_def)
  obtain code s where s: "txn_GetCode ?D to (trState t) = (code, s)" by (cases "txn_GetCode ?D to (trState t)")
  note G = GetCode_evolves [OF D s]
  have r1: "tr_rel ?D False t (t\<lparr>trState := s\<rparr>)" using G(1) by simp
  define k where "k = NewContractCall 1 caller caller to (Some v) g code input"
  have "code_ok code" using G(2) assms(2) by (simp add: tr_inv_def)
  then have k: "contract_ok k" "cGas k = g"
    using assms(3,4) by (simp_all add: k_def NewContractCall_def NewContract_def contract_ok_def code_ok_def)
  have "applyCall X (tr_Callx Callx_levels X) k Call (t\<lparr>trState := s\<rparr>) = Some (r, t')"
    using assms(5) by (simp add: tr_Call2_def s Let_def k_def)
  from applyCall_ok [OF assms(1) Callx_ok [OF assms(1), of False] tr_rel_inv [OF r1 assms(2)] k(1) _ this]
  have "call_result ?D False g (t\<lparr>trState := s\<rparr>) (r, t')" by (simp add: k(2))
  then show ?thesis using body_trans [OF tr_rel_body [OF r1] tr_rel_body] by (auto simp: call_result_def)
qed

lemma apply_body_ok:
  assumes "xlaws X" "tr_inv (xState X) t" "tx_ok msg" "apply_body X msg g t = Some (r, t')"
  shows "body_result (xState X) t t'"
    "r = Inr res \<Longrightarrow> rGasLeft res \<le> g \<and> (IsFixedRewardTx msg \<and> \<not> IsContractCreation msg \<longrightarrow> rGasLeft res = 0)"
proof -
  let ?D = "xState X"
  have D: "senv_laws ?D" using assms(1) by (simp add: xlaws_def)
  have v: "0 \<le> txValue msg" "word_range (txValue msg)" "length (txInput msg) < 2 ^ 62" using assms(3) by (auto simp: tx_ok_def word_range_def)
  have n: "body_result ?D t' (case r of Inl _ \<Rightarrow> t' | Inr _ \<Rightarrow> map_state (IncrNonce ?D a) t')" for a t' and r :: "vm_error + ExecutionResult"
    using body_nonce [OF D] tr_rel_body [OF tr_rel_refl] by (cases r) auto
  have all: "body_result ?D t t' \<and> (\<forall>res. r = Inr res \<longrightarrow> rGasLeft res \<le> g \<and> (IsFixedRewardTx msg \<and> \<not> IsContractCreation msg \<longrightarrow> rGasLeft res = 0))"
  proof (cases "txTo msg")
    case None
    then obtain res where "tr_Create2 X (txFrom msg) (txInput msg) (txValue msg) g t = Some (res, t')" "r = Inr res"
      using assms(4) by (auto simp: apply_body_def)
    then show ?thesis using Create2_body [OF assms(1,2) v(2,3)] None by (simp add: IsContractCreation_def)
  next
    case (Some to)
    show ?thesis
    proof (cases "IsWithdrawFee msg")
      case True
      obtain t1 where W: "WithdrawTxFee ?D (txFrom msg) to (txValue msg) t = Some (r, t1)"
        "t' = (case r of Inl _ \<Rightarrow> t1 | Inr _ \<Rightarrow> map_state (IncrNonce ?D (txFrom msg)) t1)"
        using assms(4) Some True by (auto simp: apply_body_def bind_eq_Some_conv)
      show ?thesis using Withdraw_body [OF D v(1) W(1)] body_trans [OF _ n] by (auto simp: W(2))
    next
      case nw: False
      show ?thesis
      proof (cases "IsFixedRewardTx msg")
        case True
        obtain t1 where W: "SendFixedReward ?D (txFrom msg) to (txValue msg) t = (r, t1)"
          "t' = (case r of Inl _ \<Rightarrow> t1 | Inr _ \<Rightarrow> map_state (IncrNonce ?D (txFrom msg)) t1)"
          using assms(4) Some nw True by (auto simp: apply_body_def split: prod.splits)
        show ?thesis using FixedReward_body [OF D v(1) W(1)] body_trans [OF _ n] by (auto simp: W(2))
      next
        case False
        define t1 where "t1 = map_state (IncrNonce ?D (txFrom msg)) t"
        have "tr_rel ?D False t t1" by (simp add: t1_def txn_ops_evolve [OF D])
        then have i: "tr_inv ?D t1" "body_result ?D t t1" using tr_rel_inv assms(2) tr_rel_body by blast+
        obtain res where "tr_Call2 X (txFrom msg) to (txInput msg) (txValue msg) g t1 = Some (res, t')" "r = Inr res"
          using assms(4) Some nw False by (auto simp: apply_body_def t1_def)
        then show ?thesis using Call2_body [OF assms(1) i(1) v(2,3)] body_trans [OF i(2)] False by auto
      qed
    qed
  qed
  then show "body_result ?D t t'" by blast
  show "r = Inr res \<Longrightarrow> rGasLeft res \<le> g \<and> (IsFixedRewardTx msg \<and> \<not> IsContractCreation msg \<longrightarrow> rGasLeft res = 0)"
    using all by blast
qed

lemma apply_settle_ok:
  assumes "senv_laws D" "0 \<le> txGasPrice msg" "rGasLeft res \<le> txGas msg" "apply_settle D msg res t = (r, t')"
  shows "tr_keeps D t t'" "total D (trState t') = total D (trState t) + txGasPrice msg * uint (txGas msg)"
    "trGasPool t' = trGasPool t + rGasLeft r" "unat (rGasLeft r) + unat (rGasUsed r) = unat (txGas msg)"
proof -
  let ?p = "txGasPrice msg"
  define r1 where "r1 = UpdateGasUsed (txGas msg) (GetRefund D (trState t)) res"
  define T where "T = AddBalance D (txFrom msg) (uint (rGasLeft r1) * ?p) (trState t)"
  define T' where "T' = AddBalance D FeePool (uint (rGasUsed r1) * ?p) T"
  have r: "r = r1" "t' = addGasPool (rGasLeft r1) (t\<lparr>trState := T'\<rparr>)"
    using assms(4) by (auto simp: apply_settle_def Let_def r1_def map_state_def T'_def T_def)
  have p: "0 \<le> uint (rGasLeft r1) * ?p" "0 \<le> uint (rGasUsed r1) * ?p" using assms(2) by simp_all
  note A = AddBalance_frame [OF assms(1) p(1), where T = "trState t" and a = "txFrom msg", folded T_def]
  note B = AddBalance_frame [OF assms(1) p(2), where T = T and a = FeePool, folded T'_def]
  have u: "unat (rGasLeft r1) + unat (rGasUsed r1) = unat (txGas msg)"
    using UpdateGasUsed_split(4) [OF assms(3)] by (simp add: r1_def)
  then show "unat (rGasLeft r) + unat (rGasUsed r) = unat (txGas msg)" by (simp add: r)
  have "uint (rGasLeft r1) + uint (rGasUsed r1) = uint (txGas msg)" unfolding uint_nat using u by linarith
  then have "uint (rGasLeft r1) * ?p + uint (rGasUsed r1) * ?p = ?p * uint (txGas msg)" by (metis distrib_right mult.commute)
  then show "total D (trState t') = total D (trState t) + ?p * uint (txGas msg)" using A(3) B(3) by (simp add: r addGasPool_def)
  show "trGasPool t' = trGasPool t + rGasLeft r" by (simp add: r addGasPool_def)
  show "tr_keeps D t t'" using A B txn_frame_trans [OF A(1) B(1)] by (simp add: tr_keeps_def r addGasPool_def)
qed

lemma tr_inv_keeps:
  assumes "tr_inv D t" "tr_keeps D t t'" "total D (trState t') \<le> total D (trState t)"
  shows "tr_inv D t'"
  using assms by (auto simp: tr_inv_def tr_keeps_def)

text \<open>The steps of \<open>apply\<close>.\<close>

lemma tr_apply_cases:
  assumes "tr_apply X msg t = Some (r, t')"
  obtains (Check) err where "apply_checks (xState X) msg t = (Inl err, t')" "r = Inl err"
  | (Body) g t1 t2 b where "apply_checks (xState X) msg t = (Inr g, t1)"
      "t2 = t1\<lparr>trCtx := (trCtx t1)\<lparr>ctxGasPrice := BytesToHash (big_Bytes (txGasPrice msg)), ctxOrigin := txFrom msg\<rparr>\<rparr>"
      "apply_body X msg g t2 = Some (Inl b, t')" "r = Inl (PlainError b)"
  | (Done) g t1 t2 t3 b res where "apply_checks (xState X) msg t = (Inr g, t1)"
      "t2 = t1\<lparr>trCtx := (trCtx t1)\<lparr>ctxGasPrice := BytesToHash (big_Bytes (txGasPrice msg)), ctxOrigin := txFrom msg\<rparr>\<rparr>"
      "apply_body X msg g t2 = Some (Inr b, t3)" "apply_settle (xState X) msg b t3 = (res, t')" "r = Inr res"
proof -
  obtain c t1 where c: "apply_checks (xState X) msg t = (c, t1)" by (cases "apply_checks (xState X) msg t")
  show thesis
  proof (cases c)
    case (Inl err)
    then show thesis using Check assms c by (simp add: tr_apply_def)
  next
    case (Inr g)
    define t2 where "t2 = t1\<lparr>trCtx := (trCtx t1)\<lparr>ctxGasPrice := BytesToHash (big_Bytes (txGasPrice msg)), ctxOrigin := txFrom msg\<rparr>\<rparr>"
    obtain b t3 where b: "apply_body X msg g t2 = Some (b, t3)"
      "(case b of Inl err \<Rightarrow> (Inl (PlainError err), t3) | Inr result \<Rightarrow> apfst Inr (apply_settle (xState X) msg result t3)) = (r, t')"
      using assms c Inr by (auto simp: tr_apply_def t2_def bind_eq_Some_conv)
    show thesis
    proof (cases b)
      case (Inl err)
      then show thesis using Body [OF c [unfolded Inr] t2_def] b by simp
    next
      case (Inr result)
      obtain res t4 where "apply_settle (xState X) msg result t3 = (res, t4)" by (cases "apply_settle (xState X) msg result t3")
      then show thesis using Done [OF c [unfolded \<open>c = Inr g\<close>] t2_def] b Inr by simp
    qed
  qed
qed

lemma ctx_step:
  assumes "tr_inv D t" "t2 = t\<lparr>trCtx := (trCtx t)\<lparr>ctxGasPrice := p, ctxOrigin := a\<rparr>\<rparr>"
  shows "tr_inv D t2" "trState t2 = trState t" "trGasPool t2 = trGasPool t" "trConfig t2 = trConfig t"
    "trReceipts t2 = trReceipts t" "trTotalGas t2 = trTotalGas t" "ctx_ok (trCtx t2)"
  using assms by (auto simp: tr_inv_def ctx_ok_def)

text \<open>What a transaction may change besides the accounts.\<close>

definition tr_same :: "('t, 's, 'l, 'n, 'd, 'v, 'prv, 'pub) senv \<Rightarrow> ('t, 'l, 'n, 'd) Transition \<Rightarrow> ('t, 'l, 'n, 'd) Transition \<Rightarrow> bool" where
  "tr_same D t t' \<longleftrightarrow> tr_inv D t' \<and> txn_frame (trState t) (trState t') \<and> total D (trState t') \<le> total D (trState t) \<and>
     trConfig t' = trConfig t \<and> trReceipts t' = trReceipts t \<and> trTotalGas t' = trTotalGas t"

lemma tr_apply_ok:
  assumes "xlaws X" "tr_inv (xState X) t" "tx_ok msg" "intrinsic_paid (trConfig t) msg" "tr_apply X msg t = Some (r, t')"
  shows "tr_same (xState X) t t'"
    "r = Inr res \<Longrightarrow> txn_GetNonce (xState X) (txFrom msg) (trState t) = txNonce msg \<and>
      unat (trGasPool t') + unat (rGasUsed res) = unat (trGasPool t) \<and> rGasUsed res \<le> txGas msg"
proof -
  let ?D = "xState X"
  have D: "senv_laws ?D" using assms(1) by (simp add: xlaws_def)
  have p: "0 \<le> txGasPrice msg" using assms(3) by (simp add: tx_ok_def)
  have all: "tr_same ?D t t' \<and> (\<forall>res. r = Inr res \<longrightarrow> txn_GetNonce ?D (txFrom msg) (trState t) = txNonce msg \<and>
      unat (trGasPool t') + unat (rGasUsed res) = unat (trGasPool t) \<and> rGasUsed res \<le> txGas msg)"
    using assms(5)
  proof (cases rule: tr_apply_cases)
    case (Check err)
    note C = apply_checks_ok(1,2) [OF D assms(3) Check(1)]
    then show ?thesis using tr_inv_keeps [OF assms(2) C] Check(2) by (simp add: tr_same_def tr_keeps_def)
  next
    case (Body g t1 t2 b)
    note C = apply_checks_ok(1,2) [OF D assms(3) Body(1)]
    note S = ctx_step [OF tr_inv_keeps [OF assms(2) C] Body(2)]
    note B = apply_body_ok(1) [OF assms(1) S(1) assms(3) Body(3)]
    have "tr_inv ?D t'" using tr_inv_keeps [OF S(1)] B by (simp add: body_result_def)
    then show ?thesis using C B S Body(4) by (auto simp: tr_same_def tr_keeps_def body_result_def intro: txn_frame_trans)
  next
    case (Done g t1 t2 t3 b res)
    note C = apply_checks_ok [OF D assms(3) Done(1)]
    note S = ctx_step [OF tr_inv_keeps [OF assms(2) C(1,2)] Done(2)]
    note B = apply_body_ok [OF assms(1) S(1) assms(3) Done(3)]
    obtain c where c: "TransactionGasCost msg (Homestead (trConfig t)) (Istanbul (trConfig t)) = Inr c" "g = txGas msg - c"
      "\<not> IsFixedRewardTx msg \<longrightarrow> c \<le> txGas msg" using C(3) by auto
    have left: "rGasLeft b \<le> txGas msg"
    proof (cases "IsFixedRewardTx msg \<and> \<not> IsContractCreation msg")
      case False
      then have "c \<le> txGas msg" using c assms(4) by (auto simp: intrinsic_paid_def)
      then show ?thesis using B(2) [OF refl] c(2) word_sub_le [of c "txGas msg"] by auto
    qed (use B(2) in simp)
    note T = apply_settle_ok [OF D p left Done(4)]
    have k: "tr_keeps ?D t2 t'" using B(1) T(1) by (auto simp: body_result_def intro: tr_keeps_trans)
    have tot: "total ?D (trState t') \<le> total ?D (trState t)" using T(2) C(3) B(1) S(2) by (simp add: body_result_def)
    have gas: "trGasPool t' = trGasPool t - txGas msg + rGasLeft res" using T(3) B(1) S(3) C(3) by (simp add: body_result_def)
    have le: "unat (txGas msg) \<le> unat (trGasPool t)" using C(3) by (simp add: word_le_nat_alt)
    have d: "unat (trGasPool t - txGas msg) = unat (trGasPool t) - unat (txGas msg)" using le by (simp add: u64_sub_unat word_le_nat_alt)
    have "unat (trGasPool t - txGas msg) + unat (rGasLeft res) \<le> unat (trGasPool t)" unfolding d using T(4) le by arith
    then have "unat (trGasPool t - txGas msg) + unat (rGasLeft res) < 2 ^ 64"
      by (rule order_le_less_trans) simp
    from u64_add_unat [OF this] have "unat (trGasPool t') = unat (trGasPool t) - unat (txGas msg) + unat (rGasLeft res)"
      by (simp only: gas d)
    then have "unat (trGasPool t') + unat (rGasUsed res) = unat (trGasPool t)" "rGasUsed res \<le> txGas msg"
      using T(4) le by (auto simp: word_le_nat_alt)
    moreover have "tr_same ?D t t'"
    proof -
      have "txn_frame (trState t) (trState t')" using C(1) k S(2) by (auto simp: tr_keeps_def intro: txn_frame_trans)
      moreover have "txn_ok ?D (trState t')" using k S(1) by (simp add: tr_keeps_def tr_inv_def)
      ultimately show ?thesis using k tot S C(1) assms(2) by (simp add: tr_same_def tr_keeps_def tr_inv_def)
    qed
    ultimately show ?thesis using C(3) Done(5) by simp
  qed
  then show "tr_same ?D t t'" by blast
  show "r = Inr res \<Longrightarrow> txn_GetNonce ?D (txFrom msg) (trState t) = txNonce msg \<and>
      unat (trGasPool t') + unat (rGasUsed res) = unat (trGasPool t) \<and> rGasUsed res \<le> txGas msg" using all by blast
qed

text \<open>\<open>Apply\<close>. No hook is installed by the program; an error restores the accounts.\<close>

lemma tr_Apply_ok:
  assumes "xlaws X" "xPostHook X = None" "tr_inv (xState X) t" "tx_ok msg" "intrinsic_paid (trConfig t) msg" "tr_Apply X msg t = Some (r, t')"
  shows "tr_same (xState X) t t'" "r = Inl err \<Longrightarrow> same_accounts (xState X) (trState t) (trState t')"
    "r = Inr res \<Longrightarrow> txn_GetNonce (xState X) (txFrom msg) (trState t) = txNonce msg \<and>
      unat (trGasPool t') + unat (rGasUsed res) = unat (trGasPool t) \<and> rGasUsed res \<le> txGas msg"
proof -
  let ?D = "xState X"
  obtain i s where s: "txn_Snapshot (trState t) = (i, s)" by (cases "txn_Snapshot (trState t)")
  have e: "evolves ?D True (trState t) s" using Snapshot_evolves [OF s] by blast
  define t1 where "t1 = t\<lparr>trState := s\<rparr>"
  have r1: "tr_rel ?D True t t1" using e by (simp add: t1_def)
  have i1: "tr_inv ?D t1" by (rule tr_rel_inv [OF r1 assms(3)])
  have cfg: "trConfig t1 = trConfig t" "trGasPool t1 = trGasPool t" "txn_GetNonce ?D a (trState t1) = txn_GetNonce ?D a (trState t)" for a
    using e by (simp_all add: t1_def txn_reads evolves_def same_accounts_def)
  obtain t2 where t2: "tr_apply X msg t1 = Some (r, t2)"
    "(case r of Inl _ \<Rightarrow> map_option (\<lambda>st. t2\<lparr>trState := st\<rparr>) (RevertToSnapshot i (trState t2)) | Inr _ \<Rightarrow> Some t2) = Some t'"
    using assms(6) unfolding tr_Apply_def s Let_def prod.case t1_def [symmetric] by (auto simp: bind_eq_Some_conv assms(2))
  note A = tr_apply_ok [OF assms(1) i1 assms(4) _ t2(1)]
  have same: "tr_same ?D t1 t2" using A(1) assms(5) cfg by simp
  show "tr_same ?D t t'" "r = Inl err \<Longrightarrow> same_accounts ?D (trState t) (trState t')"
  proof -
    have "tr_same ?D t t' \<and> (\<forall>err. r = Inl err \<longrightarrow> same_accounts ?D (trState t) (trState t'))"
    proof (cases r)
      case (Inl err)
      then obtain T where T: "RevertToSnapshot i (trState t2) = Some T" "t' = t2\<lparr>trState := T\<rparr>" using t2(2) by auto
      have "evolves ?D False s (trState t2)" using same i1 by (simp add: evolves_def tr_same_def tr_inv_def t1_def)
      from revert_evolves [OF s this T(1), where s = True] have v: "evolves ?D True (trState t) T" .
      then show ?thesis using same assms(3) by (auto simp: tr_same_def T(2) tr_inv_def evolves_def t1_def)
    next
      case (Inr res)
      then have "t' = t2" using t2(2) by simp
      then show ?thesis using same e Inr by (auto simp: tr_same_def t1_def evolves_def intro: txn_frame_trans)
    qed
    then show "tr_same ?D t t'" "r = Inl err \<Longrightarrow> same_accounts ?D (trState t) (trState t')" by auto
  qed
  assume r: "r = Inr res"
  then have "t' = t2" using t2(2) by simp
  then show "txn_GetNonce ?D (txFrom msg) (trState t) = txNonce msg \<and>
      unat (trGasPool t') + unat (rGasUsed res) = unat (trGasPool t) \<and> rGasUsed res \<le> txGas msg"
    using A(2) [OF _ r] assms(5) cfg by simp
qed

section \<open>Blocks\<close>

text \<open>
  The invariant of the loop over the transactions of a block that started with the gas \<open>limit\<close>: used gas
  and gas left add up to it, and the receipts count the gas up to them.
\<close>

definition block_inv :: "('t, 's, 'l, 'n, 'd, 'v, 'prv, 'pub) senv \<Rightarrow> u64 \<Rightarrow> ('t, 'l, 'n, 'd) Transition \<Rightarrow> bool" where
  "block_inv D limit t \<longleftrightarrow> tr_inv D t \<and> Byzantium (trConfig t) \<and> unat (trTotalGas t) + unat (trGasPool t) = unat limit \<and>
     sorted (map CumulativeGasUsed (trReceipts t)) \<and> (\<forall>r\<in>set (trReceipts t). CumulativeGasUsed r \<le> trTotalGas t)"

definition msg_ok :: "ForksInTime \<Rightarrow> transaction \<Rightarrow> bool" where
  "msg_ok f tx \<longleftrightarrow> tx_ok tx \<and> intrinsic_paid f tx"

lemma msg_ok_from [simp]: "msg_ok f (tx\<lparr>txFrom := a\<rparr>) = msg_ok f tx" "msg_ok f (tx_Copy tx) = msg_ok f tx"
  by (simp_all add: msg_ok_def tx_ok_def intrinsic_paid_def IsFixedRewardTx_def IsContractCreation_def TransactionGasCost_def tx_Copy_def)

lemma recover_from_ok: "recover_from X tx = Some (Inr tx') \<Longrightarrow> msg_ok f tx' = msg_ok f tx"
  by (auto simp: recover_from_def split: if_splits go.splits)

lemma block_inv_receipt:
  assumes "block_inv D limit t" "tr_inv D t'" "trConfig t' = trConfig t" "trReceipts t' = trReceipts t @ [r]" "CumulativeGasUsed r = trTotalGas t'"
    and "unat (trTotalGas t') + unat (trGasPool t') = unat limit" "trTotalGas t \<le> trTotalGas t'"
  shows "block_inv D limit t'"
  using assms by (fastforce simp: block_inv_def sorted_append)

lemma WriteFailed_block:
  assumes "senv_laws (xState X)" "block_inv (xState X) limit t" "WriteFailedReceipt X tx t = Some (None, tx', t')"
  shows "block_inv (xState X) limit t' \<and> length (trReceipts t') = Suc (length (trReceipts t)) \<and>
    total (xState X) (trState t') \<le> total (xState X) (trState t) \<and> trConfig t' = trConfig t"
proof -
  let ?D = "xState X"
  obtain logs s where s: "Logs ?D (trState t) = (logs, s)" by (cases "Logs ?D (trState t)")
  obtain x where x: "recover_from X tx = Some x" using assms(3) by (auto simp: WriteFailedReceipt_def bind_eq_Some_conv)
  obtain r where t': "t' = t\<lparr>trState := s, trReceipts := trReceipts t @ [r]\<rparr>" "CumulativeGasUsed r = trTotalGas t"
    using assms(3) by (cases x) (auto simp: WriteFailedReceipt_def x s Let_def SetStatus_def new_receipt_def)
  note L = Logs_ok [OF assms(1) s]
  have "tr_inv ?D t'" using assms(2) L(1) by (auto simp: block_inv_def tr_inv_def evolves_def t')
  then have "block_inv ?D limit t'"
    by (rule block_inv_receipt [OF assms(2)]) (use assms(2) t' in \<open>auto simp: block_inv_def\<close>)
  then show ?thesis using L(1) by (simp add: t' evolves_def)
qed

lemma tr_Write_block:
  assumes "xlaws X" "xPostHook X = None" "block_inv (xState X) limit t" "msg_ok (trConfig t) tx" "tr_Write X tx t = Some (None, tx', t')"
  shows "block_inv (xState X) limit t' \<and> length (trReceipts t') = Suc (length (trReceipts t)) \<and>
    total (xState X) (trState t') \<le> total (xState X) (trState t) \<and> trConfig t' = trConfig t"
proof -
  let ?D = "xState X"
  have D: "senv_laws ?D" using assms(1) by (simp add: xlaws_def)
  have inv: "tr_inv ?D t" "Byzantium (trConfig t)" using assms(3) by (auto simp: block_inv_def)
  from assms(5) obtain tx1 res t1 where 1: "recover_from X tx = Some (Inr tx1)" "tr_Apply X (tx_Copy tx1) t = Some (Inr res, t1)"
  proof -
    obtain x where x: "recover_from X tx = Some x" using assms(5) by (auto simp: tr_Write_def bind_eq_Some_conv)
    then obtain tx1 where tx1: "recover_from X tx = Some (Inr tx1)" using assms(5) by (cases x) (auto simp: tr_Write_def)
    then obtain r t1 where r: "tr_Apply X (tx_Copy tx1) t = Some (r, t1)" using assms(5) by (auto simp: tr_Write_def Let_def bind_eq_Some_conv)
    then obtain res where "r = Inr res" using assms(5) tx1 by (cases r) (auto simp: tr_Write_def Let_def)
    then show thesis using that tx1 r by blast
  qed
  have m: "tx_ok (tx_Copy tx1)" "intrinsic_paid (trConfig t) (tx_Copy tx1)"
    using recover_from_ok [OF 1(1), of "trConfig t"] assms(4) msg_ok_from(2) [of "trConfig t" tx1] by (auto simp: msg_ok_def)
  note A = tr_Apply_ok [OF assms(1,2) inv(1) m 1(2)]
  define t2 where "t2 = t1\<lparr>trTotalGas := trTotalGas t1 + rGasUsed res\<rparr>"
  obtain logs s where s: "Logs ?D (trState t2) = (logs, s)" by (cases "Logs ?D (trState t2)")
  note L = Logs_ok [OF D s]
  obtain S where S: "CleanDeleteObjects ?D True s = Some S" by (rule CleanDeleteObjects_reads [OF D, of True s])
  note C = CleanDeleteObjects_ok [OF D S]
  have cfg: "trConfig t2 = trConfig t" using A(1) by (simp add: tr_same_def t2_def)
  obtain r where t': "t' = t2\<lparr>trState := S, trReceipts := trReceipts t2 @ [r]\<rparr>" "CumulativeGasUsed r = trTotalGas t2"
  proof -
    have "Logs ?D (trState t1) = (logs, s)" "Byzantium (trConfig t1)" using s cfg inv(2) by (simp_all add: t2_def)
    then show thesis using assms(5) that
      by (auto simp: tr_Write_def 1 Let_def S finish_tx_def SetStatus_def new_receipt_def t2_def)
  qed
  have e: "evolves ?D False (trState t1) S" using evolves_trans [OF L(1) C] by (simp add: t2_def)
  then have "tr_inv ?D t'" using A(1) by (auto simp: tr_same_def tr_inv_def evolves_def t' t2_def)
  moreover have gas: "unat (trTotalGas t') = unat (trTotalGas t) + unat (rGasUsed res)" "unat (trTotalGas t') + unat (trGasPool t') = unat limit"
  proof -
    have "unat (trTotalGas t) + unat (rGasUsed res) + unat (trGasPool t1) = unat limit" "trTotalGas t1 = trTotalGas t"
      using A(1) A(3) [OF refl] assms(3) by (auto simp: block_inv_def tr_same_def)
    moreover from this have "unat (trTotalGas t) + unat (rGasUsed res) \<le> unat limit" by linarith
    then have "unat (trTotalGas t) + unat (rGasUsed res) < 2 ^ 64" by (rule order_le_less_trans) simp
    ultimately show "unat (trTotalGas t') = unat (trTotalGas t) + unat (rGasUsed res)" "unat (trTotalGas t') + unat (trGasPool t') = unat limit"
      using u64_add_unat [of "trTotalGas t" "rGasUsed res"] by (simp_all add: t' t2_def)
  qed
  moreover have "trReceipts t' = trReceipts t @ [r]" "trConfig t' = trConfig t" "CumulativeGasUsed r = trTotalGas t'"
    using A(1) t'(2) by (simp_all add: t' t2_def tr_same_def)
  ultimately show ?thesis using block_inv_receipt [OF assms(3)] e A(1)
    by (auto simp: evolves_def tr_same_def t' t2_def word_le_nat_alt)
qed

lemma process_txs_block:
  assumes "xlaws X" "xPostHook X = None" "block_inv (xState X) limit t" "\<forall>tx\<in>set txs. msg_ok (trConfig t) tx"
    and "process_txs X gasLimit txs t = Some (None, t')"
  shows "block_inv (xState X) limit t' \<and> length (trReceipts t') = length (trReceipts t) + length txs \<and>
    total (xState X) (trState t') \<le> total (xState X) (trState t) \<and> trConfig t' = trConfig t"
  using assms(3-5)
proof (induction txs arbitrary: t)
  case (Cons tx txs)
  have D: "senv_laws (xState X)" using assms(1) by (simp add: xlaws_def)
  from Cons.prems(3) obtain tx' t1 where 1: "(if ExceedsBlockGasLimit tx gasLimit then WriteFailedReceipt X tx t else tr_Write X tx t) = Some (None, tx', t1)"
    "process_txs X gasLimit txs t1 = Some (None, t')"
    by (auto simp: bind_eq_Some_conv split: option.splits)
  have S: "block_inv (xState X) limit t1 \<and> length (trReceipts t1) = Suc (length (trReceipts t)) \<and>
    total (xState X) (trState t1) \<le> total (xState X) (trState t) \<and> trConfig t1 = trConfig t"
    using WriteFailed_block [OF D Cons.prems(1)] tr_Write_block [OF assms(1,2) Cons.prems(1)] Cons.prems(2) 1(1)
    by (cases "ExceedsBlockGasLimit tx gasLimit") auto
  from Cons.IH [OF _ _ 1(2)] S Cons.prems(2) show ?case by auto
qed simp

end
