(* ===== verification/ExecutorPay.thy ===== *)
theory ExecutorPay
  imports ExecutorInv
begin

text \<open>
  A payment: a message without data to an account that does not exist yet. It always succeeds when the sender
  can pay for it, costs exactly the intrinsic gas, and moves exactly the value.
\<close>

section \<open>Moving balances\<close>

definition moves :: "('t, 's, 'l, 'n, 'd, 'v, 'prv, 'pub) senv \<Rightarrow> (address \<Rightarrow> int) \<Rightarrow> ('t, 'l, 'n, 'd) Txn \<Rightarrow> ('t, 'l, 'n, 'd) Txn \<Rightarrow> bool" where
  "moves D d T T' \<longleftrightarrow> (\<forall>a. txn_GetBalance D a T' = txn_GetBalance D a T + d a) \<and> GetRefund D T' = GetRefund D T"

lemma moves_trans: "moves D d T T1 \<Longrightarrow> moves D e T1 T2 \<Longrightarrow> moves D (\<lambda>a. d a + e a) T T2"
  by (simp add: moves_def)

lemma moves_changes:
  assumes "changes D a obj T T'" "aBalance (oAccount obj) = txn_GetBalance D a T + x"
  shows "moves D (\<lambda>b. if b = a then x else 0) T T'"
  using assms changes_balance [OF assms(1)] by (auto simp: moves_def changes_def)

lemma moves_SubBalance:
  assumes "senv_laws D" "x \<le> txn_GetBalance D a T"
  obtains T' where "SubBalance D a x T = (None, T')" "moves D (\<lambda>b. if b = a then - x else 0) T T'"
proof -
  obtain e T' where S: "SubBalance D a x T = (e, T')" by (cases "SubBalance D a x T")
  from assms(1) S show thesis
  proof (cases rule: SubBalance_cases)
    case Zero
    then show thesis using that [of T] S by (simp add: moves_def)
  next
    case Paid
    then show thesis using that [of T'] S moves_changes [OF Paid(4), of "- x"] by (simp add: txn_reads)
  qed (use assms(2) in simp)
qed

lemma moves_AddBalance: "senv_laws D \<Longrightarrow> 0 \<le> x \<Longrightarrow> moves D (\<lambda>b. if b = a then x else 0) T (AddBalance D a x T)"
proof -
  assume D: "senv_laws D" and x: "0 \<le> x"
  have "0 \<le> txn_GetBalance D a T + x" using x balance_nonneg [of D a T] by linarith
  from changes_ops(1) [OF D this] show ?thesis by (rule moves_changes) (simp add: txn_reads)
qed

lemma moves_IncrNonce: "senv_laws D \<Longrightarrow> moves D (\<lambda>b. 0) T (IncrNonce D a T)"
  using moves_changes [OF changes_ops(3), of D a T 0] by (simp add: txn_reads)

lemma moves_TouchAccount: "senv_laws D \<Longrightarrow> moves D (\<lambda>b. 0) T (TouchAccount D a T)"
  using moves_changes [OF changes_ops(6), of D a T 0] by (simp add: txn_reads)

lemma moves_Snapshot: "txn_Snapshot T = (i, T') \<Longrightarrow> moves D (\<lambda>b. 0) T T'"
proof -
  assume "txn_Snapshot T = (i, T')"
  then have "same_accounts D T T'" using Snapshot_evolves [of T i T' D True] by (simp add: evolves_def)
  then show ?thesis by (simp add: moves_def same_accounts_def txn_reads)
qed

lemma getStateObject_other: "senv_laws D \<Longrightarrow> b \<noteq> a \<Longrightarrow> getStateObject D b (upsertAccount D a c f T) = getStateObject D b T"
  by (simp add: upsertAccount_def Let_def getStateObject_insert_object split: option.split)

lemma SubBalance_other: "senv_laws D \<Longrightarrow> b \<noteq> a \<Longrightarrow> SubBalance D a x T = (e, T') \<Longrightarrow> getStateObject D b T' = getStateObject D b T"
  by (auto simp: SubBalance_def getStateObject_other split: if_splits)

section \<open>Code that does nothing\<close>

lemma EVM_Run_empty:
  assumes "cCode k = []"
  shows "EVM_Run E p k config h = Some (Some (\<lparr>rReturnValue = [], rGasLeft = cGas k, rGasUsed = 0, rErr = None\<rparr>, h))"
proof -
  define c where "c = vm_init (vm_reset p) k h config"
  have c: "\<not> vm_stop c" "vm_ip c = 0" "vm_code c = []" "vm_gas c = cGas k" "vm_host c = h" "vm_err c = None" "vm_ret c = []"
    using assms by (simp_all add: c_def vm_init_def vm_reset_def resetReturnData_def)
  have "run_step E c = Some (halt c)" by (simp add: run_step_def c)
  moreover have "run_loop E (halt c) = Some (Some (halt c))" by (subst run_loop.simps) (simp add: halt_def)
  ultimately have "run_loop E c = Some (Some (halt c))" using c(1) by (subst run_loop.simps) simp
  then show ?thesis by (simp add: EVM_Run_def c_def [symmetric] vm_result_def halt_def c)
qed

lemma UpdateGasUsed_plain:
  assumes "c \<le> gas"
  shows "UpdateGasUsed gas 0 \<lparr>rReturnValue = [], rGasLeft = gas - c, rGasUsed = 0, rErr = None\<rparr>
    = \<lparr>rReturnValue = [], rGasLeft = gas - c, rGasUsed = c, rErr = None\<rparr>"
  by (simp add: UpdateGasUsed_def Let_def)

section \<open>A payment\<close>

definition payment :: "('t, 's, 'l, 'n, 'd, 'v, 'prv, 'pub, 'g1, 'g2) Executor \<Rightarrow> transaction \<Rightarrow> address \<Rightarrow> u64 \<Rightarrow> ('t, 'l, 'n, 'd) Transition \<Rightarrow> bool" where
  "payment X msg to c t \<longleftrightarrow>
     xRuntimes X = [RPrecompiled, REVM] \<and> tx_ok msg \<and> txTo msg = Some to \<and> \<not> IsWithdrawFee msg \<and> \<not> IsFixedRewardTx msg \<and>
     txn_GetNonce (xState X) (txFrom msg) (trState t) = txNonce msg \<and>
     TransactionGasCost msg (Homestead (trConfig t)) (Istanbul (trConfig t)) = Inr c \<and> c \<le> txGas msg \<and> txGas msg \<le> trGasPool t \<and>
     txGasPrice msg * uint (txGas msg) + txValue msg \<le> txn_GetBalance (xState X) (txFrom msg) (trState t) \<and>
     getStateObject (xState X) to (trState t) = None \<and> to \<noteq> txFrom msg \<and> pre_contracts to = None \<and>
     GetRefund (xState X) (trState t) = 0"

lemma transfer_moves:
  assumes "senv_laws D" "0 \<le> v" "v \<le> txn_GetBalance D from (trState t)"
  obtains t' where "transfer D from to (Some v) t = (None, t')" "t' = t\<lparr>trState := trState t'\<rparr>"
    "moves D (\<lambda>a. (if a = from then - v else 0) + (if a = to then v else 0)) (trState t) (trState t')"
proof -
  obtain T where T: "SubBalance D from v (trState t) = (None, T)" "moves D (\<lambda>b. if b = from then - v else 0) (trState t) T"
    by (rule moves_SubBalance [OF assms(1,3)])
  show thesis using that [of "t\<lparr>trState := AddBalance D to v T\<rparr>"] moves_trans [OF T(2) moves_AddBalance [OF assms(1,2), of to T]]
    by (simp add: transfer_def T(1))
qed

lemma run_plain:
  assumes "xRuntimes X = [RPrecompiled, REVM]" "pre_contracts (cCodeAddress k) = None" "cCode k = []"
  shows "tr_run X f k t = Some (\<lparr>rReturnValue = [], rGasLeft = cGas k, rGasUsed = 0, rErr = None\<rparr>, t)"
  using assms by (simp add: tr_run_def pre_CanRun_def EVM_Run_empty)

lemma Call2_plain:
  assumes "senv_laws (xState X)" "xRuntimes X = [RPrecompiled, REVM]" "pre_contracts to = None" "getStateObject (xState X) to (trState t) = None"
    and "0 \<le> v" "v \<le> txn_GetBalance (xState X) from (trState t)"
  obtains t' where "tr_Call2 X from to input v g t = Some (\<lparr>rReturnValue = [], rGasLeft = g, rGasUsed = 0, rErr = None\<rparr>, t')"
    "t' = t\<lparr>trState := trState t'\<rparr>"
    "moves (xState X) (\<lambda>a. (if a = from then - v else 0) + (if a = to then v else 0)) (trState t) (trState t')"
proof -
  let ?D = "xState X"
  obtain i s where s: "txn_Snapshot (trState t) = (i, s)" by (cases "txn_Snapshot (trState t)")
  define t1 where "t1 = t\<lparr>trState := TouchAccount ?D to s\<rparr>"
  have m1: "moves ?D (\<lambda>a. 0) (trState t) (trState t1)"
    using moves_trans [OF moves_Snapshot [OF s] moves_TouchAccount [OF assms(1), of s to]] by (simp add: t1_def)
  then have "v \<le> txn_GetBalance ?D from (trState t1)" using assms(6) by (simp add: moves_def)
  from transfer_moves [OF assms(1,5) this, of to] obtain t2 where t2: "transfer ?D from to (Some v) t1 = (None, t2)"
    "t2 = t1\<lparr>trState := trState t2\<rparr>" "moves ?D (\<lambda>a. (if a = from then - v else 0) + (if a = to then v else 0)) (trState t1) (trState t2)" .
  define k where "k = NewContractCall 1 from from to (Some v) g [] input"
  have k: "cCode k = []" "cCodeAddress k = to" "cAddress k = to" "cCaller k = from" "cValue k = Some v" "cGas k = g" "cDepth k = 1"
    by (simp_all add: k_def NewContractCall_def NewContract_def)
  have code: "txn_GetCode ?D to (trState t) = ([], trState t)" by (simp add: txn_GetCode_def assms(4))
  have "tr_Call2 X from to input v g t = Some (\<lparr>rReturnValue = [], rGasLeft = g, rGasUsed = 0, rErr = None\<rparr>, t2)"
    using run_plain [of X k] assms(2,3) k by (simp add: tr_Call2_def code k_def [symmetric] applyCall_def s t1_def [symmetric] t2(1) Failed_def)
  moreover have "t2 = t\<lparr>trState := trState t2\<rparr>"
  proof -
    define T where "T = trState t2"
    have "t2 = t1\<lparr>trState := T\<rparr>" using t2(2) by (simp add: T_def)
    then show ?thesis by (simp add: t1_def)
  qed
  ultimately show thesis using that moves_trans [OF m1 t2(3)] by simp
qed

lemma payment_applied:
  assumes "xlaws X" "payment X msg to c t"
  obtains t' where "tr_apply X msg t = Some (Inr \<lparr>rReturnValue = [], rGasLeft = txGas msg - c, rGasUsed = c, rErr = None\<rparr>, t')"
    "trGasPool t' = trGasPool t - c"
    "moves (xState X) (\<lambda>a. (if a = txFrom msg then - (txValue msg + txGasPrice msg * uint c) else 0) + (if a = to then txValue msg else 0) +
       (if a = FeePool then txGasPrice msg * uint c else 0)) (trState t) (trState t')"
proof -
  let ?D = "xState X" and ?from = "txFrom msg" and ?v = "txValue msg" and ?p = "txGasPrice msg" and ?gas = "txGas msg"
  let ?cost = "?p * uint ?gas"
  have D: "senv_laws ?D" using assms(1) by (simp add: xlaws_def)
  have P: "xRuntimes X = [RPrecompiled, REVM]" "txTo msg = Some to" "\<not> IsWithdrawFee msg" "\<not> IsFixedRewardTx msg"
    "txn_GetNonce ?D ?from (trState t) = txNonce msg" "TransactionGasCost msg (Homestead (trConfig t)) (Istanbul (trConfig t)) = Inr c"
    "c \<le> ?gas" "?gas \<le> trGasPool t" "?cost + ?v \<le> txn_GetBalance ?D ?from (trState t)" "getStateObject ?D to (trState t) = None"
    "to \<noteq> ?from" "pre_contracts to = None" "GetRefund ?D (trState t) = 0" "0 \<le> ?p" "0 \<le> ?v"
    using assms(2) by (auto simp: payment_def tx_ok_def word_range_def)
  have cost: "0 \<le> ?cost" using P(14) by simp
  obtain T1 where T1: "SubBalance ?D ?from ?cost (trState t) = (None, T1)" "moves ?D (\<lambda>b. if b = ?from then - ?cost else 0) (trState t) T1"
    by (rule moves_SubBalance [OF D, of ?cost ?from "trState t"]) (use P(9,15) in linarith)
  define t1 where "t1 = t\<lparr>trState := T1, trGasPool := trGasPool t - ?gas\<rparr>"
  have "\<not> ?gas - c > ?gas" using gas_guard P(7) by blast
  moreover have "\<not> trGasPool t < ?gas" using P(8) by simp
  moreover have "\<not> txn_GetBalance ?D ?from T1 < ?v" using T1(2) P(9) by (simp add: moves_def)
  ultimately have checks: "apply_checks ?D msg t = (Inr (?gas - c), t1)"
    using P(4,5,6) by (simp add: apply_checks_def nonceCheck_def subGasLimitPrice_def T1(1) subGasPool_def t1_def Let_def)
  define t2 where "t2 = t1\<lparr>trCtx := (trCtx t1)\<lparr>ctxGasPrice := BytesToHash (big_Bytes ?p), ctxOrigin := ?from\<rparr>\<rparr>"
  define t3 where "t3 = map_state (IncrNonce ?D ?from) t2"
  have s3: "trState t3 = IncrNonce ?D ?from T1" by (simp add: t3_def t2_def t1_def map_state_def)
  have m3: "moves ?D (\<lambda>b. if b = ?from then - ?cost else 0) (trState t) (trState t3)"
    using moves_trans [OF T1(2) moves_IncrNonce [OF D, of T1 ?from]] by (simp add: s3)
  have fresh: "getStateObject ?D to (trState t3) = None"
    using SubBalance_other [OF D P(11) T1(1)] P(10,11) by (simp add: s3 IncrNonce_def getStateObject_other [OF D])
  have bal: "?v \<le> txn_GetBalance ?D ?from (trState t3)" using m3 P(9) by (simp add: moves_def)
  obtain t4 where t4: "tr_Call2 X ?from to (txInput msg) ?v (?gas - c) t3 = Some (\<lparr>rReturnValue = [], rGasLeft = ?gas - c, rGasUsed = 0, rErr = None\<rparr>, t4)"
    "t4 = t3\<lparr>trState := trState t4\<rparr>"
    "moves ?D (\<lambda>a. (if a = ?from then - ?v else 0) + (if a = to then ?v else 0)) (trState t3) (trState t4)"
    by (rule Call2_plain [OF D P(1,12) fresh P(15) bal, where input = "txInput msg" and g = "?gas - c"]) blast
  note m4 = moves_trans [OF m3 t4(3)]
  let ?res = "\<lparr>rReturnValue = [], rGasLeft = ?gas - c, rGasUsed = c, rErr = None\<rparr>"
  define T5 where "T5 = AddBalance ?D ?from (uint (?gas - c) * ?p) (trState t4)"
  define T6 where "T6 = AddBalance ?D FeePool (uint c * ?p) T5"
  define t5 where "t5 = addGasPool (?gas - c) (t4\<lparr>trState := T6\<rparr>)"
  have "GetRefund ?D (trState t4) = 0" using m4 P(13) by (simp add: moves_def)
  then have settle: "apply_settle ?D msg \<lparr>rReturnValue = [], rGasLeft = ?gas - c, rGasUsed = 0, rErr = None\<rparr> t4 = (?res, t5)"
    using UpdateGasUsed_plain [OF P(7)] by (simp add: apply_settle_def map_state_def T5_def T6_def t5_def)
  have "apply_body X msg (?gas - c) t2 = Some (Inr \<lparr>rReturnValue = [], rGasLeft = ?gas - c, rGasUsed = 0, rErr = None\<rparr>, t4)"
    using P(2-4) t4(1) by (simp add: apply_body_def t3_def)
  then have app: "tr_apply X msg t = Some (Inr ?res, t5)" by (simp add: tr_apply_def checks t2_def [symmetric] settle)
  have "trGasPool t4 = trGasPool t3" by (subst t4(2)) simp
  then have pool: "trGasPool t5 = trGasPool t - c" by (simp add: t5_def addGasPool_def t3_def t2_def t1_def map_state_def)
  have "moves ?D (\<lambda>a. if a = ?from then uint (?gas - c) * ?p else 0) (trState t4) T5" "moves ?D (\<lambda>a. if a = FeePool then uint c * ?p else 0) T5 T6"
    unfolding T5_def T6_def using P(14) by (intro moves_AddBalance [OF D], simp)+
  note m = moves_trans [OF m4 moves_trans [OF this]]
  have u: "uint (?gas - c) = uint ?gas - uint c" using uint_sub_lem [of c ?gas] P(7) by (simp add: word_le_def)
  have "moves ?D (\<lambda>a. (if a = ?from then - (?v + ?p * uint c) else 0) + (if a = to then ?v else 0) +
       (if a = FeePool then ?p * uint c else 0)) (trState t) T6"
    using m unfolding moves_def by (auto simp: u algebra_simps)
  then show thesis using that [OF app pool] by (simp add: t5_def addGasPool_def)
qed

section \<open>A creation that mints\<close>

text \<open>
  The selector of the fixed reward anywhere in the data switches off the check of the intrinsic gas, also for
  a contract creation. The gas for the execution then wraps around, and what is left of it is paid out.
\<close>

lemma EVM_Run_stop:
  assumes "cCode k = 0 # code"
  shows "EVM_Run E p k config h = Some (Some (\<lparr>rReturnValue = [], rGasLeft = cGas k, rGasUsed = 0, rErr = None\<rparr>, h))"
proof -
  define c where "c = vm_init (vm_reset p) k h config"
  have c: "\<not> vm_stop c" "vm_ip c = 0" "vm_code c = 0 # code" "vm_gas c = cGas k" "vm_host c = h" "vm_err c = None" "vm_ret c = []" "vm_stack c = []"
    using assms by (simp_all add: c_def vm_init_def vm_reset_def resetReturnData_def)
  have "dispatchTable E 0 = Some (snd (register 0 opStop 0 0))" by (simp add: dispatchTable_def handlers_def register_def)
  then have s: "run_step E c = Some ((halt c)\<lparr>vm_ip := 1\<rparr>)"
    by (simp add: run_step_def c register_def consumeGas_def opStop_def halt_def stackSize_def)
  have "run_loop E ((halt c)\<lparr>vm_ip := 1\<rparr>) = Some (Some ((halt c)\<lparr>vm_ip := 1\<rparr>))" by (subst run_loop.simps) (simp add: halt_def)
  then have "run_loop E c = Some (Some ((halt c)\<lparr>vm_ip := 1\<rparr>))" using c(1) s by (subst run_loop.simps) simp
  then show ?thesis by (simp add: EVM_Run_def c_def [symmetric] vm_result_def halt_def c)
qed

lemma moves_CreateAccount: "senv_laws D \<Longrightarrow> moves D (\<lambda>b. 0) T (CreateAccount D a T)"
  using moves_changes [OF changes_ops(7), of D a T 0] by simp

lemma moves_SetCode: "senv_laws D \<Longrightarrow> moves D (\<lambda>b. 0) T (SetCode D a code T)"
  using moves_changes [OF changes_ops(5), where x = 0] by (simp add: txn_reads)

definition minting :: "('t, 's, 'l, 'n, 'd, 'v, 'prv, 'pub, 'g1, 'g2) Executor \<Rightarrow> transaction \<Rightarrow> ('t, 'l, 'n, 'd) Transition \<Rightarrow> bool" where
  "minting X msg t \<longleftrightarrow>
     xRuntimes X = [RPrecompiled, REVM] \<and> trConfig t = Forks_At AllForksEnabled 0 \<and>
     txTo msg = None \<and> txInput msg = [0x00, 0x57, 0x30, 0x59, 0x20] \<and> txGas msg = 0 \<and> 0 \<le> txGasPrice msg \<and> txValue msg = 0 \<and>
     txn_GetNonce (xState X) (txFrom msg) (trState t) = txNonce msg \<and> GetRefund (xState X) (trState t) = 0 \<and>
     (let addr = CreateAddress (sRlp (xState X)) (sCurve (xState X)) (txFrom msg) (txNonce msg)
      in pre_contracts addr = None \<and> addr \<noteq> txFrom msg \<and> getStateObject (xState X) addr (trState t) = None)"

lemma mint_input:
  assumes "txInput msg = [0x00, 0x57, 0x30, 0x59, 0x20]" "txTo msg = None"
  shows "IsFixedRewardTx msg" "TransactionGasCost msg True True = Inr 53068"
proof -
  have "strings_Count (hex_EncodeToString [0x00, 0x57, 0x30, 0x59, 0x20]) FixedRewardMethod > 0" by code_simp
  then show "IsFixedRewardTx msg" using assms by (simp add: IsFixedRewardTx_def)
  show "TransactionGasCost msg True True = Inr 53068"
    using assms by (simp add: TransactionGasCost_def IsContractCreation_def TxGasContractCreation_def MaxUint64_def)
qed

lemma minting_applied:
  assumes "xlaws X" "minting X msg t"
  obtains t' where "tr_apply X msg t = Some (Inr \<lparr>rReturnValue = [], rGasLeft = - 53068, rGasUsed = 53068, rErr = None\<rparr>, t')"
    "moves (xState X) (\<lambda>a. (if a = txFrom msg then (2 ^ 64 - 53068) * txGasPrice msg else 0) +
       (if a = FeePool then 53068 * txGasPrice msg else 0)) (trState t) (trState t')"
proof -
  let ?D = "xState X" and ?from = "txFrom msg" and ?p = "txGasPrice msg"
  have D: "senv_laws ?D" using assms(1) by (simp add: xlaws_def)
  define addr where "addr = CreateAddress (sRlp ?D) (sCurve ?D) ?from (txNonce msg)"
  have P: "xRuntimes X = [RPrecompiled, REVM]" "trConfig t = Forks_At AllForksEnabled 0" "txTo msg = None"
    "txInput msg = [0x00, 0x57, 0x30, 0x59, 0x20]" "txGas msg = 0" "0 \<le> ?p" "txValue msg = 0"
    "txn_GetNonce ?D ?from (trState t) = txNonce msg" "GetRefund ?D (trState t) = 0" "pre_contracts addr = None" "addr \<noteq> ?from"
    "getStateObject ?D addr (trState t) = None"
    using assms(2) by (auto simp: minting_def Let_def addr_def)
  have cfg: "Homestead (trConfig t)" "Istanbul (trConfig t)" "EIP158 (trConfig t)"
    by (simp_all add: P(2) Forks_At_def AllForksEnabled_def NewFork_def fork_active_def Fork_Active_def)
  note I = mint_input [OF P(4,3)]
  define g :: u64 where "g = - 53068"
  have sub0: "SubBalance ?D a 0 T = (None, T)" for a T by (simp add: SubBalance_def)
  have checks: "apply_checks ?D msg t = (Inr g, t)"
    using P(5,8) I cfg by (simp add: apply_checks_def nonceCheck_def subGasLimitPrice_def sub0 subGasPool_def Let_def g_def)
  define t2 where "t2 = t\<lparr>trCtx := (trCtx t)\<lparr>ctxGasPrice := BytesToHash (big_Bytes ?p), ctxOrigin := ?from\<rparr>\<rparr>"
  define k where "k = NewContractCreation 1 ?from ?from addr (Some 0) g (txInput msg)"
  have k: "cCode k = 0 # [0x57, 0x30, 0x59, 0x20]" "cCodeAddress k = addr" "cAddress k = addr" "cCaller k = ?from" "cValue k = Some 0" "cGas k = g" "cDepth k = 1"
    by (simp_all add: k_def NewContractCreation_def NewContract_def P(4))
  define t3 where "t3 = map_state (IncrNonce ?D ?from) t2"
  have m3: "moves ?D (\<lambda>b. 0) (trState t) (trState t3)"
    using moves_IncrNonce [OF D, of "trState t" ?from] by (simp add: t3_def t2_def map_state_def)
  have "getStateObject ?D addr (trState t3) = None"
    using P(11,12) by (simp add: t3_def t2_def map_state_def IncrNonce_def getStateObject_other [OF D])
  then have new: "\<not> hasCodeOrNonce ?D addr t3" by (simp add: hasCodeOrNonce_def txn_GetNonce_def txn_GetCodeHash_def)
  obtain i s where s: "txn_Snapshot (trState t3) = (i, s)" by (cases "txn_Snapshot (trState t3)")
  define T4 where "T4 = IncrNonce ?D addr (CreateAccount ?D addr s)"
  define T5 where "T5 = AddBalance ?D addr 0 T4"
  define t5 where "t5 = t3\<lparr>trState := T5\<rparr>"
  have c3: "trConfig t3 = trConfig t" by (simp add: t3_def t2_def map_state_def)
  have run: "tr_run X f k t5 = Some (\<lparr>rReturnValue = [], rGasLeft = g, rGasUsed = 0, rErr = None\<rparr>, t5)" for f
    using P(1,10) k by (simp add: tr_run_def pre_CanRun_def EVM_Run_stop [OF k(1)])
  define t6 where "t6 = map_state (SetCode ?D addr []) t5"
  have create: "tr_Create2 X ?from (txInput msg) 0 g t2 = Some (\<lparr>rReturnValue = [], rGasLeft = g, rGasUsed = 0, rErr = None\<rparr>, t6)"
  proof -
    have "CreateAddress (sRlp ?D) (sCurve ?D) ?from (txn_GetNonce ?D ?from (trState t2)) = addr" by (simp add: t2_def addr_def P(8))
    moreover have "transfer ?D ?from addr (Some 0) (t3\<lparr>trState := T4\<rparr>) = (None, t5)" by (simp add: transfer_def sub0 t5_def T5_def)
    moreover have "trConfig t5 = trConfig t" by (simp add: t5_def c3)
    ultimately show ?thesis using new s run cfg
      by (simp add: tr_Create2_def k_def [symmetric] applyCreate_def k t3_def [symmetric] c3 T4_def [symmetric] Failed_def store_code_def
          spuriousDragonMaxCodeSize_def t6_def)
  qed
  have m6: "moves ?D (\<lambda>b. 0) (trState t) (trState t6)"
  proof -
    have "moves ?D (\<lambda>b. 0) (trState t3) T4"
      using moves_trans [OF moves_Snapshot [OF s] moves_trans [OF moves_CreateAccount [OF D, of s addr] moves_IncrNonce [OF D, of _ addr]]]
      by (simp add: T4_def)
    moreover have "moves ?D (\<lambda>b. 0) T4 T5" using moves_AddBalance [OF D, of 0 addr T4] by (simp add: T5_def)
    moreover have "moves ?D (\<lambda>b. 0) T5 (trState t6)" using moves_SetCode [OF D, of T5 addr "[]"] by (simp add: t6_def t5_def map_state_def)
    ultimately show ?thesis using m3 by (simp add: moves_def)
  qed
  let ?res = "\<lparr>rReturnValue = [], rGasLeft = - 53068, rGasUsed = 53068, rErr = None\<rparr>"
  define T7 where "T7 = AddBalance ?D ?from ((2 ^ 64 - 53068) * ?p) (trState t6)"
  define T8 where "T8 = AddBalance ?D FeePool (53068 * ?p) T7"
  define t8 where "t8 = addGasPool (- 53068) (t6\<lparr>trState := T8\<rparr>)"
  have "GetRefund ?D (trState t6) = 0" using m6 P(9) by (simp add: moves_def)
  moreover have "uint (- 53068 :: u64) = 2 ^ 64 - 53068" "(- (- 53068) :: u64) = 53068" "uint (53068 :: u64) = 53068" by simp_all
  ultimately have settle: "apply_settle ?D msg \<lparr>rReturnValue = [], rGasLeft = g, rGasUsed = 0, rErr = None\<rparr> t6 = (?res, t8)"
    by (simp add: apply_settle_def UpdateGasUsed_def Let_def P(5) g_def map_state_def T7_def T8_def t8_def)
  have "apply_body X msg g t2 = Some (Inr \<lparr>rReturnValue = [], rGasLeft = g, rGasUsed = 0, rErr = None\<rparr>, t6)"
    using create P(3,7) by (simp add: apply_body_def)
  then have app: "tr_apply X msg t = Some (Inr ?res, t8)" by (simp add: tr_apply_def checks t2_def [symmetric] settle)
  have "moves ?D (\<lambda>a. if a = ?from then (2 ^ 64 - 53068) * ?p else 0) (trState t6) T7" "moves ?D (\<lambda>a. if a = FeePool then 53068 * ?p else 0) T7 T8"
    unfolding T7_def T8_def using P(6) by (intro moves_AddBalance [OF D], simp)+
  from moves_trans [OF m6 moves_trans [OF this]] show thesis using that [OF app] by (simp add: t8_def addGasPool_def)
qed

end
