(* ===== verification/EvmPanic.thy ===== *)
theory EvmPanic
  imports EvmRun
begin

text \<open>
  A run that panics. \<open>RETURNDATACOPY\<close> of zero bytes does not extend the memory and then slices it at the
  given offset; an offset beyond the memory is out of range.
\<close>

lemma dispatch_push1: "dispatchTable E 0x60 = Some \<lparr>inst = opPush 1, hstack = 0, hgas = 3\<rparr>"
  unfolding dispatchTable_def handlers_def
  by (simp add: register_def registerRange_def upt_conv_Cons)

lemma dispatch_returndatacopy: "dispatchTable E 0x3E = Some \<lparr>inst = opReturnDataCopy E, hstack = 3, hgas = 3\<rparr>"
  unfolding dispatchTable_def handlers_def
  by (simp add: register_def registerRange_def upt_conv_Cons CREATE_def CREATE2_def CALL_def CALLCODE_def DELEGATECALL_def STATICCALL_def
     REVERT_def RETURN_def)

lemma step_push1:
  assumes "vm_ip c = int i" "Suc i < length (vm_code c)" "vm_code c ! i = 0x60" "3 \<le> vm_gas c" "length (vm_stack c) < 1024"
  shows "run_step E c = Some (c\<lparr>vm_gas := vm_gas c - 3, vm_stack := uint (vm_code c ! Suc i) # vm_stack c, vm_ip := int i + 2\<rparr>)"
proof -
  have "take 1 (drop (Suc i) (vm_code c)) = [vm_code c ! Suc i]" using assms(2) by (simp add: take_Suc_conv_app_nth)
  then have v: "SetBytes (take 1 (drop (Suc i) (vm_code c))) = uint (vm_code c ! Suc i)" by (simp add: SetBytes_def be_value_def)
  have p: "nat (vm_ip c + 1) = Suc i" using assms(1) by simp
  have g: "consumeGas 3 c = (True, c\<lparr>vm_gas := vm_gas c - 3\<rparr>)" using assms(4) by (simp add: consumeGas_def linorder_not_less [symmetric])
  have "opPush 1 (c\<lparr>vm_gas := vm_gas c - 3\<rparr>) =
      Some ((push (uint (vm_code c ! Suc i)) (c\<lparr>vm_gas := vm_gas c - 3\<rparr>))\<lparr>vm_ip := vm_ip c + 1\<rparr>)"
    using assms(2) v by (simp add: opPush_def Let_def p)
  then show ?thesis using assms by (simp add: run_step_def dispatch_push1 g push_def stackSize_def)
qed

lemma step_returndatacopy_panics:
  assumes "vm_ip c = int i" "i < length (vm_code c)" "vm_code c ! i = 0x3E" "3 \<le> vm_gas c" "vm_stack c = m # 0 # 0 # s"
    and "Byzantium (vm_config c)" "vm_memory c = []" "0 < m" "m < 2 ^ 64"
  shows "run_step E c = None"
proof -
  have g: "consumeGas 3 c = (True, c\<lparr>vm_gas := vm_gas c - 3\<rparr>)" using assms(4) by (simp add: consumeGas_def linorder_not_less [symmetric])
  have "0 < unat (big_Uint64 m)" using big_Uint64_unat [of m] assms(8,9) by (simp add: IsUint64_def)
  moreover have "big_Uint64 0 = 0" "IsUint64 0" by (simp_all add: big_Uint64_def IsUint64_def)
  ultimately have "opReturnDataCopy E (c\<lparr>vm_gas := vm_gas c - 3\<rparr>) = None"
    using assms(5-7) by (simp add: opReturnDataCopy_def popv_def pop_def with_mem_def checkMemory_def with_gas_def consumeGas_def)
  then show ?thesis using assms by (simp add: run_step_def dispatch_returndatacopy g)
qed

text \<open>Seven bytes of code: \<open>PUSH1 0, PUSH1 0, PUSH1 m, RETURNDATACOPY\<close>.\<close>

definition crash_code :: "u8 \<Rightarrow> bytes" where
  "crash_code m = [0x60, 0, 0x60, 0, 0x60, m, 0x3E]"

text \<open>C8. RETURNDATACOPY of zero bytes to an offset beyond the memory panics: in every environment, a run of the
  seven bytes of \<open>crash_code\<close> with at least twelve gas ends the process, since nothing recovers from the panic.\<close>

theorem returndatacopy_crashes:
  assumes "cCode k = crash_code m" "m \<noteq> 0" "12 \<le> cGas k" "Byzantium config"
  shows "EVM_Run E p k config h = Some None"
proof -
  define c where "c = vm_init (vm_reset p) k h config"
  have c: "\<not> vm_stop c" "vm_ip c = int 0" "vm_code c = crash_code m" "vm_gas c = cGas k" "vm_stack c = []" "vm_memory c = []" "vm_config c = config"
    using assms by (simp_all add: c_def vm_init_def vm_reset_def resetReturnData_def)
  have g: "3 \<le> cGas k" "3 \<le> cGas k - 3" "3 \<le> cGas k - 3 - 3" "3 \<le> cGas k - 3 - 3 - 3"
    using assms(3) by (auto simp: word_le_nat_alt unat_sub)
  define c1 where "c1 = c\<lparr>vm_gas := cGas k - 3, vm_stack := [0], vm_ip := int 2\<rparr>"
  define c2 where "c2 = c\<lparr>vm_gas := cGas k - 3 - 3, vm_stack := [0, 0], vm_ip := int 4\<rparr>"
  define c3 where "c3 = c\<lparr>vm_gas := cGas k - 3 - 3 - 3, vm_stack := [uint m, 0, 0], vm_ip := int 6\<rparr>"
  have "run_step E c = Some c1"
    using step_push1 [of c 0] c g by (simp add: c1_def crash_code_def)
  moreover have "run_step E c1 = Some c2"
    using step_push1 [of c1 2] c g by (simp add: c1_def c2_def crash_code_def)
  moreover have "run_step E c2 = Some c3"
    using step_push1 [of c2 4] c g by (simp add: c2_def c3_def crash_code_def)
  moreover have "run_step E c3 = None"
  proof (rule step_returndatacopy_panics [of c3 6 "uint m" "[]"])
    show "0 < uint m" using assms(2) by (simp add: less_le uint_0_iff)
    show "uint m < 2 ^ 64" using uint_bounded [of m] by simp
  qed (use c g assms(4) in \<open>simp_all add: c3_def crash_code_def\<close>)
  moreover have "\<not> vm_stop c1" "\<not> vm_stop c2" "\<not> vm_stop c3" using c(1) by (simp_all add: c1_def c2_def c3_def)
  ultimately have "run_loop E c = Some None" using c(1)
    by (subst run_loop.simps, simp)+
  then show ?thesis by (simp add: EVM_Run_def c_def)
qed

theorem returndatacopy_crashes_witness:
  "\<forall>(E :: (unit, unit, unit, unit) env) p h.
     EVM_Run E p (NewContract 1 0 0 0 None 100 (crash_code 1)) (Forks_At AllForksEnabled 0) h = Some None"
  by (intro allI, rule returndatacopy_crashes [of _ 1])
    (simp_all add: NewContract_def Forks_At_def AllForksEnabled_def NewFork_def fork_active_def Fork_Active_def)

end
