(* ===== verification/ExecutorProps.thy ===== *)
theory ExecutorProps
  imports ExecutorPay EvmPanic TxSigner "HOL-Library.AList"
begin

text \<open>
  An instance of the libraries that the executor runs on: association lists for the radix trees, a cache that
  forgets everything, an empty database and a trivial curve. It shows that the assumptions on the libraries can
  hold and evaluates the executor on concrete transactions.
\<close>

definition list_iradix :: "((bytes \<times> 'v) list, 'v) iradix" where
  "list_iradix = \<lparr>irNew = [], irGet = (\<lambda>k t. map_of t k), irInsert = AList.update, irDelete = AList.delete, irWalk = AList.clearjunk\<rparr>"

definition no_lru :: "unit lru" where
  "no_lru = \<lparr>lruNew = (), lruGet = (\<lambda>k l. (None, l)), lruAdd = (\<lambda>k v l. l)\<rparr>"

definition empty_state :: "(unit, unit) StateApi" where
  "empty_state = \<lparr>NewSnapshotAt = (\<lambda>h d. Some ()), NewSnapshot = (), state_GetCode = (\<lambda>h d. None),
     snapshot_Get = (\<lambda>k n d. None), snapshot_Commit = (\<lambda>objs n d. (((), []), d))\<rparr>"

type_synonym ex_store = "(bytes \<times> bytes option) list"
type_synonym ex_tree = "(bytes \<times> (ex_store, unit) entry) list"

definition ex_senv :: "(ex_tree, ex_store, unit, unit, unit, item, unit, unit) senv" where
  "ex_senv = \<lparr>sTree = list_iradix, sStore = list_iradix, sLru = no_lru, sState = empty_state, sRlp = item_api, sCurve = unit_curve\<rparr>"

definition ex_pre :: "(unit, unit, unit, unit) pre_env" where
  "ex_pre = \<lparr>ripemd160 = (\<lambda>b. replicate 20 0), G1_Unmarshal = (\<lambda>b. None), G1_Marshal = (\<lambda>g. replicate 64 0), G1_Add = (\<lambda>a b. ()),
     G1_ScalarMult = (\<lambda>a n. ()), G2_Unmarshal = (\<lambda>b. None), PairingCheck = (\<lambda>a b. True), preCurve = unit_curve\<rparr>"

definition ex_executor :: "(ex_tree, ex_store, unit, unit, unit, item, unit, unit, unit, unit) Executor" where
  "ex_executor = \<lparr>xForks = AllForksEnabled, xChainID = 1, xRuntimes = [RPrecompiled, REVM], xState = ex_senv, xGetHash = (\<lambda>h n. 0),
     xPostHook = None, xPre = ex_pre, xGrow = (\<lambda>cap n. n), xCap = (\<lambda>c. 0)\<rparr>"

lemma list_iradix_laws: "iradix_laws list_iradix"
  by (simp add: iradix_laws_def list_iradix_def update_conv' delete_conv' distinct_clearjunk map_of_clearjunk fun_eq_iff)

lemma ex_laws: "xlaws ex_executor" "senv_laws ex_senv"
  by (simp_all add: xlaws_def senv_laws_def pre_laws_def ex_executor_def ex_senv_def ex_pre_def list_iradix_laws no_lru_def lru_laws_def
      empty_state_def unit_curve_def)

text \<open>A transition at block 1 in which account 7 owns a million.\<close>

definition ex_transition :: "(ex_tree, unit, unit, unit) Transition" where
  "ex_transition = \<lparr>trBlock = None, trConfig = Forks_At AllForksEnabled 1, trState = AddBalance ex_senv 7 1000000 (newTxn ex_senv () ()),
     trGetHash = (\<lambda>n. 0), trCtx = \<lparr>ctxGasPrice = 0, ctxOrigin = 0, ctxCoinbase = 0, ctxNumber = 1, ctxTimestamp = 1, ctxGasLimit = 100000,
       ctxChainID = 1, ctxDifficulty = 1\<rparr>, trGasPool = 100000, trReceipts = [], trTotalGas = 0, trFee = NewValidatorFee, trLock = NewLock\<rparr>"

definition pay_tx :: transaction where
  "pay_tx = tx0\<lparr>txGasPrice := 2, txGas := 21000, txTo := Some 200, txValue := 5, txFrom := 7\<rparr>"

lemma newTxn_reads: "getStateObject ex_senv a (newTxn ex_senv () ()) = None" "current ex_senv a (newTxn ex_senv () ()) = newStateObject ex_senv"
    "GetRefund ex_senv (newTxn ex_senv () ()) = 0"
  by (simp_all add: getStateObject_def newTxn_def ex_senv_def list_iradix_def load_object_def empty_state_def current_def GetRefund_def)

lemma ex_reads:
  "txn_GetBalance ex_senv a (trState ex_transition) = (if a = 7 then 1000000 else 0)" "txn_GetNonce ex_senv 7 (trState ex_transition) = 0"
  "GetRefund ex_senv (trState ex_transition) = 0" "a \<noteq> 7 \<Longrightarrow> getStateObject ex_senv a (trState ex_transition) = None"
  "total ex_senv (trState ex_transition) = 1000000"
proof -
  let ?T = "newTxn ex_senv () ()"
  have s: "trState ex_transition = AddBalance ex_senv 7 1000000 ?T" by (simp add: ex_transition_def)
  have b: "txn_GetBalance ex_senv a ?T = 0" for a by (simp add: txn_reads newTxn_reads)
  have "0 \<le> txn_GetBalance ex_senv 7 ?T + 1000000" by (simp add: b)
  note C = changes_ops(1) [OF ex_laws(2) this]
  show "txn_GetBalance ex_senv a (trState ex_transition) = (if a = 7 then 1000000 else 0)"
    using changes_balance [OF C, of a] by (simp add: s b newTxn_reads)
  show "txn_GetNonce ex_senv 7 (trState ex_transition) = 0" using C by (simp add: s txn_reads changes_def newTxn_reads)
  show "GetRefund ex_senv (trState ex_transition) = 0" using C by (simp add: s changes_def newTxn_reads)
  show "total ex_senv (trState ex_transition) = 1000000" using changes_total [OF C] by (simp add: s b newTxn_reads total_def)
  show "a \<noteq> 7 \<Longrightarrow> getStateObject ex_senv a (trState ex_transition) = None"
    by (simp add: s AddBalance_def getStateObject_other [OF ex_laws(2)] newTxn_reads)
qed

lemma newTxn_ok: "txn_ok ex_senv (newTxn ex_senv () ())" "total ex_senv (newTxn ex_senv () ()) = 0"
proof -
  let ?T = "newTxn ex_senv () ()"
  have "tree_typed ex_senv (tTxn ?T)" by (simp add: tree_typed_def newTxn_def ex_senv_def list_iradix_def)
  then show "txn_ok ex_senv ?T"
    by (simp add: txn_ok_def newTxn_reads cache_ok_def code_ok_def) (simp add: newTxn_def ex_senv_def no_lru_def)
  show "total ex_senv ?T = 0" by (simp add: total_def txn_reads newTxn_reads)
qed

lemma ex_inv: "tr_inv ex_senv ex_transition"
proof -
  have "txn_ok ex_senv (trState ex_transition)"
    using AddBalance_frame(2) [OF ex_laws(2)] newTxn_ok(1) by (simp add: ex_transition_def)
  then show ?thesis using ex_reads(5)
    by (simp add: tr_inv_def ctx_ok_def) (simp add: ex_transition_def Forks_At_def AllForksEnabled_def NewFork_def fork_active_def Fork_Active_def)
qed

lemma ex_sel [simp]: "xState ex_executor = ex_senv" "xRuntimes ex_executor = [RPrecompiled, REVM]" "xPostHook ex_executor = None"
    "trConfig ex_transition = Forks_At AllForksEnabled 0" "trGasPool ex_transition = 100000" "trTotalGas ex_transition = 0" "trReceipts ex_transition = []"
  by (simp_all add: ex_executor_def ex_transition_def Forks_At_def AllForksEnabled_def NewFork_def fork_active_def Fork_Active_def)

lemma ex_forks [simp]: "Homestead (Forks_At AllForksEnabled 0)" "Istanbul (Forks_At AllForksEnabled 0)" "Byzantium (Forks_At AllForksEnabled 0)"
    "EIP150 (Forks_At AllForksEnabled 0)"
  by (simp_all add: Forks_At_def AllForksEnabled_def NewFork_def fork_active_def Fork_Active_def)

lemma ex_addresses: "pre_contracts 9 = Some blake2f" "pre_contracts 200 = None" "(200 :: address) \<noteq> FeePool" "(7 :: address) \<noteq> FeePool"
  by code_simp+

section \<open>The contract of the host\<close>

text \<open>The transition is a host of the machine, for every bound \<open>n\<close> on the nesting and both kinds of call.\<close>

locale executor =
  fixes X :: "('t, 's, 'l, 'n, 'd, 'v, 'prv, 'pub, 'g1, 'g2) Executor" and n :: nat and static :: bool
  assumes laws: "xlaws X"
begin

end

sublocale executor \<subseteq> evm_host "tr_env X (tr_Callx n X)" static "tr_inv (xState X)" "tr_rel (xState X) static"
  by (rule transition_host [OF laws laws])

interpretation lib: executor ex_executor Callx_levels False
  by unfold_locales (rule ex_laws)

text \<open>The instructions that may panic: \<open>RETURNDATACOPY\<close>, and those that run other code.\<close>

definition panic_ops :: "u8 set" where
  "panic_ops = {0x3E, CREATE, CREATE2, CALL, CALLCODE, DELEGATECALL, STATICCALL}"

context evm_host
begin

lemma EVM_Run_outcome:
  assumes "contract_ok k" "hinv h" "static \<longrightarrow> cStatic k" "EIP150 config"
  obtains "EVM_Run E p k config h = Some None" "set (cCode k) \<inter> panic_ops \<noteq> {}"
    | res h' where "EVM_Run E p k config h = Some (Some (res, h'))" "hinv h'" "R h h'" "rGasLeft res \<le> cGas k"
proof -
  from EVM_Run_ends [OF assms, of p] obtain r where r: "EVM_Run E p k config h = Some r"
    "case r of None \<Rightarrow> \<exists>d. run_inv d \<and> vm_msg d = k \<and> in_code d \<and> may_panic E hinv (vm_code d ! nat (vm_ip d)) d
     | Some (res, h') \<Rightarrow> hinv h' \<and> R h h' \<and> rGasLeft res \<le> cGas k \<and> length (rReturnValue res) < 2 ^ 62" by blast
  show thesis
  proof (cases r)
    case None
    then obtain d where d: "run_inv d" "vm_msg d = k" "in_code d" "may_panic E hinv (vm_code d ! nat (vm_ip d)) d"
      using r(2) by auto
    then have "vm_code d ! nat (vm_ip d) \<in> set (cCode k)" by (auto simp: run_inv_def base_ok_def in_code_def)
    moreover have "vm_code d ! nat (vm_ip d) \<in> panic_ops" using d(4) by (auto simp: may_panic_def panic_ops_def)
    ultimately show thesis using that(1) r(1) None by blast
  next
    case (Some x)
    then show thesis using that(2) r by (cases x) auto
  qed
qed

end


section \<open>Calls\<close>

text \<open>A contract with a little code, and calls that cannot run.\<close>

definition ex_contract :: "bytes \<Rightarrow> Contract" where
  "ex_contract code = NewContractCall 1 7 7 200 (Some 0) 1000 code []"

lemma ex_contract_sel [simp]:
  "cCode (ex_contract c) = c" "cInput (ex_contract c) = []" "cValue (ex_contract c) = Some 0" "cGas (ex_contract c) = 1000"
  "cDepth (ex_contract c) = 1" "cCodeAddress (ex_contract c) = 200" "cAddress (ex_contract c) = 200" "cCaller (ex_contract c) = 7"
  "cType (ex_contract c) = Call"
  by (simp_all add: ex_contract_def NewContractCall_def NewContract_def)


text \<open>C4. A static call, whatever code it runs and however deep it calls, leaves every account, the logs and the refund
  counter as they were, and nothing else of the transition changes.\<close>

theorem static_call_writes_nothing:
  assumes "xlaws X" "tr_inv (xState X) t" "contract_ok k" "static_contract k" "tr_Callx n X k t = Some (r, t')"
  shows "same_accounts (xState X) (trState t) (trState t') \<and> t' = t\<lparr>trState := trState t'\<rparr>"
  using Callx_ok [OF assms(1), of True n] assms(2-5) by (auto simp: callx_ok_def tr_rel_def evolves_def)

theorem static_call_writes_nothing_witness:
  "\<exists>r t'. tr_Callx 1 ex_executor ((ex_contract [])\<lparr>cStatic := True\<rparr>) ex_transition = Some (r, t') \<and> rErr r = None \<and>
     same_accounts ex_senv (trState ex_transition) (trState t')"
proof -
  let ?k = "(ex_contract [])\<lparr>cStatic := True\<rparr>"
  have "contract_ok ?k" "static_contract ?k" by (simp_all add: contract_ok_def word_range_def static_contract_def)
  moreover obtain r t' where "tr_Callx 1 ex_executor ?k ex_transition = Some (r, t')" "rErr r = None"
  proof -
    obtain i s where s: "txn_Snapshot (trState ex_transition) = (i, s)" by (cases "txn_Snapshot (trState ex_transition)")
    obtain t where "transfer ex_senv 7 200 (Some 0) (ex_transition\<lparr>trState := TouchAccount ex_senv 200 s\<rparr>) = (None, t)"
      by (simp add: transfer_def SubBalance_def)
    then show thesis using that run_plain [of ex_executor ?k] ex_addresses(2) by (simp add: applyCall_def s Failed_def)
  qed
  ultimately show ?thesis
    using static_call_writes_nothing [OF ex_laws(1), of ex_transition ?k 1 r t'] ex_inv by auto
qed



section \<open>Transactions\<close>


lemma pay_tx_ok: "tx_ok pay_tx" "IsFixedRewardTx pay_tx = False" "IsWithdrawFee pay_tx = False" "intrinsic_paid f pay_tx"
    "TransactionGasCost pay_tx True True = Inr 21000"
proof -
  have f: "\<not> IsFixedRewardTx pay_tx" "\<not> IsWithdrawFee pay_tx" by code_simp+
  then show "IsFixedRewardTx pay_tx = False" "IsWithdrawFee pay_tx = False" "intrinsic_paid f pay_tx" by (simp_all add: intrinsic_paid_def)
  show "tx_ok pay_tx" by (simp add: tx_ok_def pay_tx_def tx0_def word_range_def)
  show "TransactionGasCost pay_tx True True = Inr 21000" by code_simp
qed

lemma ex_payment: "payment ex_executor pay_tx 200 21000 ex_transition"
  using pay_tx_ok ex_reads ex_addresses by (simp add: payment_def) (simp add: pay_tx_def tx0_def word_le_nat_alt)

text \<open>C6. A plain payment to a new account succeeds: it uses its intrinsic gas and nothing more, the receiver gets the
  value, the sender pays the value and the gas used at the price of the transaction, the fee pool gets that fee, and
  no other balance changes.\<close>

theorem payment_settles:
  assumes "xlaws X" "payment X msg to c t"
  shows "\<exists>t'. tr_apply X msg t = Some (Inr \<lparr>rReturnValue = [], rGasLeft = txGas msg - c, rGasUsed = c, rErr = None\<rparr>, t') \<and>
    trGasPool t' = trGasPool t - c \<and>
    (\<forall>a. txn_GetBalance (xState X) a (trState t') = txn_GetBalance (xState X) a (trState t) +
       (if a = txFrom msg then - (txValue msg + txGasPrice msg * uint c) else 0) + (if a = to then txValue msg else 0) +
       (if a = FeePool then txGasPrice msg * uint c else 0))"
  by (rule payment_applied [OF assms]) (auto simp: moves_def)

theorem payment_settles_witness:
  "\<exists>res t'. tr_apply ex_executor pay_tx ex_transition = Some (Inr res, t') \<and> txn_GetBalance ex_senv 7 (trState t') = 957995 \<and>
     txn_GetBalance ex_senv 200 (trState t') = 5 \<and> txn_GetBalance ex_senv FeePool (trState t') = 42000"
  using payment_settles [OF ex_laws(1) ex_payment] ex_reads(1) ex_addresses(3,4)
  by (auto simp: pay_tx_def tx0_def)


definition ex_mint :: transaction where
  "ex_mint = tx0\<lparr>txGasPrice := 1000, txFrom := 7, txInput := [0x00, 0x57, 0x30, 0x59, 0x20]\<rparr>"

lemma ex_minting: "minting ex_executor ex_mint ex_transition"
proof -
  have a: "CreateAddress item_api unit_curve 7 0 = 0x0707070707070707070707070707070707070707" by code_simp
  have "pre_contracts 0x0707070707070707070707070707070707070707 = None" by code_simp
  then show ?thesis using ex_reads(2-4) a
    by (simp add: minting_def) (simp add: ex_mint_def tx0_def ex_senv_def Let_def)
qed


lemma payment_Apply:
  assumes "xlaws X" "xPostHook X = None" "payment X msg to c t"
  obtains t' where "tr_Apply X msg t = Some (Inr \<lparr>rReturnValue = [], rGasLeft = txGas msg - c, rGasUsed = c, rErr = None\<rparr>, t')"
proof -
  obtain i s where s: "txn_Snapshot (trState t) = (i, s)" by (cases "txn_Snapshot (trState t)")
  have sel: "tTxn s = tTxn (trState t)" "tSnapshot s = tSnapshot (trState t)" "tState s = tState (trState t)" using s by (auto simp: txn_Snapshot_def)
  have g: "getStateObject (xState X) a s = getStateObject (xState X) a (trState t)" "GetRefund (xState X) s = GetRefund (xState X) (trState t)" for a
    unfolding getStateObject_def GetRefund_def sel by (rule refl)+
  have "payment X msg to c (t\<lparr>trState := s\<rparr>)"
    using assms(3) by (simp add: payment_def txn_GetNonce_def txn_GetBalance_def g)
  then obtain t' where "tr_apply X msg (t\<lparr>trState := s\<rparr>) = Some (Inr \<lparr>rReturnValue = [], rGasLeft = txGas msg - c, rGasUsed = c, rErr = None\<rparr>, t')"
    by (rule payment_applied [OF assms(1)])
  then show thesis using assms(2) by (intro that [of t']) (simp add: tr_Apply_def s)
qed


section \<open>Blocks\<close>


definition pay_block :: Block where
  "pay_block = \<lparr>blkHeader = \<lparr>ParentHash = 0, Sha3Uncles = 0, Miner = 0, StateRoot = 0, TxRoot = 0, ReceiptsRoot = 0, LogsBloom = [],
      Difficulty = 1, Number = 1, GasLimit = 100000, GasUsed = 21000, Timestamp = 1, ExtraData = [], MixHash = 0, HNonce = 0, HHash = 0\<rparr>,
     blkTransactions = [pay_tx\<lparr>txGasPrice := 0, txValue := 0\<rparr>], blkUncles = []\<rparr>"

lemma payment_Write:
  assumes "xlaws X" "xPostHook X = None" "payment X (tx_Copy tx) to c t" "Byzantium (trConfig t)" "tr_inv (xState X) t" "txFrom tx \<noteq> 0"
  obtains t' where "tr_Write X tx t = Some (None, tx, t')"
proof -
  let ?D = "xState X"
  have D: "senv_laws ?D" using assms(1) by (simp add: xlaws_def)
  obtain r t1 where 1: "tr_Apply X (tx_Copy tx) t = Some (Inr r, t1)" using payment_Apply [OF assms(1-3)] by blast
  have "tx_ok (tx_Copy tx)" "intrinsic_paid (trConfig t) (tx_Copy tx)" using assms(3) by (simp_all add: payment_def intrinsic_paid_def)
  then have "Byzantium (trConfig t1)" using tr_Apply_ok(1) [OF assms(1,2,5) _ _ 1] assms(4) by (simp add: tr_same_def)
  moreover obtain logs s where s: "Logs ?D (trState t1) = (logs, s)" by (cases "Logs ?D (trState t1)")
  moreover obtain S where S: "CleanDeleteObjects ?D True s = Some S" by (rule CleanDeleteObjects_reads [OF D, of True s])
  ultimately show thesis using that assms(6) 1 by (auto simp: tr_Write_def recover_from_def Let_def finish_tx_def)
qed

lemma ex_begin:
  obtains t where "BeginTxn ex_executor 0 (blkHeader pay_block) 0 NewValidatorFee NewLock () = Some t" "trState t = newTxn ex_senv () ()"
    "trConfig t = Forks_At AllForksEnabled 0" "trGasPool t = 100000" "ctx_ok (trCtx t)"
proof -
  have "Forks_At AllForksEnabled 1 = Forks_At AllForksEnabled 0"
    by (simp add: Forks_At_def AllForksEnabled_def NewFork_def fork_active_def Fork_Active_def)
  moreover have "xForks ex_executor = AllForksEnabled" "NewSnapshotAt (sState ex_senv) 0 () = Some ()"
    by (simp_all add: ex_executor_def ex_senv_def empty_state_def)
  ultimately show thesis using that by (simp add: BeginTxn_def ctx_ok_def pay_block_def)
qed

lemma ex_free_payment:
  assumes "trState t = newTxn ex_senv () ()" "trConfig t = Forks_At AllForksEnabled 0" "trGasPool t = 100000"
  shows "payment ex_executor (tx_Copy (pay_tx\<lparr>txGasPrice := 0, txValue := 0\<rparr>)) 200 21000 t"
proof -
  let ?tx = "tx_Copy (pay_tx\<lparr>txGasPrice := 0, txValue := 0\<rparr>)"
  have c: "\<not> IsFixedRewardTx ?tx" "\<not> IsWithdrawFee ?tx" "TransactionGasCost ?tx True True = Inr 21000" by code_simp+
  have "txFrom ?tx = 7" "txTo ?tx = Some 200" "txNonce ?tx = 0" "txGas ?tx = 21000" "txGasPrice ?tx = 0" "txValue ?tx = 0" "tx_ok ?tx"
    by (simp_all add: pay_tx_def tx0_def tx_Copy_def tx_ok_def word_range_def)
  then show ?thesis using c ex_addresses(2) assms newTxn_reads
    by (simp add: payment_def txn_GetNonce_def txn_GetBalance_def word_le_nat_alt)
qed


end
