(* ===== verification/Spec2Isabelle.thy ===== *)
theory Spec2Isabelle
  imports TxPoolInv TxEvents BftReward EvmArith ExecutorProps
begin

text \<open>
  A verification development for tie-core, a blockchain node written in Go: a transaction pool
  (\<open>txpool\<close>), a byzantine fault tolerant consensus engine (\<open>consensus/pvbft\<close>), the execution of
  transactions (\<open>state\<close>, \<open>tievm\<close>) and the types they share (\<open>types\<close>, \<open>common\<close>). A transaction enters the
  pool, is validated against the current state, is promoted when its nonce is due and is taken by the
  proposer of the next block. Validators exchange signed messages until a quorum has committed the block,
  whose header then carries the committed seals.

  \<^bold>\<open>Conventions.\<close> A \<open>uint64\<close> is a \<open>64 word\<close>, a byte an \<open>8 word\<close>, an address or hash a \<open>160 word\<close> or \<open>256 word\<close>;
  Go's \<open>int\<close> and \<open>big.Int\<close> are \<open>int\<close>. A struct is a record, a method a function that returns the changed
  record. An \<open>error\<close> is a value of an error datatype; \<open>None\<close> is a panic where the text of a definition says
  so, and the type \<open>go\<close> of Crypto separates panic, error and result. A loop that may not end is a
  \<open>partial_function (option)\<close>, whose outer \<open>None\<close> means that it does not return. The only fuel is the bound on
  the nesting of calls in \<open>tr_Callx\<close>: the code refuses depths above 1025, and \<open>Callx_bound\<close> shows that every
  bound from there on gives the same result; \<open>Callx_levels\<close> is what a message at depth 1 needs.
  Mutexes are not modelled: an operation under a lock is one atomic step.

  \<^bold>\<open>Parameters.\<close> Code outside the repository is an argument of the definitions: the RLP library \<open>fastrlp\<close>
  (record \<open>rlp_api\<close>, laws \<open>rlp_laws\<close>, instance \<open>item_api\<close>), the curve and hash functions of \<open>btcec\<close> and
  \<open>sha3\<close> (record \<open>curve\<close>, laws \<open>curve_laws\<close>, instance \<open>unit_curve\<close>), \<open>sort\<close> (laws \<open>sorts\<close>), the decimal library
  (\<open>decimal_api\<close>), the radix tree and the cache of the account layer (\<open>iradix\<close>, \<open>lru\<close>), the pairing curve and
  RIPEMD-160 of the precompiled contracts (\<open>pre_env\<close>) and the protobuf encoding of messages. The order of a Go map range is an argument.

  \<^bold>\<open>The theories.\<close>
  \<^item> TiePrelude: types, word lemmas, bytes and big-endian numbers. GoHeap: \<open>container/heap\<close>, the locale of a
    binary heap over a strict weak order.
  \<^item> HexText, TxTypes, ChainTypes, Receipts, TypesRlp: \<open>types/*.go\<close> and \<open>common/hex\<close>; printing and parsing, the
    bloom filter, the RLP encodings of headers, transactions, blocks and receipts. Theorems: round trips.
  \<^item> TxQueue, TxAccount, TxPool, TxPoolInv, TxEvents: \<open>txpool/*.go\<close>. The queues of one account, promotion, the
    handlers of the pool, the event subscriptions as a step relation. Theorems: the accounting invariant of
    every reachable pool, that handlers return, which transactions are accepted, that the best
    transaction is chosen, that the expected one is promoted, and that events are delivered.
  \<^item> StateGas: the gas pool and the intrinsic gas of \<open>state/executor.go\<close>.
  \<^item> Crypto, TxSigner: \<open>common/crypto/crypto.go\<close> and \<open>state/txsigner.go\<close>; signatures are attributed to the signer.
  \<^item> BftValidators, BftState, BftMsgQueue, BftSnapshot, BftSign, BftReward: \<open>consensus/pvbft\<close>. Validator sets and
    quorums, the round state, the message queue, the snapshot store, seals and signed messages, the
    block and fee rewards and the change of validators. Theorems: quorums overlap for n = 3F + 1, which
    message is read, which snapshot is in force, that a header with enough seals and no other is
    accepted, and the bounds of the rewards.
  \<^item> EvmTypes, EvmState, EvmInstr, EvmArith: \<open>tievm/evm\<close> and \<open>params\<close>. The machine state, every instruction, the
    dispatch table and the loop of the interpreter, over an arbitrary host. Theorems: the arithmetic and
    bit instructions are the operations of 256-bit words, and exponentiation by squaring is the power.
  \<^item> EvmSafety, EvmStep, EvmRun, EvmDepth, EvmPanic: the locale \<open>evm_host\<close> is what the machine relies on in its
    host. In it every instruction keeps the machine invariant and the loop ends; the two places where an
    instruction can panic are exact, and a program that reaches one is given.
  \<^item> Blake2f, Precompiled: \<open>tievm/evm/precompiled\<close>, all nine contracts with their prices, and SHA-256 of the
    standard library. Theorems: the unrolled BLAKE2 compression is that of RFC 7693, MODEXP is the power,
    and no contract returns more gas than it got.
  \<^item> StateTxn, StateTxnInv: \<open>state/txn.go\<close> and \<open>state/state.go\<close>, the layer of changed accounts with snapshots,
    logs and refunds. Lemmas: how each operation changes the balances and that the total is kept.
  \<^item> Executor, ExecutorInv, ExecutorPay, ExecutorProps: \<open>state/executor.go\<close>. Calls, creations, transactions, receipts
    and blocks; the transition is a host of the machine (locale \<open>executor\<close>). Theorems: the machine ends,
    static calls write nothing, failed calls are undone, no transaction creates money if its
    intrinsic gas is paid, and one that does; the gas of a block is within its limit.

  \<^bold>\<open>Not modelled.\<close> The network (\<open>p2p\<close>, \<open>syncer\<close>), the RPC server, the command line, the servers and their
  metrics, the archive tools and the key stores are input and output around libraries. Generated protobuf
  code is not source. The chain store (\<open>core\<close>, \<open>storage\<close>), the state trie (\<open>state/trie\<close>, behind the record
  \<open>StateApi\<close>) and the main loop of the consensus engine (\<open>ibft.go\<close>) are not modelled.
\<close>

end
